(* ===== verification/Prelude.thy ===== *)
theory Prelude
  imports Main "HOL-Library.Char_ord" "HOL-Library.Sublist"
begin

text \<open>
  The vocabulary every component of the development shares: C strings, the character classes
  of \<^verbatim>\<open>ctype.h\<close> in the C locale, the functions of \<^verbatim>\<open>string.h\<close> and \<^verbatim>\<open>stdio.h\<close> the programs
  call, and generic lemmas about lists.

  A C string is a \<^typ>\<open>string\<close>, the characters before the terminating NUL. A buffer of
  \<open>n\<close> bytes that receives a string is represented by \<open>n\<close>; the string fits when its length
  is below \<open>n\<close>. A pointer that the code compares with \<^verbatim>\<open>NULL\<close> is a \<^typ>\<open>string option\<close>.
\<close>

section \<open>Collections of facts\<close>

named_theorems ctype_defs "definitions of the character classes"
named_theorems guard_simps "simplification rules of the validating functions"

section \<open>Characters\<close>

abbreviation LF :: char where "LF \<equiv> CHR 0x0A"
abbreviation CR :: char where "CR \<equiv> CHR 0x0D"
abbreviation NUL :: char where "NUL \<equiv> CHR 0x00"
abbreviation DQ :: char where "DQ \<equiv> CHR 0x22"
abbreviation SQ :: char where "SQ \<equiv> CHR 0x27"
abbreviation HT :: char where "HT \<equiv> CHR 0x09"
abbreviation ESC :: char where "ESC \<equiv> CHR 0x1B"

definition isdigit :: "char \<Rightarrow> bool" where
  [ctype_defs]: "isdigit c \<longleftrightarrow> CHR ''0'' \<le> c \<and> c \<le> CHR ''9''"

definition islower :: "char \<Rightarrow> bool" where
  [ctype_defs]: "islower c \<longleftrightarrow> CHR ''a'' \<le> c \<and> c \<le> CHR ''z''"

definition isupper :: "char \<Rightarrow> bool" where
  [ctype_defs]: "isupper c \<longleftrightarrow> CHR ''A'' \<le> c \<and> c \<le> CHR ''Z''"

definition isalnum :: "char \<Rightarrow> bool" where
  [ctype_defs]: "isalnum c \<longleftrightarrow> isdigit c \<or> islower c \<or> isupper c"

definition isxdigit :: "char \<Rightarrow> bool" where
  [ctype_defs]: "isxdigit c \<longleftrightarrow> isdigit c \<or> (CHR ''a'' \<le> c \<and> c \<le> CHR ''f'')
     \<or> (CHR ''A'' \<le> c \<and> c \<le> CHR ''F'')"

definition isspace :: "char \<Rightarrow> bool" where
  [ctype_defs]: "isspace c \<longleftrightarrow> c = CHR '' '' \<or> (CHR 0x09 \<le> c \<and> c \<le> CHR 0x0D)"

definition isprint :: "char \<Rightarrow> bool" where
  [ctype_defs]: "isprint c \<longleftrightarrow> CHR '' '' \<le> c \<and> c \<le> CHR ''~''"

section \<open>Strings\<close>

text \<open>\<open>cstr s\<close> is what a C function sees of a byte buffer: everything before the first NUL.\<close>

definition cstr :: "string \<Rightarrow> string" where
  "cstr s = takeWhile (\<lambda>c. c \<noteq> NUL) s"

text \<open>\<open>before_any cs s\<close> is \<^verbatim>\<open>s\<close> cut at \<^verbatim>\<open>s[strcspn(s, cs)]\<close>.\<close>

definition before_any :: "char list \<Rightarrow> string \<Rightarrow> string" where
  "before_any cs s = takeWhile (\<lambda>c. c \<notin> set cs) s"

definition chomp :: "string \<Rightarrow> string" where
  "chomp s = before_any [CR, LF] s"

text \<open>\<open>strstr s p\<close> is the offset of the first occurrence of \<open>p\<close> in \<open>s\<close>.\<close>

fun strstr :: "string \<Rightarrow> string \<Rightarrow> nat option" where
  "strstr [] p = (if p = [] then Some 0 else None)"
| "strstr (c # s) p = (if prefix p (c # s) then Some 0 else map_option Suc (strstr s p))"

text \<open>\<open>strrchr s c\<close> is the offset of the last occurrence of \<open>c\<close> in \<open>s\<close>.\<close>

fun strrchr :: "string \<Rightarrow> char \<Rightarrow> nat option" where
  "strrchr [] c = None"
| "strrchr (x # xs) c =
     (case strrchr xs c of Some i \<Rightarrow> Some (Suc i)
      | None \<Rightarrow> if x = c then Some 0 else None)"

text \<open>The sign of \<^verbatim>\<open>strcmp\<close>: bytes compare as unsigned, a proper prefix is smaller.\<close>

fun strcmp :: "string \<Rightarrow> string \<Rightarrow> int" where
  "strcmp [] [] = 0"
| "strcmp [] (b # bs) = - 1"
| "strcmp (a # as) [] = 1"
| "strcmp (a # as) (b # bs) = (if a < b then - 1 else if b < a then 1 else strcmp as bs)"

definition strncmp :: "string \<Rightarrow> string \<Rightarrow> nat \<Rightarrow> int" where
  "strncmp a b n = strcmp (take n a) (take n b)"

text \<open>
  \<^verbatim>\<open>snprintf(out, n, ...)\<close> stores at most \<open>n - 1\<close> characters and returns the length it
  wanted: \<open>fits\<close> is the usual test of the result, \<open>trunc\<close> what an unchecked call leaves.
\<close>

definition fits :: "nat \<Rightarrow> string \<Rightarrow> string option" where
  "fits n s = (if length s < n then Some s else None)"

definition trunc :: "nat \<Rightarrow> string \<Rightarrow> string" where
  "trunc n s = take (n - 1) s"

text \<open>\<^verbatim>\<open>sprintf\<close> of a format in which every directive is \<^verbatim>\<open>%s\<close>.\<close>

fun sprintf_s :: "string \<Rightarrow> string list \<Rightarrow> string" where
  "sprintf_s [] args = []"
| "sprintf_s [c] args = [c]"
| "sprintf_s (c # d # f) args =
     (if c = CHR ''%'' \<and> d = CHR ''s''
      then (case args of [] \<Rightarrow> [] | a # as \<Rightarrow> a @ sprintf_s f as)
      else c # sprintf_s (d # f) args)"

section \<open>Numbers in strings\<close>

definition digit_value :: "char \<Rightarrow> int" where
  "digit_value c = int (of_char c) - 48"

definition digits_value :: "string \<Rightarrow> int" where
  "digits_value s = foldl (\<lambda>v c. 10 * v + digit_value c) 0 s"

abbreviation LONG_MAX :: int where "LONG_MAX \<equiv> 9223372036854775807"
abbreviation LONG_MIN :: int where "LONG_MIN \<equiv> - 9223372036854775808"

text \<open>\<^verbatim>\<open>strtol(s, NULL, 10)\<close>: white space, a sign, digits; the result saturates.\<close>

definition strtol10 :: "string \<Rightarrow> int" where
  "strtol10 s =
     (let t = dropWhile isspace s;
          neg = (t \<noteq> [] \<and> hd t = CHR ''-'');
          u = (if t \<noteq> [] \<and> (hd t = CHR ''-'' \<or> hd t = CHR ''+'') then tl t else t);
          v = digits_value (takeWhile isdigit u)
      in max LONG_MIN (min LONG_MAX (if neg then - v else v)))"

definition digit_char :: "nat \<Rightarrow> char" where
  "digit_char n = char_of (48 + n)"

text \<open>Decimal output, as \<^verbatim>\<open>%d\<close>, \<^verbatim>\<open>%zu\<close> and \<^verbatim>\<open>%llu\<close> of a non-negative number.\<close>

fun dec :: "nat \<Rightarrow> string" where
  "dec n = (if n < 10 then [digit_char n] else dec (n div 10) @ [digit_char (n mod 10)])"

declare dec.simps [simp del]

section \<open>Reading a file line by line\<close>

text \<open>
  \<^verbatim>\<open>fgets(line, k + 1, f)\<close> takes up to \<open>k\<close> bytes and stops after a newline;
  \<open>fgets_len k s\<close> is how many bytes of the rest \<open>s\<close> of the file one call consumes, and
  \<open>fgets_lines k s\<close> the C strings the successive calls leave in the buffer.
\<close>

definition fgets_len :: "nat \<Rightarrow> string \<Rightarrow> nat" where
  "fgets_len k s =
     (let l = length (takeWhile (\<lambda>c. c \<noteq> LF) s)
      in min k (if l < length s then Suc l else l))"

function fgets_lines :: "nat \<Rightarrow> string \<Rightarrow> string list" where
  "fgets_lines k s =
     (if k = 0 \<or> s = [] then []
      else cstr (take (fgets_len k s) s) # fgets_lines k (drop (fgets_len k s) s))"
  by pat_completeness auto
termination
proof (relation "measure (\<lambda>(k, s). length s)")
  fix k :: nat and s :: string
  assume "\<not> (k = 0 \<or> s = [])"
  then have "0 < fgets_len k s"
    by (auto simp: fgets_len_def Let_def)
  with \<open>\<not> (k = 0 \<or> s = [])\<close> show "((k, drop (fgets_len k s) s), (k, s)) \<in> measure (\<lambda>(k, s). length s)"
    by auto
qed simp

declare fgets_lines.simps [simp del]

section \<open>Lemmas on the string functions\<close>

lemma strcmp_refl [simp]: "strcmp s s = 0"
  by (induction s) auto

lemma strcmp_eq_0 [simp]: "strcmp a b = 0 \<longleftrightarrow> a = b"
  by (induction a b rule: strcmp.induct) auto

lemma strcmp_swap: "strcmp b a = - strcmp a b"
  by (induction a b rule: strcmp.induct) auto

lemma strncmp_prefix: "strncmp s p (length p) = 0 \<longleftrightarrow> prefix p s"
  by (auto simp: strncmp_def prefix_def) (metis append_take_drop_id)

lemma fits_Some [simp]: "fits n s = Some t \<longleftrightarrow> t = s \<and> length s < n"
  by (auto simp: fits_def)

lemma fits_None [simp]: "fits n s = None \<longleftrightarrow> n \<le> length s"
  by (auto simp: fits_def)

lemma trunc_short [simp]: "length s < n \<Longrightarrow> trunc n s = s"
  by (simp add: trunc_def)

lemma length_trunc: "0 < n \<Longrightarrow> length (trunc n s) < n"
  by (simp add: trunc_def)

lemma strrchr_None: "strrchr s c = None \<longleftrightarrow> c \<notin> set s"
  by (induction s) (auto split: option.splits)

lemma strrchr_Some:
  "strrchr s c = Some i \<Longrightarrow> i < length s \<and> s ! i = c \<and> c \<notin> set (drop (Suc i) s)"
proof (induction s arbitrary: i)
  case (Cons x xs)
  then show ?case
    by (cases "strrchr xs c") (auto simp: strrchr_None split: if_splits)
qed simp

lemma strrchr_append_right:
  "c \<notin> set ys \<Longrightarrow> strrchr (xs @ c # ys) c = Some (length xs)"
  by (induction xs) (auto simp: strrchr_None [THEN iffD2])

lemma strrchr_split:
  "strrchr s c = Some i \<Longrightarrow> s = take i s @ c # drop (Suc i) s"
  by (metis id_take_nth_drop strrchr_Some)

lemma strstr_Some: "strstr s p = Some i \<Longrightarrow> prefix p (drop i s) \<and> i \<le> length s"
  by (induction s p arbitrary: i rule: strstr.induct) (auto split: if_splits)

lemma strstr_None: "strstr s p = None \<longleftrightarrow> (\<forall>i \<le> length s. \<not> prefix p (drop i s))"
proof (induction s p rule: strstr.induct)
  case (2 c s p)
  show ?case
  proof (cases "prefix p (c # s)")
    case False
    have "(\<forall>i \<le> Suc (length s). \<not> prefix p (drop i (c # s)))
        \<longleftrightarrow> \<not> prefix p (c # s) \<and> (\<forall>i \<le> length s. \<not> prefix p (drop i s))"
      by (auto simp: All_less_Suc2 less_Suc_eq_le [symmetric] simp del: less_Suc_eq_le)
    with False 2 show ?thesis by simp
  qed auto
qed simp

lemma strstr_None_iff_sublist: "strstr s p = None \<longleftrightarrow> \<not> sublist p s"
  by (induction s p rule: strstr.induct) (auto simp: sublist_Cons_right)

lemma cstr_no_nul: "NUL \<notin> set (cstr s)"
  by (auto simp: cstr_def dest: set_takeWhileD)

lemma cstr_id [simp]: "NUL \<notin> set s \<Longrightarrow> cstr s = s"
  by (auto simp: cstr_def takeWhile_eq_all_conv)

lemma set_before_any: "c \<in> set (before_any cs s) \<Longrightarrow> c \<in> set s \<and> c \<notin> set cs"
  by (auto simp: before_any_def dest: set_takeWhileD)

lemma before_any_id [simp]: "set s \<inter> set cs = {} \<Longrightarrow> before_any cs s = s"
  by (auto simp: before_any_def takeWhile_eq_all_conv)

lemma set_chomp: "c \<in> set (chomp s) \<Longrightarrow> c \<in> set s \<and> c \<noteq> CR \<and> c \<noteq> LF"
  by (auto simp: chomp_def dest: set_before_any)

lemma fgets_len_le: "fgets_len k s \<le> length s"
  using length_takeWhile_le [of "\<lambda>c. c \<noteq> LF" s] by (auto simp: fgets_len_def Let_def min_def)

lemma fgets_lines_Nil [simp]: "fgets_lines k [] = []"
  by (simp add: fgets_lines.simps)

text \<open>A line that fits in the buffer is read by one call.\<close>

lemma fgets_len_line:
  "LF \<notin> set l \<Longrightarrow> length l < k \<Longrightarrow> fgets_len k (l @ LF # s) = Suc (length l)"
  by (simp add: fgets_len_def Let_def takeWhile_append takeWhile_eq_all_conv)

lemma fgets_lines_line:
  "LF \<notin> set l \<Longrightarrow> NUL \<notin> set l \<Longrightarrow> length l < k \<Longrightarrow>
    fgets_lines k (l @ LF # s) = (l @ [LF]) # fgets_lines k s"
  by (subst fgets_lines.simps) (auto simp: fgets_len_line)

lemma fgets_lines_concat:
  "\<forall>l \<in> set ls. LF \<notin> set l \<and> NUL \<notin> set l \<and> length l < k \<Longrightarrow>
    fgets_lines k (concat (map (\<lambda>l. l @ [LF]) ls)) = map (\<lambda>l. l @ [LF]) ls"
  by (induction ls) (auto simp: fgets_lines_line)

lemma length_fgets_line: "l \<in> set (fgets_lines k s) \<Longrightarrow> length l \<le> k"
proof (induction k s rule: fgets_lines.induct)
  case (1 k s)
  have "length (cstr (take (fgets_len k s) s)) \<le> k"
    using length_takeWhile_le [of "\<lambda>c. c \<noteq> NUL" "take (fgets_len k s) s"]
    by (auto simp: cstr_def fgets_len_def Let_def)
  with 1 show ?case
    by (subst (asm) (2) fgets_lines.simps) (auto split: if_splits)
qed

text \<open>Decimal output consists of digits and is never empty.\<close>

lemma isdigit_digit_char: "n < 10 \<Longrightarrow> isdigit (digit_char n)"
  by (simp add: isdigit_def digit_char_def less_eq_char_def)

lemma dec_digits: "list_all isdigit (dec n)"
proof (induction n rule: dec.induct)
  case (1 n)
  then show ?case
    by (subst dec.simps) (simp add: isdigit_digit_char)
qed

lemma dec_not_Nil [simp]: "dec n \<noteq> []"
  by (subst dec.simps) simp

lemma dec_isdigit: "c \<in> set (dec n) \<Longrightarrow> isdigit c"
  using dec_digits [of n] by (auto simp: list_all_iff)

lemma dec_length: "n < 10 ^ k \<Longrightarrow> 0 < k \<Longrightarrow> length (dec n) \<le> k"
proof (induction n arbitrary: k rule: dec.induct)
  case (1 n)
  show ?case
  proof (cases "n < 10")
    case True
    with 1 show ?thesis by (subst dec.simps) simp
  next
    case False
    with 1 obtain j where j: "k = Suc j" "0 < j"
      by (cases k; cases "k - 1") auto
    with 1(2) have "n div 10 < 10 ^ j"
      by (simp add: less_mult_imp_div_less mult.commute)
    with 1(1) False j show ?thesis by (subst dec.simps) auto
  qed
qed

section \<open>Lemmas on lists\<close>

lemma takeWhile_dropWhile_hd:
  "dropWhile P s \<noteq> [] \<Longrightarrow> \<not> P (hd (dropWhile P s))"
  by (rule hd_dropWhile)

lemma drop_append_suffix: "drop (length s - length t) s = t \<Longrightarrow> suffix t s"
  by (metis suffix_drop)

lemma length_dropWhile_le': "length (dropWhile P s) \<le> length s"
  by (rule length_dropWhile_le)

end
