(* ===== verification/Versions.thy ===== *)
theory Versions
  imports Prelude "HOL-Library.List_Lexorder"
begin

text \<open>
  Version numbers in \<^verbatim>\<open>tools/syspckg-old/main.c\<close>: \<^verbatim>\<open>compare_versions\<close>, an abstract key of
  a version whose linear order it decides, and the interface \<open>version_order\<close> through which
  every routine that selects the newest of several candidates uses the comparison.
\<close>

section \<open>The comparison\<close>

definition is_sep :: "char \<Rightarrow> bool" where
  "is_sep c \<longleftrightarrow> c = CHR ''.'' \<or> c = CHR ''-'' \<or> c = CHR ''_''"

definition skip_seps :: "string \<Rightarrow> string" where
  "skip_seps s = dropWhile is_sep s"

definition segment :: "string \<Rightarrow> string" where
  "segment s = takeWhile (\<lambda>c. \<not> is_sep c) s"

definition after_segment :: "string \<Rightarrow> string" where
  "after_segment s = dropWhile (\<lambda>c. \<not> is_sep c) s"

lemma length_after_segment:
  "skip_seps s \<noteq> [] \<Longrightarrow> length (after_segment (skip_seps s)) < length s"
proof -
  assume ne: "skip_seps s \<noteq> []"
  then obtain c t where ct: "skip_seps s = c # t" "\<not> is_sep c"
    using hd_dropWhile [of is_sep s] by (cases "skip_seps s") (auto simp: skip_seps_def)
  have "length (after_segment (skip_seps s)) \<le> length t"
    using ct length_dropWhile_le [of "\<lambda>c. \<not> is_sep c" t] by (simp add: after_segment_def)
  also have "length t < length (skip_seps s)"
    using ct by simp
  also have "\<dots> \<le> length s"
    by (simp add: skip_seps_def length_dropWhile_le)
  finally show ?thesis .
qed

text \<open>
  One turn of the loop skips the separators, cuts one segment off each version and decides on
  the first pair of segments that differ. The pointers \<^verbatim>\<open>pa\<close> and \<^verbatim>\<open>pb\<close> are the rests of
  the two strings. Only the sign of \<^verbatim>\<open>strncmp\<close> is used by the callers.
\<close>

function compare_versions :: "string \<Rightarrow> string \<Rightarrow> int" where
  "compare_versions pa pb =
     (if pa = [] \<and> pb = [] then 0
      else let sa = skip_seps pa; sb = skip_seps pb in
        if sa = [] \<or> sb = [] then (if sa \<noteq> [] then 1 else if sb \<noteq> [] then - 1 else 0)
        else
          let na = list_all isdigit (segment sa); nb = list_all isdigit (segment sb);
              la = length (segment sa); lb = length (segment sb) in
          if na \<and> nb then
            (if strtol10 sa < strtol10 sb then - 1
             else if strtol10 sa > strtol10 sb then 1
             else compare_versions (after_segment sa) (after_segment sb))
          else if na \<noteq> nb then (if na then 1 else - 1)
          else
            let cmp = strncmp sa sb (min la lb) in
            if cmp \<noteq> 0 then cmp
            else if la < lb then - 1
            else if la > lb then 1
            else compare_versions (after_segment sa) (after_segment sb))"
  by pat_completeness auto
termination
  by (relation "measure (\<lambda>(pa, pb). length pa)") (auto simp: length_after_segment)

declare compare_versions.simps [simp del]

section \<open>The key of a version\<close>

text \<open>
  A version denotes the list of its segments. A segment of digits is a number, every other
  segment a word; words are smaller than numbers, and numbers beyond \<^verbatim>\<open>LONG_MAX\<close> are equal.
\<close>

datatype segment_key = Word string | Number int

instantiation segment_key :: linorder
begin

fun less_eq_segment_key :: "segment_key \<Rightarrow> segment_key \<Rightarrow> bool" where
  "less_eq_segment_key (Word a) (Word b) \<longleftrightarrow> a \<le> b"
| "less_eq_segment_key (Word a) (Number m) \<longleftrightarrow> True"
| "less_eq_segment_key (Number n) (Word b) \<longleftrightarrow> False"
| "less_eq_segment_key (Number n) (Number m) \<longleftrightarrow> n \<le> m"

definition less_segment_key :: "segment_key \<Rightarrow> segment_key \<Rightarrow> bool" where
  "less_segment_key x y \<longleftrightarrow> x \<le> y \<and> \<not> y \<le> (x :: segment_key)"

instance
proof
  fix x y z :: segment_key
  show "x < y \<longleftrightarrow> x \<le> y \<and> \<not> y \<le> x"
    by (rule less_segment_key_def)
  show "x \<le> x"
    by (cases x) auto
  show "x \<le> y \<Longrightarrow> y \<le> z \<Longrightarrow> x \<le> z"
    by (cases x; cases y; cases z) auto
  show "x \<le> y \<Longrightarrow> y \<le> x \<Longrightarrow> x = y"
    by (cases x; cases y) auto
  show "x \<le> y \<or> y \<le> x"
    by (cases x; cases y) auto
qed

end

lemma less_segment_key_simps [simp]:
  "Word a < Word b \<longleftrightarrow> a < b"
  "Word a < Number m"
  "\<not> Number n < Word b"
  "Number n < Number m \<longleftrightarrow> n < m"
  by (auto simp: less_segment_key_def)

definition segment_key :: "string \<Rightarrow> segment_key" where
  "segment_key s =
     (if list_all isdigit s then Number (min LONG_MAX (digits_value s)) else Word s)"

function version_key :: "string \<Rightarrow> segment_key list" where
  "version_key s =
     (if skip_seps s = [] then []
      else segment_key (segment (skip_seps s)) # version_key (after_segment (skip_seps s)))"
  by pat_completeness auto
termination
  by (relation "measure length") (auto simp: length_after_segment)

declare version_key.simps [simp del]

text \<open>The sign that a linear order gives to a pair.\<close>

definition sign_of_order :: "'a :: linorder \<Rightarrow> 'a \<Rightarrow> int" where
  "sign_of_order x y = (if x < y then - 1 else if x = y then 0 else 1)"

lemma sign_of_order_Cons:
  "sign_of_order (x # xs) (y # ys) =
     (if x < y then - 1 else if y < x then 1 else sign_of_order xs ys)"
  by (auto simp: sign_of_order_def)

lemma sign_of_order_Nil:
  "sign_of_order [] (y # ys) = - 1"
  "sign_of_order (x # xs) [] = 1"
  "sign_of_order ([] :: 'a :: linorder list) [] = 0"
  by (auto simp: sign_of_order_def)

section \<open>\<^verbatim>\<open>strcmp\<close> and \<^verbatim>\<open>strtol\<close> on segments\<close>

lemma strcmp_order: "strcmp a b = sign_of_order a b"
  by (induction a b rule: strcmp.induct) (auto simp: sign_of_order_Cons sign_of_order_Nil)

text \<open>
  Comparing the common length first and the lengths afterwards is the lexicographic order.
\<close>

lemma strcmp_by_length:
  "strcmp a b =
     (let cmp = strcmp (take (min (length a) (length b)) a) (take (min (length a) (length b)) b)
      in if cmp \<noteq> 0 then cmp
         else if length a < length b then - 1 else if length a > length b then 1 else 0)"
  by (induction a b rule: strcmp.induct) (auto simp: Let_def)

lemma take_segment: "n \<le> length (segment s) \<Longrightarrow> take n s = take n (segment s)"
proof -
  assume n: "n \<le> length (segment s)"
  have "s = segment s @ after_segment s"
    by (simp add: segment_def after_segment_def)
  with n show ?thesis
    by (metis diff_is_0_eq take0 take_append append_Nil2)
qed

lemma strncmp_segments:
  "strncmp a b (min (length (segment a)) (length (segment b)))
     = strcmp (take (min (length (segment a)) (length (segment b))) (segment a))
              (take (min (length (segment a)) (length (segment b))) (segment b))"
  by (simp add: strncmp_def take_segment [of _ a] take_segment [of _ b])

lemma isdigit_not_space: "isdigit c \<Longrightarrow> \<not> isspace c"
  by (auto simp: ctype_defs less_eq_char_def)

lemma isdigit_not_sep: "isdigit c \<Longrightarrow> \<not> is_sep c"
  by (auto simp: ctype_defs is_sep_def less_eq_char_def)

lemma digits_value_nonneg: "list_all isdigit s \<Longrightarrow> 0 \<le> digits_value s"
proof (induction s rule: rev_induct)
  case (snoc c s)
  then show ?case
    by (auto simp: digits_value_def digit_value_def isdigit_def less_eq_char_def)
qed (simp add: digits_value_def)

lemma takeWhile_digits_segment:
  assumes "list_all isdigit (segment s)"
  shows "takeWhile isdigit s = segment s"
proof -
  have s: "s = segment s @ after_segment s"
    by (simp add: segment_def after_segment_def)
  have "after_segment s = [] \<or> \<not> isdigit (hd (after_segment s))"
    using hd_dropWhile [of "\<lambda>c. \<not> is_sep c" s] isdigit_not_sep
    by (auto simp: after_segment_def)
  then have "takeWhile isdigit (after_segment s) = []"
    by (cases "after_segment s") auto
  with assms show ?thesis
    by (subst s) (simp add: takeWhile_append list_all_iff)
qed

text \<open>
  On a non-empty segment of digits \<^verbatim>\<open>strtol\<close> finds neither white space nor a sign, stops at
  the end of the segment and saturates.
\<close>

lemma strtol10_segment:
  assumes "list_all isdigit (segment s)" and "segment s \<noteq> []"
  shows "strtol10 s = min LONG_MAX (digits_value (segment s))"
proof -
  from assms obtain c t where ct: "s = c # t" "isdigit c"
    by (cases s) (auto simp: segment_def split: if_splits)
  then have "dropWhile isspace s = s" "c \<noteq> CHR ''-''" "c \<noteq> CHR ''+''"
    by (auto simp: isdigit_not_space) (auto simp: isdigit_def less_eq_char_def)
  moreover have "digits_value (segment s) \<ge> 0"
    using assms(1) by (rule digits_value_nonneg)
  ultimately show ?thesis
    using ct takeWhile_digits_segment [OF assms(1)] by (simp add: strtol10_def)
qed

lemma segment_skip_seps: "skip_seps s \<noteq> [] \<Longrightarrow> segment (skip_seps s) \<noteq> []"
  using hd_dropWhile [of is_sep s]
  by (cases "skip_seps s") (auto simp: segment_def skip_seps_def)

section \<open>The comparison decides the order of the keys\<close>

lemma order_then:
  "(if x < y then - 1 else if y < x then 1 else r) =
     (if sign_of_order x y \<noteq> 0 then sign_of_order x y else r)"
  by (auto simp: sign_of_order_def)

lemma words_then:
  "(if sign_of_order (segment sa) (segment sb) \<noteq> 0
    then sign_of_order (segment sa) (segment sb) else r) =
     (let cmp = strncmp sa sb (min (length (segment sa)) (length (segment sb))) in
      if cmp \<noteq> 0 then cmp
      else if length (segment sa) < length (segment sb) then - 1
      else if length (segment sa) > length (segment sb) then 1 else r)"
proof -
  let ?c = "strncmp sa sb (min (length (segment sa)) (length (segment sb)))"
  have "sign_of_order (segment sa) (segment sb) =
      (if ?c \<noteq> 0 then ?c else if length (segment sa) < length (segment sb) then - 1
       else if length (segment sa) > length (segment sb) then 1 else 0)"
    by (subst strcmp_order [symmetric], subst strcmp_by_length)
       (simp only: strncmp_segments Let_def)
  then show ?thesis
    by (cases "?c = 0") (simp_all add: Let_def)
qed

lemma segment_step:
  assumes "segment sa \<noteq> []" "segment sb \<noteq> []"
  shows "(if segment_key (segment sa) < segment_key (segment sb) then - 1
          else if segment_key (segment sb) < segment_key (segment sa) then 1 else r)
     = (let na = list_all isdigit (segment sa); nb = list_all isdigit (segment sb);
            la = length (segment sa); lb = length (segment sb) in
        if na \<and> nb then
          (if strtol10 sa < strtol10 sb then - 1 else if strtol10 sa > strtol10 sb then 1 else r)
        else if na \<noteq> nb then (if na then 1 else - 1)
        else let cmp = strncmp sa sb (min la lb) in
          if cmp \<noteq> 0 then cmp else if la < lb then - 1 else if la > lb then 1 else r)"
proof -
  consider (numbers) "list_all isdigit (segment sa)" "list_all isdigit (segment sb)"
    | (mixed) "list_all isdigit (segment sa) \<noteq> list_all isdigit (segment sb)"
    | (words) "\<not> list_all isdigit (segment sa)" "\<not> list_all isdigit (segment sb)"
    by blast
  then show ?thesis
  proof cases
    case numbers
    then have "segment_key (segment sa) = Number (strtol10 sa)"
      and "segment_key (segment sb) = Number (strtol10 sb)"
      using assms by (simp_all add: segment_key_def strtol10_segment)
    with numbers show ?thesis
      by (simp only: Let_def less_segment_key_simps simp_thms if_True)
  next
    case mixed
    then show ?thesis
      by (cases "list_all isdigit (segment sa)") (simp_all add: segment_key_def Let_def)
  next
    case words
    then have "segment_key (segment sa) = Word (segment sa)"
      and "segment_key (segment sb) = Word (segment sb)"
      by (simp_all only: segment_key_def if_False)
    with words show ?thesis
      using words_then [of sa sb r]
      by (simp only: Let_def less_segment_key_simps order_then simp_thms if_False)
  qed
qed

lemma compare_versions_step:
  assumes "skip_seps pa \<noteq> []" "skip_seps pb \<noteq> []"
  shows "compare_versions pa pb =
     (if segment_key (segment (skip_seps pa)) < segment_key (segment (skip_seps pb)) then - 1
      else if segment_key (segment (skip_seps pb)) < segment_key (segment (skip_seps pa)) then 1
      else compare_versions (after_segment (skip_seps pa)) (after_segment (skip_seps pb)))"
proof -
  have "pa \<noteq> []"
    using assms(1) by (auto simp: skip_seps_def)
  with assms show ?thesis
    unfolding segment_step [OF segment_skip_seps segment_skip_seps, OF assms]
    by (subst compare_versions.simps) (simp only: Let_def simp_thms if_False)
qed

lemma compare_versions_end:
  assumes "skip_seps pa = [] \<or> skip_seps pb = []"
  shows "compare_versions pa pb =
     (if skip_seps pa \<noteq> [] then 1 else if skip_seps pb \<noteq> [] then - 1 else 0)"
  using assms by (subst compare_versions.simps) (auto simp: skip_seps_def Let_def)

lemma compare_versions_key:
  "compare_versions a b = sign_of_order (version_key a) (version_key b)"
proof (induction "length a" arbitrary: a b rule: less_induct)
  case less
  show ?case
  proof (cases "skip_seps a = [] \<or> skip_seps b = []")
    case True
    then show ?thesis
      by (simp add: compare_versions_end version_key.simps [of a] version_key.simps [of b])
         (auto simp: sign_of_order_Nil)
  next
    case False
    then show ?thesis
      using less [OF length_after_segment]
      by (simp add: compare_versions_step version_key.simps [of a] version_key.simps [of b]
          sign_of_order_Cons)
  qed
qed

section \<open>Selecting the newest candidate\<close>

text \<open>
  The loops that look for the newest package keep the best name and version so far and replace
  them when \<open>cmp ver best_ver > 0\<close>; an empty best name means that nothing was found yet.
\<close>

fun newest_by :: "('v \<Rightarrow> 'v \<Rightarrow> int) \<Rightarrow> ('n \<times> 'v) option \<Rightarrow> ('n \<times> 'v) list \<Rightarrow> ('n \<times> 'v) option" where
  "newest_by cmp best [] = best"
| "newest_by cmp best ((n, v) # xs) =
     newest_by cmp
       (case best of None \<Rightarrow> Some (n, v)
        | Some (bn, bv) \<Rightarrow> if cmp v bv > 0 then Some (n, v) else best) xs"

text \<open>
  The contract of a comparison that may drive such a loop: the sign of \<open>cmp\<close> is a total
  preorder.
\<close>

locale version_order =
  fixes cmp :: "'v \<Rightarrow> 'v \<Rightarrow> int"
  assumes cmp_swap: "cmp b a = - cmp a b"
    and cmp_trans: "0 \<le> cmp a b \<Longrightarrow> 0 \<le> cmp b c \<Longrightarrow> 0 \<le> cmp a c"
begin

lemma cmp_refl: "cmp a a = 0"
  using cmp_swap [of a a] by simp

lemma cmp_total: "0 \<le> cmp a b \<or> 0 \<le> cmp b a"
  using cmp_swap [of b a] by linarith

lemma newest_by_Some:
  assumes "newest_by cmp (Some (bn, bv)) xs = Some (n, v)"
  shows "0 \<le> cmp v bv \<and> (\<forall>(m, u) \<in> set xs. 0 \<le> cmp v u)
     \<and> (n, v) \<in> insert (bn, bv) (set xs)"
  using assms
proof (induction xs arbitrary: bn bv)
  case Nil
  then show ?case by (simp add: cmp_refl)
next
  case (Cons x xs)
  obtain m u where x: "x = (m, u)" by (cases x)
  show ?case
  proof (cases "cmp u bv > 0")
    case True
    with Cons x have *: "0 \<le> cmp v u \<and> (\<forall>(m, u) \<in> set xs. 0 \<le> cmp v u)
        \<and> (n, v) \<in> insert (m, u) (set xs)"
      by auto
    with True have "0 \<le> cmp v bv"
      using cmp_trans [of v u bv] by simp
    with * x show ?thesis by auto
  next
    case False
    with Cons x have *: "0 \<le> cmp v bv \<and> (\<forall>(m, u) \<in> set xs. 0 \<le> cmp v u)
        \<and> (n, v) \<in> insert (bn, bv) (set xs)"
      by auto
    with False have "0 \<le> cmp v u"
      using cmp_trans [of v bv u] cmp_swap [of bv u] by simp
    with * x show ?thesis by auto
  qed
qed

lemma newest_by_not_None: "newest_by cmp (Some b) xs \<noteq> None"
  by (induction xs arbitrary: b) (auto split: prod.splits)

lemma newest_by_empty: "newest_by cmp None xs = None \<longleftrightarrow> xs = []"
  using newest_by_not_None by (cases xs) auto

lemma newest_by_max:
  assumes "newest_by cmp None xs = Some (n, v)"
  shows "(n, v) \<in> set xs \<and> (\<forall>(m, u) \<in> set xs. 0 \<le> cmp v u)"
proof (cases xs)
  case Nil
  with assms show ?thesis by simp
next
  case (Cons x ys)
  obtain m u where "x = (m, u)" by (cases x)
  with Cons assms have "newest_by cmp (Some (m, u)) ys = Some (n, v)"
    by simp
  from newest_by_Some [OF this] Cons \<open>x = (m, u)\<close> show ?thesis
    by auto
qed

end

interpretation cv: version_order compare_versions
proof
  fix a b c :: string
  show "compare_versions b a = - compare_versions a b"
    by (auto simp: compare_versions_key sign_of_order_def)
  show "0 \<le> compare_versions a b \<Longrightarrow> 0 \<le> compare_versions b c \<Longrightarrow> 0 \<le> compare_versions a c"
    by (auto simp: compare_versions_key sign_of_order_def split: if_splits)
qed

lemma saturated_key:
  assumes "list_all isdigit a" and "LONG_MAX \<le> digits_value a"
  shows "version_key a = [Number LONG_MAX]"
proof -
  have "a \<noteq> []"
    using assms(2) by (auto simp: digits_value_def)
  moreover have "\<forall>c \<in> set a. \<not> is_sep c"
    using assms(1) isdigit_not_sep by (auto simp: list_all_iff)
  ultimately have "skip_seps a = a" "segment a = a" "after_segment a = []"
    by (cases a; auto simp: skip_seps_def segment_def after_segment_def takeWhile_eq_all_conv)+
  moreover have "version_key [] = []"
    by (simp add: version_key.simps skip_seps_def)
  ultimately show ?thesis
    using assms \<open>a \<noteq> []\<close> by (subst version_key.simps) (simp add: segment_key_def)
qed

section \<open>Properties\<close>


text \<open>
  Two numeric versions of at least \<^verbatim>\<open>LONG_MAX\<close> compare as equal whatever their digits are,
  because \<^verbatim>\<open>strtol\<close> saturates.
\<close>

theorem compare_versions_saturates:
  assumes "list_all isdigit a" and "list_all isdigit b"
    and "LONG_MAX \<le> digits_value a" and "LONG_MAX \<le> digits_value b"
  shows "compare_versions a b = 0"
  using saturated_key [OF assms(1,3)] saturated_key [OF assms(2,4)]
  by (simp add: compare_versions_key sign_of_order_def)

theorem compare_versions_saturates_witness:
  "compare_versions ''9223372036854775807'' ''20000000000000000000'' = 0"
  by (rule compare_versions_saturates)
     (simp_all add: isdigit_def less_eq_char_def digits_value_def digit_value_def)

end
