(* ===== verification/PkgNames.thy ===== *)
theory PkgNames
  imports Prelude "HOL-Library.Word"
begin

text \<open>
  The string predicates and the name arithmetic of \<^verbatim>\<open>tools/syspckg-old/main.c\<close>: what a safe
  name, version or identifier is, how a selector is reduced to a package base name, and how an
  installed name \<^verbatim>\<open>base-version\<close> is taken apart. A function with an output buffer of
  \<^verbatim>\<open>out_sz\<close> bytes returns \<^const>\<open>None\<close> for \<^verbatim>\<open>-1\<close>. The arguments are arrays in every call,
  so the \<^verbatim>\<open>NULL\<close> tests of these static functions never succeed.
\<close>

unbundle bit_operations_syntax

abbreviation PATH_MAX :: nat where "PATH_MAX \<equiv> 4096"

section \<open>Predicates on strings\<close>

definition has_suffix :: "string \<Rightarrow> string \<Rightarrow> bool" where
  "has_suffix s suf =
     (let sl = length s; su = length suf in
      if sl < su then False else drop (sl - su) s = suf)"

definition is_url :: "string \<Rightarrow> bool" where
  "is_url s \<longleftrightarrow> prefix ''http://'' s \<or> prefix ''https://'' s"

definition is_packager_pkg_name :: "string \<Rightarrow> bool" where
  "is_packager_pkg_name name \<longleftrightarrow> name = ''syspckg'' \<or> prefix ''syspckg-'' name"

definition is_core_lib_path :: "string \<Rightarrow> bool" where
  "is_core_lib_path path \<longleftrightarrow>
     has_suffix path ''/libc.so.6'' \<or> has_suffix path ''/ld-linux-x86-64.so.2''"

definition is_pkg_token_char :: "char \<Rightarrow> bool" where
  "is_pkg_token_char c \<longleftrightarrow>
     isalnum c \<or> c = CHR ''.'' \<or> c = CHR ''_'' \<or> c = CHR ''-'' \<or> c = CHR ''+''"

fun name_exists :: "string list \<Rightarrow> string \<Rightarrow> bool" where
  "name_exists [] name = False"
| "name_exists (n # names) name = (if n = name then True else name_exists names name)"

definition trim_whitespace :: "string \<Rightarrow> string" where
  "trim_whitespace s = rev (dropWhile isspace (rev (dropWhile isspace s)))"

definition is_safe_version :: "string \<Rightarrow> bool" where
  "is_safe_version v \<longleftrightarrow> v \<noteq> [] \<and>
     list_all (\<lambda>c. islower c \<or> isupper c \<or> isdigit c
       \<or> c = CHR ''.'' \<or> c = CHR ''_'' \<or> c = CHR ''-'' \<or> c = CHR ''+'') v"

definition is_safe_id :: "string \<Rightarrow> bool" where
  "is_safe_id v \<longleftrightarrow> v \<noteq> [] \<and>
     list_all (\<lambda>c. islower c \<or> isupper c \<or> isdigit c
       \<or> c = CHR ''.'' \<or> c = CHR ''_'' \<or> c = CHR ''-'') v"

definition is_safe_pkgname :: "string \<Rightarrow> bool" where
  "is_safe_pkgname v \<longleftrightarrow> v \<noteq> [] \<and> list_all is_pkg_token_char v"

fun has_digit :: "string \<Rightarrow> bool" where
  "has_digit [] = False"
| "has_digit (c # s) = (if isdigit c then True else has_digit s)"

text \<open>\<^verbatim>\<open>NULL\<close>, an empty line, \<^verbatim>\<open>y\<close> and \<^verbatim>\<open>yes\<close> in any case accept.\<close>

definition answer_is_yes_or_default :: "string option \<Rightarrow> bool" where
  "answer_is_yes_or_default line =
     (case line of None \<Rightarrow> True
      | Some l \<Rightarrow>
          let a = chomp l; len = length a in
          if len = 0 then True
          else (len = 1 \<and> (a ! 0 = CHR ''y'' \<or> a ! 0 = CHR ''Y'')) \<or>
               (len = 3 \<and> (a ! 0 = CHR ''y'' \<or> a ! 0 = CHR ''Y'')
                 \<and> (a ! 1 = CHR ''e'' \<or> a ! 1 = CHR ''E'')
                 \<and> (a ! 2 = CHR ''s'' \<or> a ! 2 = CHR ''S'')))"

definition is_exec_path :: "string \<Rightarrow> bool" where
  "is_exec_path path \<longleftrightarrow>
     prefix ''/bin/'' path \<or> prefix ''/sbin/'' path \<or> prefix ''/usr/bin/'' path
     \<or> prefix ''/usr/sbin/'' path \<or> prefix ''/usr/libexec/'' path"

definition is_package_control_file :: "string \<Rightarrow> bool" where
  "is_package_control_file name \<longleftrightarrow>
     name = ''install.sh'' \<or> name = ''remove.sh''
     \<or> name = ''syspckg-info'' \<or> name = ''syspckg-deps''"

definition file_has_exec_content :: "string option \<Rightarrow> bool" where
  "file_has_exec_content content =
     (case content of None \<Rightarrow> False
      | Some s \<Rightarrow>
          if length s < 2 then False
          else prefix [CHR 0x7F, CHR ''E'', CHR ''L'', CHR ''F''] s \<or> prefix ''#!'' s)"

type_synonym mode_t = "32 word"

definition add_exec_from_read :: "mode_t \<Rightarrow> mode_t" where
  "add_exec_from_read mode = (let exec = drop_bit 2 (mode AND 0x124) in mode OR exec)"

section \<open>Names and selectors\<close>

definition join_url2 :: "string \<Rightarrow> string \<Rightarrow> nat \<Rightarrow> string option" where
  "join_url2 base part out_sz =
     (let slash = (if base \<noteq> [] \<and> last base = CHR ''/'' then '''' else ''/'')
      in fits out_sz (base @ slash @ part))"

definition strip_syspckg_suffix :: "string \<Rightarrow> nat \<Rightarrow> string option" where
  "strip_syspckg_suffix name out_sz =
     (let nl = length name; sl = length ''.syspckg'' in
      if nl \<ge> sl \<and> drop (nl - sl) name = ''.syspckg''
      then (if nl - sl + 1 > out_sz then None else Some (take (nl - sl) name))
      else (if nl + 1 > out_sz then None else Some name))"

definition get_pkg_base :: "string \<Rightarrow> nat \<Rightarrow> string option" where
  "get_pkg_base input out_sz =
     (let name = (case strrchr input (CHR ''/'') of Some i \<Rightarrow> drop (Suc i) input | None \<Rightarrow> input)
      in strip_syspckg_suffix name out_sz)"

definition selector_has_explicit_version :: "string \<Rightarrow> bool" where
  "selector_has_explicit_version selector =
     (case get_pkg_base selector PATH_MAX of None \<Rightarrow> False
      | Some name \<Rightarrow>
          (case strrchr name (CHR ''-'') of None \<Rightarrow> False
           | Some i \<Rightarrow> has_digit (drop (Suc i) name)))"

definition strip_trailing_slash :: "string \<Rightarrow> nat \<Rightarrow> string option" where
  "strip_trailing_slash inp out_sz =
     (let len = (if inp \<noteq> [] \<and> last inp = CHR ''/'' then length inp - 1 else length inp)
      in if len = 0 \<or> len + 1 > out_sz then None else Some (take len inp))"

definition version_from_prefixed_pkg :: "string \<Rightarrow> string \<Rightarrow> string \<Rightarrow> nat \<Rightarrow> string option" where
  "version_from_prefixed_pkg name pre suf out_sz =
     (let pl = length pre; sl = length suf; nl = length name in
      if nl \<le> pl + sl \<or> \<not> prefix pre name \<or> drop (nl - sl) name \<noteq> suf then None
      else let vl = nl - pl - sl in
        if vl = 0 \<or> vl + 1 > out_sz then None
        else let out = take vl (drop pl name) in
          if is_safe_version out then Some out else None)"

definition selector_base_without_version :: "string \<Rightarrow> nat \<Rightarrow> string option" where
  "selector_base_without_version manifest_name out_sz =
     (case strip_syspckg_suffix manifest_name PATH_MAX of None \<Rightarrow> None
      | Some name0 \<Rightarrow>
          let name = (case strrchr name0 (CHR ''-'') of None \<Rightarrow> name0
                      | Some i \<Rightarrow> if has_digit (drop (Suc i) name0) then take i name0 else name0)
          in if \<not> is_safe_pkgname name \<or> name = ''adavalinux'' \<or> name = ''kernel''
                \<or> name = ''syspckg'' then None
             else fits out_sz name)"

definition strip_list_suffix :: "string \<Rightarrow> nat \<Rightarrow> string option" where
  "strip_list_suffix name out_sz =
     (let nl = length name; sl = length ''.list'' in
      if nl \<le> sl \<or> drop (nl - sl) name \<noteq> ''.list'' \<or> nl - sl + 1 > out_sz then None
      else Some (take (nl - sl) name))"

definition version_from_install_name :: "string \<Rightarrow> string \<Rightarrow> nat \<Rightarrow> string option" where
  "version_from_install_name install_name base out_sz =
     (let bl = length base; nl = length install_name in
      if nl \<le> bl + 1 \<or> \<not> prefix base install_name \<or> install_name ! bl \<noteq> CHR ''-'' then None
      else let vl = nl - bl - 1 in
        if vl = 0 \<or> vl + 1 > out_sz then None else Some (take vl (drop (bl + 1) install_name)))"

section \<open>Lemmas\<close>

lemma has_suffix_iff [guard_simps]: "has_suffix s t \<longleftrightarrow> suffix t s"
  by (auto simp: has_suffix_def Let_def suffix_def) (metis append_take_drop_id)

lemma has_suffix_append [simp]: "has_suffix (s @ t) t"
  by (simp add: has_suffix_def)

lemma name_exists_iff [simp]: "name_exists names name \<longleftrightarrow> name \<in> set names"
  by (induction names) auto

lemma has_digit_iff: "has_digit s \<longleftrightarrow> (\<exists>c \<in> set s. isdigit c)"
  by (induction s) auto

lemma strip_syspckg_suffix_alt:
  "strip_syspckg_suffix name n =
     fits n (if has_suffix name ''.syspckg'' then take (length name - length ''.syspckg'') name else name)"
  by (auto simp: strip_syspckg_suffix_def has_suffix_def fits_def Let_def)

lemma strip_syspckg_suffix_append:
  "strip_syspckg_suffix (name @ ''.syspckg'') n = fits n name"
  by (simp add: strip_syspckg_suffix_alt)

lemma strip_syspckg_suffix_length:
  "strip_syspckg_suffix name n = Some out \<Longrightarrow> length out < n \<and> prefix out name"
  by (auto simp: strip_syspckg_suffix_alt take_is_prefix split: if_splits)

lemma strip_list_suffix_Some:
  "strip_list_suffix name n = Some out \<longleftrightarrow> name = out @ ''.list'' \<and> out \<noteq> [] \<and> length out < n"
proof
  let ?k = "length name - length ''.list''"
  assume "strip_list_suffix name n = Some out"
  then have *: "length ''.list'' < length name" "drop ?k name = ''.list''"
    "out = take ?k name" "?k < n"
    unfolding strip_list_suffix_def Let_def by (simp_all split: if_splits)
  then have "name = out @ ''.list''"
    by (metis append_take_drop_id)
  moreover from * have "length out = ?k" "0 < ?k"
    by auto
  ultimately show "name = out @ ''.list'' \<and> out \<noteq> [] \<and> length out < n"
    using * by auto
qed (auto simp: strip_list_suffix_def)

lemma safe_version_chars:
  "is_safe_version v \<Longrightarrow> c \<in> set v \<Longrightarrow> is_pkg_token_char c"
  by (auto simp: is_safe_version_def is_pkg_token_char_def isalnum_def list_all_iff)

lemma safe_pkgname_version: "is_safe_pkgname v \<longleftrightarrow> is_safe_version v"
  by (auto simp: is_safe_pkgname_def is_safe_version_def is_pkg_token_char_def isalnum_def
      list_all_iff)

lemma pkg_token_not_slash: "is_pkg_token_char c \<Longrightarrow> c \<noteq> CHR ''/''"
  by (auto simp: is_pkg_token_char_def ctype_defs less_eq_char_def)

section \<open>Properties\<close>

text \<open>
  Taking a name \<^verbatim>\<open>base-version\<close> apart inverts putting it together when the version holds a
  digit and no hyphen: the base and the version come back unchanged, with or without the
  \<^verbatim>\<open>.syspckg\<close> suffix on the file name.
\<close>

theorem base_version_round_trip:
  assumes "is_safe_pkgname base" and "base \<notin> {''adavalinux'', ''kernel'', ''syspckg''}"
    and "has_digit ver" and "CHR ''-'' \<notin> set ver"
    and "length base + length ver + 1 < PATH_MAX"
  shows "selector_base_without_version (base @ ''-'' @ ver @ ''.syspckg'') PATH_MAX = Some base
    \<and> version_from_install_name (base @ ''-'' @ ver) base PATH_MAX = Some ver"
proof -
  have "strip_syspckg_suffix (base @ ''-'' @ ver @ ''.syspckg'') PATH_MAX = Some (base @ ''-'' @ ver)"
    using strip_syspckg_suffix_append [of "base @ ''-'' @ ver" PATH_MAX] assms(5) by simp
  moreover have "strrchr (base @ ''-'' @ ver) (CHR ''-'') = Some (length base)"
    using assms(4) by (simp add: strrchr_append_right)
  moreover have "ver \<noteq> []"
    using assms(3) by auto
  ultimately show ?thesis
    using assms
    by (simp add: selector_base_without_version_def version_from_install_name_def Let_def nth_append)
qed

theorem base_version_round_trip_witness:
  "selector_base_without_version (''glib'' @ ''-'' @ ''2.82'' @ ''.syspckg'') PATH_MAX = Some ''glib''
   \<and> version_from_install_name (''glib'' @ ''-'' @ ''2.82'') ''glib'' PATH_MAX = Some ''2.82''"
  by (rule base_version_round_trip)
     (simp_all add: is_safe_pkgname_def is_pkg_token_char_def ctype_defs less_eq_char_def)

end
