(* ===== verification/InstallOrder.thy ===== *)
theory InstallOrder
  imports PkgNames
begin

text \<open>
  The plan of an installation in \<^verbatim>\<open>tools/syspckg-old/main.c\<close> (\<^verbatim>\<open>pkg_plan_t\<close>), the lookups in
  it, and the depth-first search that puts the planned packages in an order in which every
  dependency comes before the packages that need it.
\<close>

section \<open>Plans\<close>

record pkg_plan =
  p_selector :: string
  p_pkg_name :: string
  p_archive_path :: string
  p_install_name :: string
  p_pkg_id :: string
  p_pkg_version :: string
  p_pkg_ver :: string
  p_extract_dir :: string
  p_install_dir :: string
  p_installed_name :: string
  p_deps :: "string list"
  p_installed :: bool
  p_extracted :: bool

fun find_index :: "('a \<Rightarrow> bool) \<Rightarrow> 'a list \<Rightarrow> nat option" where
  "find_index P [] = None"
| "find_index P (x # xs) = (if P x then Some 0 else map_option Suc (find_index P xs))"

definition find_plan_by_selector :: "pkg_plan list \<Rightarrow> string \<Rightarrow> nat option" where
  "find_plan_by_selector plans selector = find_index (\<lambda>p. p_selector p = selector) plans"

definition find_plan_by_dependency :: "pkg_plan list \<Rightarrow> string \<Rightarrow> nat option" where
  "find_plan_by_dependency plans dependency =
     find_index (\<lambda>p. p_install_name p = dependency \<or> p_pkg_name p = dependency
        \<or> p_selector p = dependency) plans"

section \<open>The depth-first search\<close>

text \<open>
  The state array holds 0 for a plan not seen yet, 1 while its dependencies are visited and 2
  when it is in the order. The search recurses over the dependency lists; \<open>fuel\<close> bounds its
  depth, and \<open>OutOfFuel\<close> is shown not to occur below.
\<close>

datatype visit_result = OutOfFuel | Circular | Visited "nat list" "nat list"

function (sequential)
  visit_install_plan ::
    "nat \<Rightarrow> pkg_plan list \<Rightarrow> nat \<Rightarrow> nat list \<Rightarrow> nat list \<Rightarrow> visit_result" and
  visit_deps ::
    "nat \<Rightarrow> pkg_plan list \<Rightarrow> string list \<Rightarrow> nat list \<Rightarrow> nat list \<Rightarrow> visit_result"
where
  "visit_install_plan 0 plans index st ord = OutOfFuel"
| "visit_install_plan (Suc fuel) plans index st ord =
     (if st ! index = 2 then Visited st ord
      else if st ! index = 1 then Circular
      else case visit_deps fuel plans (p_deps (plans ! index)) (st[index := 1]) ord of
             Visited st' ord' \<Rightarrow> Visited (st'[index := 2]) (ord' @ [index])
           | r \<Rightarrow> r)"
| "visit_deps fuel plans [] st ord = Visited st ord"
| "visit_deps fuel plans (d # ds) st ord =
     (case find_plan_by_dependency plans d of
        None \<Rightarrow> visit_deps fuel plans ds st ord
      | Some j \<Rightarrow>
          (case visit_install_plan fuel plans j st ord of
             Visited st' ord' \<Rightarrow> visit_deps fuel plans ds st' ord'
           | r \<Rightarrow> r))"
  by pat_completeness auto
termination
  by (relation "measures
        [\<lambda>x. (case x of Inl (fuel, _) \<Rightarrow> fuel | Inr (fuel, _) \<Rightarrow> fuel),
         \<lambda>x. (case x of Inl _ \<Rightarrow> 0 | Inr (_, _, ds, _) \<Rightarrow> Suc (length ds))]") auto

fun visit_all :: "nat \<Rightarrow> pkg_plan list \<Rightarrow> nat list \<Rightarrow> nat list \<Rightarrow> nat list \<Rightarrow> visit_result" where
  "visit_all fuel plans [] st ord = Visited st ord"
| "visit_all fuel plans (i # is) st ord =
     (case visit_install_plan fuel plans i st ord of
        Visited st' ord' \<Rightarrow> visit_all fuel plans is st' ord'
      | r \<Rightarrow> r)"

definition build_install_order :: "pkg_plan list \<Rightarrow> visit_result" where
  "build_install_order plans =
     visit_all (Suc (length plans)) plans [0..<length plans] (replicate (length plans) 0) []"

text \<open>What \<^verbatim>\<open>main\<close> gets: the order, or \<^const>\<open>None\<close> when the call fails.\<close>

definition install_order :: "pkg_plan list \<Rightarrow> nat list option" where
  "install_order plans =
     (case build_install_order plans of Visited st ord \<Rightarrow> Some ord | _ \<Rightarrow> None)"

section \<open>The dependency graph\<close>

definition dep_edges :: "pkg_plan list \<Rightarrow> (nat \<times> nat) set" where
  "dep_edges plans =
     {(i, j). i < length plans
        \<and> (\<exists>d \<in> set (p_deps (plans ! i)). find_plan_by_dependency plans d = Some j)}"

text \<open>An order in which everything a plan depends on stands before it.\<close>

definition dep_first :: "pkg_plan list \<Rightarrow> nat list \<Rightarrow> bool" where
  "dep_first plans ord \<longleftrightarrow>
     (\<forall>xs i ys. ord = xs @ i # ys \<longrightarrow> (\<forall>j. (i, j) \<in> dep_edges plans \<longrightarrow> j \<in> set xs))"

lemma find_index_Some: "find_index P xs = Some i \<Longrightarrow> i < length xs \<and> P (xs ! i)"
  by (induction xs arbitrary: i) (auto split: if_splits)

lemma find_index_None: "find_index P xs = None \<longleftrightarrow> (\<forall>x \<in> set xs. \<not> P x)"
  by (induction xs) auto

lemma find_plan_by_dependency_bound:
  "find_plan_by_dependency plans d = Some j \<Longrightarrow> j < length plans"
  by (auto simp: find_plan_by_dependency_def dest: find_index_Some)

lemma dep_edges_bound: "(i, j) \<in> dep_edges plans \<Longrightarrow> i < length plans \<and> j < length plans"
  by (auto simp: dep_edges_def dest: find_plan_by_dependency_bound)

lemma dep_first_Nil [simp]: "dep_first plans []"
  by (simp add: dep_first_def)

lemma dep_first_snoc:
  assumes "dep_first plans ord" and "\<And>j. (i, j) \<in> dep_edges plans \<Longrightarrow> j \<in> set ord"
  shows "dep_first plans (ord @ [i])"
  unfolding dep_first_def
proof (intro allI impI)
  fix xs k ys j
  assume split: "ord @ [i] = xs @ k # ys" and edge: "(k, j) \<in> dep_edges plans"
  show "j \<in> set xs"
  proof (cases ys rule: rev_cases)
    case Nil
    with split edge assms(2) show ?thesis by auto
  next
    case (snoc zs z)
    with split have "ord = xs @ k # zs" by auto
    with assms(1) edge show ?thesis by (auto simp: dep_first_def)
  qed
qed

lemma dep_first_no_self_path:
  assumes "dep_first plans ord" and "distinct ord"
    and "(i, j) \<in> (dep_edges plans)\<^sup>+" and "ord = xs @ i # ys"
  shows "j \<in> set xs"
  using assms(3,4)
proof (induction arbitrary: rule: trancl_induct)
  case (base j)
  with assms(1) show ?case by (auto simp: dep_first_def)
next
  case (step j k)
  then have "j \<in> set xs" by blast
  then obtain us vs where "xs = us @ j # vs" by (meson split_list)
  with step.prems assms(1) step.hyps(2) have "k \<in> set us"
    by (auto simp: dep_first_def)
  with \<open>xs = us @ j # vs\<close> show ?case by simp
qed

section \<open>Invariant of the search\<close>

definition marked :: "nat \<Rightarrow> nat list \<Rightarrow> nat set" where
  "marked m st = {i. i < length st \<and> st ! i = m}"

definition search_inv :: "pkg_plan list \<Rightarrow> nat list \<Rightarrow> nat list \<Rightarrow> bool" where
  "search_inv plans st ord \<longleftrightarrow>
     length st = length plans \<and> set st \<subseteq> {0, 1, 2} \<and> set ord = marked 2 st
     \<and> distinct ord \<and> dep_first plans ord"

lemma search_invD:
  assumes "search_inv plans st ord"
  shows "length st = length plans" "set st \<subseteq> {0, 1, 2}" "set ord = marked 2 st"
    "distinct ord" "dep_first plans ord"
  using assms by (auto simp: search_inv_def)

lemma finite_marked [simp]: "finite (marked m st)"
  by (simp add: marked_def)

lemma marked_update:
  "i < length st \<Longrightarrow> marked m (st[i := k]) =
     (if k = m then insert i (marked m st) else marked m st - {i})"
  by (auto simp: marked_def nth_list_update split: if_splits)

text \<open>What a finished call promises about the state it leaves.\<close>

definition search_post :: "pkg_plan list \<Rightarrow> nat list \<Rightarrow> nat list \<Rightarrow> nat list \<Rightarrow> bool" where
  "search_post plans st st' ord' \<longleftrightarrow>
     search_inv plans st' ord' \<and> marked 1 st' = marked 1 st \<and> marked 2 st \<subseteq> marked 2 st'
     \<and> marked 0 st' \<subseteq> marked 0 st"

lemma search_post_refl: "search_inv plans st ord \<Longrightarrow> search_post plans st st ord"
  by (simp add: search_post_def)

lemma search_post_trans:
  "search_post plans st st' ord' \<Longrightarrow> search_post plans st' st'' ord'' \<Longrightarrow>
    search_post plans st st'' ord''"
  by (auto simp: search_post_def)

lemma enter_inv:
  assumes "search_inv plans st ord" and "index < length plans" and "st ! index = 0"
  shows "search_inv plans (st[index := 1]) ord"
    and "marked 1 (st[index := 1]) = insert index (marked 1 st)"
    and "marked 0 (st[index := 1]) = marked 0 st - {index}"
proof -
  note inv = search_invD [OF assms(1)]
  have len: "index < length st" using inv(1) assms(2) by simp
  have "index \<notin> marked 2 st" using assms(3) by (simp add: marked_def)
  then show "search_inv plans (st[index := 1]) ord"
    using inv set_update_subset_insert [of st index 1] len
    by (auto simp: search_inv_def marked_update)
  show "marked 1 (st[index := 1]) = insert index (marked 1 st)"
    and "marked 0 (st[index := 1]) = marked 0 st - {index}"
    using len by (simp_all add: marked_update)
qed

lemma leave_post:
  assumes post: "search_post plans (st[index := 1]) st' ord'"
    and "index < length plans" and "length st = length plans" and "st ! index = 0"
    and deps: "\<And>j. (index, j) \<in> dep_edges plans \<Longrightarrow> j \<in> marked 2 st'"
  shows "search_post plans st (st'[index := 2]) (ord' @ [index])"
    and "index \<in> marked 2 (st'[index := 2])"
proof -
  note post' = post [unfolded search_post_def]
  note inv = search_invD [OF post' [THEN conjunct1]]
  have len: "index < length st'" using inv(1) assms(2) by simp
  have grey: "index \<in> marked 1 st'"
    using post' assms(2,3) by (simp add: marked_update)
  then have not_in: "index \<notin> set ord'"
    using inv(3) by (simp add: marked_def)
  have "dep_first plans (ord' @ [index])"
    using inv(3,5) deps by (auto intro: dep_first_snoc)
  then have "search_inv plans (st'[index := 2]) (ord' @ [index])"
    using inv not_in len set_update_subset_insert [of st' index 2]
    by (auto simp: search_inv_def marked_update)
  moreover have "index \<notin> marked 1 st"
    using assms(4) by (simp add: marked_def)
  ultimately show "search_post plans st (st'[index := 2]) (ord' @ [index])"
    using post' len assms(2,3)
    by (auto simp: search_post_def marked_update)
  show "index \<in> marked 2 (st'[index := 2])"
    using len by (simp add: marked_update)
qed

text \<open>
  The search keeps the invariant, leaves the plan it was called for in the order, never runs
  out of fuel while the fuel exceeds the number of plans not seen, and reports a circular
  dependency only when there is one: the plans on the stack all depend on the current one.
\<close>

definition on_stack :: "pkg_plan list \<Rightarrow> nat list \<Rightarrow> nat \<Rightarrow> bool" where
  "on_stack plans st index \<longleftrightarrow> (\<forall>g \<in> marked 1 st. (g, index) \<in> (dep_edges plans)\<^sup>+)"

definition visit_ok :: "pkg_plan list \<Rightarrow> nat list \<Rightarrow> (nat list \<Rightarrow> bool) \<Rightarrow> visit_result \<Rightarrow> bool" where
  "visit_ok plans st Q r =
     (case r of OutOfFuel \<Rightarrow> False
      | Circular \<Rightarrow> \<not> acyclic (dep_edges plans)
      | Visited st' ord' \<Rightarrow> search_post plans st st' ord' \<and> Q st')"

lemma card_marked_less:
  "index \<in> marked 0 st \<Longrightarrow> card (marked 0 st - {index}) < card (marked 0 st)"
  by (rule card_Diff1_less) simp_all

lemma visit_correct:
  "search_inv plans st ord \<Longrightarrow> index < length plans \<Longrightarrow> on_stack plans st index \<Longrightarrow>
     card (marked 0 st) < fuel \<Longrightarrow>
     visit_ok plans st (\<lambda>st'. index \<in> marked 2 st') (visit_install_plan fuel plans index st ord)"
  and visit_deps_correct:
  "search_inv plans st ord \<Longrightarrow>
     (\<forall>d \<in> set ds. \<forall>j. find_plan_by_dependency plans d = Some j \<longrightarrow> on_stack plans st j) \<Longrightarrow>
     card (marked 0 st) < fuel \<Longrightarrow>
     visit_ok plans st
       (\<lambda>st'. \<forall>d \<in> set ds. \<forall>j. find_plan_by_dependency plans d = Some j \<longrightarrow> j \<in> marked 2 st')
       (visit_deps fuel plans ds st ord)"
proof (induction fuel plans index st ord and fuel plans ds st ord
    rule: visit_install_plan_visit_deps.induct)
  case (1 plans index st ord)
  then show ?case by simp
next
  case (2 fuel plans index st ord)
  note inv = search_invD [OF "2.prems"(1)]
  have len: "index < length st" using inv(1) "2.prems"(2) by simp
  then have marks: "st ! index \<in> {0, 1, 2}"
    using inv(2) nth_mem by blast
  show ?case
  proof (cases "st ! index = 0")
    case False
    show ?thesis
    proof (cases "st ! index = 2")
      case True
      with "2.prems"(1) len show ?thesis
        by (auto simp: visit_ok_def search_post_refl marked_def)
    next
      case grey: False
      with False marks have "index \<in> marked 1 st"
        using len by (auto simp: marked_def)
      with "2.prems"(3) have "(index, index) \<in> (dep_edges plans)\<^sup>+"
        by (simp add: on_stack_def)
      with grey False marks show ?thesis
        by (auto simp: visit_ok_def acyclic_def)
    qed
  next
    case True
    note enter = enter_inv [OF "2.prems"(1,2) True]
    have "card (marked 0 (st[index := 1])) < fuel"
      using card_marked_less [of index st] "2.prems"(4) enter(3) True len
      by (simp add: marked_def)
    moreover have "\<forall>d \<in> set (p_deps (plans ! index)). \<forall>j.
        find_plan_by_dependency plans d = Some j \<longrightarrow> on_stack plans (st[index := 1]) j"
    proof (intro ballI allI impI)
      fix d j
      assume "d \<in> set (p_deps (plans ! index))" "find_plan_by_dependency plans d = Some j"
      then have "(index, j) \<in> dep_edges plans"
        using "2.prems"(2) by (auto simp: dep_edges_def)
      with "2.prems"(3) show "on_stack plans (st[index := 1]) j"
        unfolding on_stack_def enter(2) by (auto intro: trancl_into_trancl)
    qed
    ultimately have IH: "visit_ok plans (st[index := 1])
        (\<lambda>st'. \<forall>d \<in> set (p_deps (plans ! index)). \<forall>j.
           find_plan_by_dependency plans d = Some j \<longrightarrow> j \<in> marked 2 st')
        (visit_deps fuel plans (p_deps (plans ! index)) (st[index := 1]) ord)"
      using "2.IH" True enter(1) by simp
    show ?thesis
    proof (cases "visit_deps fuel plans (p_deps (plans ! index)) (st[index := 1]) ord")
      case (Visited st' ord')
      with IH have post: "search_post plans (st[index := 1]) st' ord'"
        and "\<And>j. (index, j) \<in> dep_edges plans \<Longrightarrow> j \<in> marked 2 st'"
        by (auto simp: visit_ok_def dep_edges_def)
      from leave_post [OF post "2.prems"(2) inv(1) True this(2)] Visited True show ?thesis
        by (simp add: visit_ok_def)
    qed (use IH True in \<open>simp_all add: visit_ok_def\<close>)
  qed
next
  case (3 fuel plans st ord)
  then show ?case by (simp add: visit_ok_def search_post_refl)
next
  case (4 fuel plans d ds st ord)
  show ?case
  proof (cases "find_plan_by_dependency plans d")
    case None
    with 4 show ?thesis by (simp add: visit_ok_def)
  next
    case (Some j)
    with 4 have v: "visit_ok plans st (\<lambda>st'. j \<in> marked 2 st') (visit_install_plan fuel plans j st ord)"
      by (simp add: find_plan_by_dependency_bound)
    show ?thesis
    proof (cases "visit_install_plan fuel plans j st ord")
      case (Visited st' ord')
      with v have post: "search_post plans st st' ord'" and j: "j \<in> marked 2 st'"
        by (auto simp: visit_ok_def)
      have "card (marked 0 st') \<le> card (marked 0 st)"
        using post by (simp add: search_post_def card_mono)
      with 4 post Some Visited have "visit_ok plans st'
          (\<lambda>st'. \<forall>d \<in> set ds. \<forall>j. find_plan_by_dependency plans d = Some j \<longrightarrow> j \<in> marked 2 st')
          (visit_deps fuel plans ds st' ord')"
        by (simp add: search_post_def on_stack_def)
      with Some Visited post j show ?thesis
        by (cases "visit_deps fuel plans ds st' ord'")
           (auto simp: visit_ok_def search_post_def intro: search_post_trans)
    qed (use v Some in \<open>simp_all add: visit_ok_def\<close>)
  qed
qed

lemma visit_all_correct:
  assumes "search_inv plans st ord" and "marked 1 st = {}" and "set is \<subseteq> {..<length plans}"
    and "card (marked 0 st) < fuel"
  shows "visit_ok plans st (\<lambda>st'. set is \<subseteq> marked 2 st') (visit_all fuel plans is st ord)"
  using assms
proof (induction "is" arbitrary: st ord)
  case Nil
  then show ?case by (simp add: visit_ok_def search_post_refl)
next
  case (Cons i "is")
  then have v: "visit_ok plans st (\<lambda>st'. i \<in> marked 2 st') (visit_install_plan fuel plans i st ord)"
    by (intro visit_correct) (auto simp: on_stack_def)
  show ?case
  proof (cases "visit_install_plan fuel plans i st ord")
    case (Visited st' ord')
    with v have post: "search_post plans st st' ord'" and i: "i \<in> marked 2 st'"
      by (auto simp: visit_ok_def)
    have "card (marked 0 st') \<le> card (marked 0 st)"
      using post by (simp add: search_post_def card_mono)
    with Cons post have "visit_ok plans st' (\<lambda>st'. set is \<subseteq> marked 2 st')
        (visit_all fuel plans is st' ord')"
      by (simp add: search_post_def)
    with Visited post i show ?thesis
      by (cases "visit_all fuel plans is st' ord'")
         (auto simp: visit_ok_def search_post_def intro: search_post_trans)
  qed (use v in \<open>simp_all add: visit_ok_def\<close>)
qed

lemma initial_inv:
  "search_inv plans (replicate (length plans) 0) []"
  "marked 1 (replicate (length plans) 0) = {}"
  "card (marked 0 (replicate (length plans) 0)) = length plans"
proof -
  have "marked 0 (replicate (length plans) 0) = {..<length plans}"
    by (auto simp: marked_def)
  then show "card (marked 0 (replicate (length plans) 0)) = length plans"
    by simp
qed (auto simp: search_inv_def marked_def)

lemma build_install_order_ok:
  "visit_ok plans (replicate (length plans) 0) (\<lambda>st'. {..<length plans} \<subseteq> marked 2 st')
     (build_install_order plans)"
  unfolding build_install_order_def
  using visit_all_correct [OF initial_inv(1,2), of "[0..<length plans]" plans "Suc (length plans)"]
  by (simp add: initial_inv atLeast0LessThan [symmetric] lessThan_atLeast0)

lemma build_install_order_Visited:
  assumes "build_install_order plans = Visited st ord"
  shows "distinct ord" "set ord = {..<length plans}" "dep_first plans ord"
proof -
  have "search_inv plans st ord" and all: "{..<length plans} \<subseteq> marked 2 st"
    using build_install_order_ok [of plans] assms by (auto simp: visit_ok_def search_post_def)
  note inv = search_invD [OF this(1)]
  show "distinct ord" "dep_first plans ord"
    using inv by simp_all
  show "set ord = {..<length plans}"
    using inv(1,3) all by (auto simp: marked_def)
qed

lemma dep_first_acyclic:
  assumes "distinct ord" and "set ord = {..<length plans}" and "dep_first plans ord"
  shows "acyclic (dep_edges plans)"
  unfolding acyclic_def
proof (intro allI notI)
  fix i
  assume loop: "(i, i) \<in> (dep_edges plans)\<^sup>+"
  then have "i \<in> set ord"
    using assms(2) by (auto dest: tranclD dep_edges_bound)
  then obtain xs ys where "ord = xs @ i # ys"
    by (meson split_list)
  with dep_first_no_self_path [OF assms(3,1) loop] assms(1) show False
    by auto
qed

lemma install_order_Some:
  assumes "install_order plans = Some ord"
  shows "distinct ord" "set ord = {..<length plans}" "dep_first plans ord"
  using assms build_install_order_Visited [of plans]
  by (auto simp: install_order_def split: visit_result.splits)

text \<open>
  The contract between the search and the phases that follow it: whatever computes the order, the
  phases may rely on every plan being listed once and after the plans it depends on.
\<close>

locale package_order =
  fixes order :: "pkg_plan list \<Rightarrow> nat list option"
  assumes order_distinct: "order plans = Some ord \<Longrightarrow> distinct ord"
    and order_complete: "order plans = Some ord \<Longrightarrow> set ord = {..<length plans}"
    and order_dep_first: "order plans = Some ord \<Longrightarrow> dep_first plans ord"
begin

lemma order_bound: "order plans = Some ord \<Longrightarrow> i \<in> set ord \<Longrightarrow> i < length plans"
  using order_complete by blast

lemma order_before:
  assumes "order plans = Some ord" and "(i, j) \<in> dep_edges plans"
  shows "\<exists>xs ys zs. ord = xs @ j # ys @ i # zs"
proof -
  have "i \<in> set ord"
    using dep_edges_bound [OF assms(2)] order_complete [OF assms(1)] by simp
  then obtain us zs where us: "ord = us @ i # zs"
    by (meson split_list)
  then have "j \<in> set us"
    using order_dep_first [OF assms(1)] assms(2) by (auto simp: dep_first_def)
  then obtain xs ys where "us = xs @ j # ys"
    by (meson split_list)
  with us show ?thesis by auto
qed

lemma order_acyclic: "order plans = Some ord \<Longrightarrow> acyclic (dep_edges plans)"
  using dep_first_acyclic order_distinct order_complete order_dep_first by blast

end

interpretation io: package_order install_order
  by unfold_locales (use install_order_Some in blast)+

section \<open>Properties\<close>

text \<open>
  C1. A successful \<^verbatim>\<open>build_install_order\<close> lists every plan exactly once, and every plan after all
  the plans that one of its dependencies names.
\<close>

theorem build_install_order_topological:
  assumes "build_install_order plans = Visited st ord"
  shows "distinct ord \<and> set ord = {..<length plans} \<and> dep_first plans ord"
  using build_install_order_Visited [OF assms] by simp

definition sample_plan :: "string \<Rightarrow> string list \<Rightarrow> pkg_plan" where
  "sample_plan name deps =
     \<lparr>p_selector = name, p_pkg_name = name, p_archive_path = name @ ''.syspckg'',
      p_install_name = name, p_pkg_id = ''adavalinux'', p_pkg_version = ''1'', p_pkg_ver = ''1'',
      p_extract_dir = [], p_install_dir = [], p_installed_name = [], p_deps = deps,
      p_installed = False, p_extracted = False\<rparr>"

definition sample_plans :: "pkg_plan list" where
  "sample_plans = [sample_plan ''a'' [''b''], sample_plan ''b'' [''c'', ''x''], sample_plan ''c'' []]"

lemma sample_order: "build_install_order sample_plans = Visited [2, 2, 2] [2, 1, 0]"
  by (simp add: build_install_order_def sample_plans_def sample_plan_def
      find_plan_by_dependency_def numeral_eq_Suc upt_rec)

theorem build_install_order_topological_witness:
  "distinct [2, 1, 0 :: nat] \<and> set [2, 1, 0] = {..<length sample_plans}
    \<and> dep_first sample_plans [2, 1, 0]"
  by (rule build_install_order_topological [OF sample_order])

text \<open>
  \<^verbatim>\<open>build_install_order\<close> always ends: it fails, reporting a circular dependency, exactly when
  the dependency graph of the plans has a cycle, and returns an order otherwise.
\<close>

theorem build_install_order_decides:
  "(build_install_order plans = Circular \<longleftrightarrow> \<not> acyclic (dep_edges plans))
   \<and> ((\<exists>st ord. build_install_order plans = Visited st ord) \<longleftrightarrow> acyclic (dep_edges plans))"
proof (cases "build_install_order plans")
  case OutOfFuel
  with build_install_order_ok [of plans] show ?thesis by (simp add: visit_ok_def)
next
  case Circular
  with build_install_order_ok [of plans] show ?thesis by (simp add: visit_ok_def)
next
  case (Visited st ord)
  with dep_first_acyclic [OF build_install_order_Visited [OF Visited]] show ?thesis by simp
qed

text \<open>
  A package that names itself as a dependency can never be installed: the search takes the
  plan it is visiting for a cycle, although queueing the dependencies skips such an entry.
\<close>

theorem self_dependency_is_circular:
  assumes "i < length plans" and "d \<in> set (p_deps (plans ! i))"
    and "find_plan_by_dependency plans d = Some i"
  shows "build_install_order plans = Circular \<and> install_order plans = None"
proof -
  have "(i, i) \<in> dep_edges plans"
    using assms by (auto simp: dep_edges_def)
  then have "\<not> acyclic (dep_edges plans)"
    by (auto simp: acyclic_def)
  with dep_first_acyclic [OF build_install_order_Visited] build_install_order_ok [of plans]
  show ?thesis
    by (cases "build_install_order plans") (auto simp: visit_ok_def install_order_def)
qed

theorem self_dependency_is_circular_witness:
  "build_install_order [sample_plan ''a'' [''a'']] = Circular
   \<and> install_order [sample_plan ''a'' [''a'']] = None"
  by (rule self_dependency_is_circular [of 0 _ "''a''"])
     (simp_all add: sample_plan_def find_plan_by_dependency_def)

end
