(* ===== verification/InstallerHelpers.thy ===== *)
theory InstallerHelpers
  imports PkgNames
begin

text \<open>
  The pure helpers of the installer, \<^verbatim>\<open>tools/installer/helpers.c\<close>, and the enumerations and
  structures of \<^verbatim>\<open>installer.h\<close>. These functions are exported and test their pointers, so a
  pointer argument is a \<^typ>\<open>string option\<close>; a call with \<^verbatim>\<open>out == NULL\<close> is a call with
  \<^verbatim>\<open>out_size == 0\<close>, which every function treats alike.
\<close>

section \<open>Data\<close>

datatype InstallerBootMode = INSTALLER_BOOT_BIOS | INSTALLER_BOOT_UEFI

datatype InstallerAcpiMode = INSTALLER_ACPI_ON | INSTALLER_ACPI_OFF

datatype InstallerAction =
  INSTALLER_ACTION_INSTALL | INSTALLER_ACTION_FORMAT_ONLY | INSTALLER_ACTION_UPDATE

record InstallerDisk =
  d_path :: string
  d_model :: string
  d_mib :: nat

record InstallerConfig =
  c_install_media :: string
  c_disk :: string
  c_action :: InstallerAction
  c_boot_mode :: InstallerBootMode
  c_acpi_mode :: InstallerAcpiMode
  c_part_size :: string
  c_username :: string
  c_password :: string
  c_root_password :: string
  c_hostname :: string

section \<open>Validation\<close>

definition username_char :: "char \<Rightarrow> bool" where
  "username_char c \<longleftrightarrow> islower c \<or> isdigit c \<or> c = CHR ''_'' \<or> c = CHR ''-''"

definition installer_valid_username :: "string option \<Rightarrow> bool" where
  "installer_valid_username name =
     (case name of None \<Rightarrow> False
      | Some n \<Rightarrow> if n = [] \<or> n = ''root'' then False else list_all username_char n)"

text \<open>
  The \<^verbatim>\<open>%u\<close> directive of \<^verbatim>\<open>sscanf\<close> skips white space and accepts a sign in front of the
  digits; \<open>scan_u s\<close> is the rest of the input after it.
\<close>

definition scan_u :: "string \<Rightarrow> string option" where
  "scan_u s =
     (let t = dropWhile isspace s;
          u = (if t \<noteq> [] \<and> (hd t = CHR ''-'' \<or> hd t = CHR ''+'') then tl t else t)
      in if u \<noteq> [] \<and> isdigit (hd u) then Some (dropWhile isdigit u) else None)"

text \<open>
  The first \<^verbatim>\<open>sscanf\<close> of the \<^verbatim>\<open>nvme\<close> branch returns 0 whenever the second one returns 2, and
  nothing after the branch accepts a name with this prefix, so only the second one is stated.
  A trailing \<^verbatim>\<open>%c\<close> that does not match means that the input is used up.
\<close>

definition installer_supported_disk :: "string option \<Rightarrow> bool" where
  "installer_supported_disk path =
     (case path of None \<Rightarrow> False
      | Some p \<Rightarrow>
          if \<not> prefix ''/dev/'' p then False
          else let name = drop 5 p; len = length name in
            if len = 3 \<and> prefix ''sd'' name \<and> islower (name ! 2) then True
            else if len = 3 \<and> prefix ''vd'' name \<and> islower (name ! 2) then True
            else if len = 4 \<and> prefix ''xvd'' name \<and> islower (name ! 3) then True
            else if prefix ''nvme'' name then
              (case scan_u (drop 4 name) of None \<Rightarrow> False
               | Some r \<Rightarrow> r \<noteq> [] \<and> hd r = CHR ''n'' \<and> scan_u (tl r) = Some [])
            else if prefix ''mmcblk'' name then scan_u (drop 6 name) = Some []
            else False)"

definition installer_supported_install_media :: "string option \<Rightarrow> bool" where
  "installer_supported_install_media path =
     (if installer_supported_disk path then True
      else case path of None \<Rightarrow> False
      | Some p \<Rightarrow>
          if \<not> prefix ''/dev/'' p then False
          else let name = drop 5 p; len = length name in
            if len \<ge> 3 \<and> len \<le> 4 \<and> prefix ''sr'' name then scan_u (drop 2 name) = Some []
            else False)"

definition installer_partition_belongs_to_disk :: "string option \<Rightarrow> string option \<Rightarrow> bool" where
  "installer_partition_belongs_to_disk disk part =
     (if \<not> installer_supported_disk disk then False
      else case (disk, part) of
        (Some d, Some p) \<Rightarrow>
          if \<not> prefix ''/dev/'' p then False
          else let disk_name = drop 5 d; part_name = drop 5 p in
            if \<not> prefix disk_name part_name then False
            else let suf = drop (length disk_name) part_name in
              if prefix ''nvme'' disk_name \<or> prefix ''mmcblk'' disk_name
              then (if suf = [] \<or> hd suf \<noteq> CHR ''p'' then False
                    else tl suf \<noteq> [] \<and> list_all isdigit (tl suf))
              else suf \<noteq> [] \<and> list_all isdigit suf
      | _ \<Rightarrow> False)"

definition installer_target_disk_available :: "string option \<Rightarrow> string option \<Rightarrow> bool" where
  "installer_target_disk_available disk install_media =
     (if \<not> installer_supported_disk disk then False
      else case install_media of None \<Rightarrow> True
      | Some m \<Rightarrow> \<not> (m \<noteq> [] \<and> disk = Some m))"

definition installer_confirmation_phrase_matches :: "string option \<Rightarrow> string option \<Rightarrow> bool" where
  "installer_confirmation_phrase_matches disk typed =
     (case (disk, typed) of
        (Some d, Some t) \<Rightarrow>
          if d = [] then False
          else (case fits 96 (''ERASE '' @ d) of None \<Rightarrow> False | Some expected \<Rightarrow> t = expected)
      | _ \<Rightarrow> False)"

fun uuid_loop :: "string \<Rightarrow> bool \<Rightarrow> bool" where
  "uuid_loop [] has_hex = has_hex"
| "uuid_loop (c # s) has_hex =
     (if isspace c then False
      else if isxdigit c then uuid_loop s True
      else if c = CHR ''-'' then uuid_loop s has_hex
      else False)"

definition installer_valid_uuid_value :: "string option \<Rightarrow> bool" where
  "installer_valid_uuid_value value =
     (case value of None \<Rightarrow> False
      | Some v \<Rightarrow>
          if v = [] then False
          else if strstr v ''/dev/'' \<noteq> None then False
          else uuid_loop v False)"

section \<open>Device names and the partitioning script\<close>

definition installer_partition_path :: "string option \<Rightarrow> int \<Rightarrow> nat \<Rightarrow> string option" where
  "installer_partition_path disk part_no out_size =
     (case disk of None \<Rightarrow> None
      | Some d \<Rightarrow>
          if out_size = 0 \<or> part_no \<le> 0 then None
          else if strstr d ''/dev/nvme'' = Some 0 \<or> strstr d ''/dev/mmcblk'' = Some 0
          then fits out_size (d @ ''p'' @ dec (nat part_no))
          else fits out_size (d @ dec (nat part_no)))"

definition installer_build_root_arg :: "string option \<Rightarrow> nat \<Rightarrow> string option" where
  "installer_build_root_arg root_dev out_size =
     (case root_dev of None \<Rightarrow> None
      | Some d \<Rightarrow>
          if out_size = 0 \<or> \<not> prefix ''/dev/'' d then None
          else fits out_size (''root='' @ d))"

definition quoted :: "string \<Rightarrow> string" where
  "quoted s = [SQ] @ s @ [SQ]"

definition last_sector :: "string \<Rightarrow> string" where
  "last_sector disk = [DQ] @ ''$(( $(blockdev --getsz '' @ quoted disk @ '') - 1 ))'' @ [DQ]"

definition installer_build_fdisk_script ::
  "InstallerBootMode \<Rightarrow> string option \<Rightarrow> string option \<Rightarrow> nat \<Rightarrow> string option" where
  "installer_build_fdisk_script boot_mode part_size disk out_size =
     (let size = (if part_size \<noteq> None \<and> part_size \<noteq> Some [] then part_size else None) in
      if out_size = 0 then None
      else case size of
        None \<Rightarrow>
          (case disk of None \<Rightarrow> None
           | Some d \<Rightarrow>
               if d = [] then None
               else if boot_mode = INSTALLER_BOOT_UEFI then
                 fits out_size
                   (''{ echo o; echo n; echo p; echo 1; echo 2048; echo +512M; '' @
                    ''echo n; echo p; echo 2; echo 1050624; echo '' @ last_sector d @ ''; '' @
                    ''echo t; echo 1; echo ef; echo a; echo 1; echo w; }'')
               else
                 fits out_size
                   (''{ echo o; echo n; echo p; echo 1; echo 2048; echo '' @ last_sector d @ ''; '' @
                    ''echo a; echo 1; echo w; }''))
      | Some s \<Rightarrow>
          if boot_mode = INSTALLER_BOOT_UEFI then
            fits out_size
              (''{ echo o; echo n; echo p; echo 1; echo 2048; echo +512M; '' @
               ''echo n; echo p; echo 2; echo 1050624; echo '' @ quoted s @ ''; '' @
               ''echo t; echo 1; echo ef; echo a; echo 1; echo w; }'')
          else
            fits out_size
              (''{ echo o; echo n; echo p; echo 1; echo 2048; echo '' @ quoted s @ ''; '' @
               ''echo a; echo 1; echo w; }''))"

section \<open>Progress display\<close>

definition installer_should_redraw_progress_log :: "int \<Rightarrow> int \<Rightarrow> int \<Rightarrow> bool" where
  "installer_should_redraw_progress_log now_ms last_draw_ms min_interval_ms =
     (if last_draw_ms \<le> 0 \<or> now_ms < last_draw_ms then True
      else now_ms - last_draw_ms \<ge> min_interval_ms)"

definition installer_next_wrapped_log_segment ::
  "string option \<Rightarrow> nat \<Rightarrow> nat \<Rightarrow> nat \<Rightarrow> (string \<times> nat) option" where
  "installer_next_wrapped_log_segment line start width out_size =
     (case line of None \<Rightarrow> None
      | Some l \<Rightarrow>
          if out_size = 0 \<or> width = 0 then None
          else let len = length l in
            if start > len then None
            else
              let tk = len - start;
                  tk = (if tk > width then width else tk);
                  tk = (if tk \<ge> out_size then out_size - 1 else tk)
              in Some (take tk (drop start l), start + tk))"

text \<open>
  The loop of the bar stops at the width or when one byte is left for the terminator. The
  result is \<^const>\<open>None\<close> when the buffer is not touched.
\<close>

function bar_loop :: "int \<Rightarrow> int \<Rightarrow> int \<Rightarrow> nat \<Rightarrow> string \<Rightarrow> string" where
  "bar_loop i width filled out_size out =
     (if i < width \<and> length out + 1 < out_size
      then bar_loop (i + 1) width filled out_size
             (out @ [if i < filled then CHR ''#'' else CHR '' ''])
      else out)"
  by pat_completeness auto
termination
  by (relation "measure (\<lambda>(i, width, _). nat (width - i))") auto

declare bar_loop.simps [simp del]

definition push_char :: "nat \<Rightarrow> char \<Rightarrow> string \<Rightarrow> string" where
  "push_char out_size c out = (if length out + 1 < out_size then out @ [c] else out)"

definition installer_format_progress_bar :: "int \<Rightarrow> int \<Rightarrow> nat \<Rightarrow> string option" where
  "installer_format_progress_bar percent0 width0 out_size =
     (if out_size = 0 then None
      else
        let percent = (if percent0 < 0 then 0 else percent0);
            percent = (if percent > 100 then 100 else percent);
            width = (if width0 < 0 then 0 else width0);
            filled = (percent * width + 50) div 100;
            out = push_char out_size (CHR ''['') [];
            out = bar_loop 0 width filled out_size out;
            out = push_char out_size (CHR '']'') out
        in Some (out @ trunc (out_size - length out) ('' '' @ dec (nat percent) @ ''%'')))"

section \<open>Command lines\<close>

definition installer_build_syspckg_install_argv :: "string \<Rightarrow> string list" where
  "installer_build_syspckg_install_argv selector =
     [''syspckg'', ''install'', selector, ''--source'', ''fedora'', ''-y'']"

definition installer_build_syspckg_root_install_argv :: "string \<Rightarrow> string \<Rightarrow> string list" where
  "installer_build_syspckg_root_install_argv selector root =
     [''chroot'', root, ''/usr/bin/syspckg'', ''install'', selector, ''--source'', ''fedora'', ''-y'']"

text \<open>
  The builders of shell commands share their tests: a missing or empty root fails, and so
  does a command that does not fit. The format is filled with \<open>k\<close> copies of the root.
\<close>

definition root_command :: "string \<Rightarrow> nat \<Rightarrow> string option \<Rightarrow> nat \<Rightarrow> string option" where
  "root_command f k root out_size =
     (case root of None \<Rightarrow> None
      | Some r \<Rightarrow>
          if r = [] \<or> out_size = 0 then None else fits out_size (sprintf_s f (replicate k r)))"

definition installer_build_grub_mkconfig_command :: "string option \<Rightarrow> nat \<Rightarrow> string option" where
  "installer_build_grub_mkconfig_command =
     root_command ''chroot %s /usr/bin/grub2-mkconfig -o /boot/grub2/grub.cfg'' 1"

definition installer_build_default_grub_config ::
  "string option \<Rightarrow> InstallerAcpiMode \<Rightarrow> nat \<Rightarrow> string option" where
  "installer_build_default_grub_config root_arg acpi_mode out_size =
     (case root_arg of None \<Rightarrow> None
      | Some r \<Rightarrow>
          if r = [] \<or> out_size = 0 then None
          else let extra = (if acpi_mode = INSTALLER_ACPI_OFF
                            then '' acpi=off noapic nolapic irqpoll pci=nomsi'' else []) in
            fits out_size
              (''GRUB_TIMEOUT=10'' @ [LF] @
               ''GRUB_TIMEOUT_STYLE=menu'' @ [LF] @
               ''GRUB_DEFAULT=0'' @ [LF] @
               ''GRUB_TERMINAL_INPUT=console'' @ [LF] @
               ''GRUB_TERMINAL_OUTPUT=gfxterm'' @ [LF] @
               ''GRUB_GFXMODE=1024x768x32,1024x768,800x600,auto'' @ [LF] @
               ''GRUB_GFXPAYLOAD_LINUX=keep'' @ [LF] @
               ''GRUB_CMDLINE_LINUX='' @ [DQ] @ r @
               '' rootfstype=ext4 rootwait rootdelay=5 rw console=ttyS0 console=tty1 libata.force=noncq'' @
               extra @ [DQ] @ [LF] @
               ''GRUB_CMDLINE_LINUX_DEFAULT='' @ [DQ] @ ''quiet'' @ [DQ] @ [LF]))"

definition installer_build_copy_grub_mkconfig_command :: "string option \<Rightarrow> nat \<Rightarrow> string option" where
  "installer_build_copy_grub_mkconfig_command =
     root_command ''test -x %s/usr/bin/grub2-mkconfig'' 1"

definition installer_build_grub_compat_config_command :: "string option \<Rightarrow> nat \<Rightarrow> string option" where
  "installer_build_grub_compat_config_command =
     root_command
       (''mkdir -p %s/boot/grub2 %s/boot/grub && '' @
        ''test -s %s/boot/grub2/grub.cfg && '' @
        ''cp -f %s/boot/grub2/grub.cfg %s/boot/grub/grub.cfg && '' @
        ''test -s %s/boot/grub/grub.cfg'') 6"

definition installer_build_prepare_grub_chroot_command :: "string option \<Rightarrow> nat \<Rightarrow> string option" where
  "installer_build_prepare_grub_chroot_command =
     root_command
       (''mkdir -p %s/dev %s/proc %s/sys && mount --bind /dev %s/dev && '' @
        ''mount -t proc proc %s/proc && mount -t sysfs sysfs %s/sys'') 6"

definition installer_build_disable_standard_grub_generators_command ::
  "string option \<Rightarrow> nat \<Rightarrow> string option" where
  "installer_build_disable_standard_grub_generators_command =
     root_command
       (''chmod a-x %s/usr/etc/grub.d/10_linux %s/usr/etc/grub.d/20_linux_xen %s/usr/etc/grub.d/25_bli '' @
        ''%s/usr/etc/grub.d/30_os-prober %s/usr/etc/grub.d/30_uefi-firmware %s/usr/etc/grub.d/40_custom '' @
        ''%s/usr/etc/grub.d/41_custom 2>/dev/null || true; '' @
        ''chmod a-x %s/etc/grub.d/10_linux %s/etc/grub.d/20_linux_xen %s/etc/grub.d/25_bli '' @
        ''%s/etc/grub.d/30_os-prober %s/etc/grub.d/30_uefi-firmware %s/etc/grub.d/40_custom '' @
        ''%s/etc/grub.d/41_custom 2>/dev/null || true; '' @
        ''chmod a+x %s/usr/etc/grub.d/00_header %s/usr/etc/grub.d/10_adavalinux '' @
        ''%s/etc/grub.d/00_header %s/etc/grub.d/10_adavalinux 2>/dev/null || true'') 18"

definition installer_build_uefi_removable_fallback_command ::
  "string option \<Rightarrow> nat \<Rightarrow> string option" where
  "installer_build_uefi_removable_fallback_command =
     root_command
       (''mkdir -p %s/boot/efi/EFI/BOOT && '' @
        ''if [ ! -f %s/boot/efi/EFI/BOOT/BOOTX64.EFI ]; then '' @
        ''if [ -f %s/boot/efi/EFI/AdavaLinux/grubx64.efi ]; then '' @
        ''cp -f %s/boot/efi/EFI/AdavaLinux/grubx64.efi %s/boot/efi/EFI/BOOT/BOOTX64.EFI; '' @
        ''else efi_file='' @ [DQ] @ ''$(find %s/boot/efi/EFI -type f -name '' @ quoted ''*.efi'' @
        '' | head -n 1)'' @ [DQ] @ ''; '' @
        ''[ -n '' @ [DQ] @ ''$efi_file'' @ [DQ] @ '' ] && cp -f '' @ [DQ] @ ''$efi_file'' @ [DQ] @
        '' %s/boot/efi/EFI/BOOT/BOOTX64.EFI; fi; fi; '' @
        ''test -f %s/boot/efi/EFI/BOOT/BOOTX64.EFI'') 8"

definition installer_build_shutdown_links_command :: "string option \<Rightarrow> nat \<Rightarrow> string option" where
  "installer_build_shutdown_links_command =
     root_command
       (''mkdir -p %s/bin %s/sbin && '' @
        ''ln -sf busybox %s/bin/reboot && '' @
        ''ln -sf busybox %s/bin/poweroff && '' @
        ''ln -sf busybox %s/bin/halt && '' @
        ''ln -sf ../bin/busybox %s/sbin/reboot && '' @
        ''ln -sf ../bin/busybox %s/sbin/poweroff && '' @
        ''ln -sf ../bin/busybox %s/sbin/halt'') 8"

definition installer_build_syspckg_state_cleanup_command :: "string option \<Rightarrow> nat \<Rightarrow> string option" where
  "installer_build_syspckg_state_cleanup_command =
     root_command
       (''rm -f %s/install.sh %s/root/install.sh %s/usr/bin/installer %s/bin/installer && '' @
        ''rm -rf %s/usr/share/syspckg-old/packages %s/var/cache/syspckg-old '' @
        ''%s/var/lib/syspckg-old/packages %s/var/lib/syspckg-old/installed'') 8"

section \<open>The failure summary\<close>

text \<open>
  The loop keeps the last five lines of the log that are neither empty nor the title; the log
  is the content of the file, or \<^const>\<open>None\<close> when it cannot be opened. A line that is kept
  fits in its slot, which is as large as the line buffer.
\<close>

abbreviation MAX_LINES :: nat where "MAX_LINES \<equiv> 5"
abbreviation LINE_LEN :: nat where "LINE_LEN \<equiv> 160"

fun summary_collect :: "string list \<Rightarrow> string list \<Rightarrow> string list" where
  "summary_collect [] lines = lines"
| "summary_collect (raw # rest) lines =
     (let line = chomp raw in
      if line = [] \<or> line = ''AdavaLinux installer log'' then summary_collect rest lines
      else if length lines < MAX_LINES then summary_collect rest (lines @ [trunc LINE_LEN line])
      else summary_collect rest (tl lines @ [trunc LINE_LEN line]))"

definition summary_header :: string where
  "summary_header =
     ''The installer stopped because a command failed.'' @ [LF, LF] @ ''Last log lines:''"

definition summary_footer :: string where
  "summary_footer = [LF, LF] @ ''Full log: /tmp/adavalinux-installer.log''"

text \<open>\<open>append_at n out t\<close> is \<^verbatim>\<open>snprintf(out + pos, n - pos, ...)\<close> with \<^verbatim>\<open>pos\<close> the length of \<open>out\<close>.\<close>

definition append_at :: "nat \<Rightarrow> string \<Rightarrow> string \<Rightarrow> string" where
  "append_at n out t = out @ trunc (n - length out) t"

fun summary_loop :: "nat \<Rightarrow> string \<Rightarrow> string list \<Rightarrow> string" where
  "summary_loop n out [] = append_at n out summary_footer"
| "summary_loop n out (l # ls) =
     (if length out + 1 < n
      then if length out + length (LF # l) \<ge> n then append_at n out (LF # l)
           else summary_loop n (out @ LF # l) ls
      else append_at n out summary_footer)"

definition installer_format_failure_summary :: "string option \<Rightarrow> nat \<Rightarrow> string option" where
  "installer_format_failure_summary log out_size =
     (if out_size = 0 then None
      else
        let lines = (case log of None \<Rightarrow> []
                     | Some content \<Rightarrow> summary_collect (fgets_lines (LINE_LEN - 1) content) []) in
        if length summary_header \<ge> out_size then Some (trunc out_size summary_header)
        else if lines = [] then
          Some (append_at out_size summary_header
            ([LF] @ ''No log output was captured.'' @ [LF, LF]
              @ ''Log: /tmp/adavalinux-installer.log''))
        else Some (summary_loop out_size summary_header lines))"

section \<open>Lemmas\<close>

lemma strstr_0: "strstr s p = Some 0 \<longleftrightarrow> prefix p s"
  by (cases s) auto

lemma prefix_dev: "prefix ''/dev/'' d \<Longrightarrow> d = ''/dev/'' @ drop 5 d"
  by (auto simp: prefix_def)

lemma supported_disk_dev: "installer_supported_disk (Some d) \<Longrightarrow> prefix ''/dev/'' d"
  by (auto simp: installer_supported_disk_def split: if_splits)

lemma scan_u_split:
  assumes "scan_u s = Some r"
  shows "\<exists>p. s = p @ r \<and> (\<forall>c \<in> set p. isspace c \<or> c = CHR ''-'' \<or> c = CHR ''+'' \<or> isdigit c)"
proof -
  define t where "t = dropWhile isspace s"
  define u where "u = (if t \<noteq> [] \<and> (hd t = CHR ''-'' \<or> hd t = CHR ''+'') then tl t else t)"
  define sg where "sg = (if t \<noteq> [] \<and> (hd t = CHR ''-'' \<or> hd t = CHR ''+'') then [hd t] else [])"
  have "s = takeWhile isspace s @ t" "t = sg @ u"
    by (auto simp: t_def u_def sg_def)
  moreover have "r = dropWhile isdigit u"
    using assms by (auto simp: scan_u_def Let_def t_def [symmetric] u_def [symmetric] split: if_splits)
  ultimately have "s = (takeWhile isspace s @ sg @ takeWhile isdigit u) @ r"
    by (metis append.assoc takeWhile_dropWhile_id)
  moreover have "\<forall>c \<in> set (takeWhile isspace s @ sg @ takeWhile isdigit u).
      isspace c \<or> c = CHR ''-'' \<or> c = CHR ''+'' \<or> isdigit c"
    by (auto simp: sg_def dest: set_takeWhileD)
  ultimately show ?thesis by blast
qed

text \<open>The characters that can occur in the path of a supported disk.\<close>

definition disk_char :: "char \<Rightarrow> bool" where
  "disk_char c \<longleftrightarrow> islower c \<or> isdigit c \<or> isspace c \<or> c = CHR ''/'' \<or> c = CHR ''-'' \<or> c = CHR ''+''"

lemma disk_char_simps:
  "islower c \<Longrightarrow> disk_char c" "isdigit c \<Longrightarrow> disk_char c" "isspace c \<Longrightarrow> disk_char c"
  "disk_char (CHR ''/'')" "disk_char (CHR ''-'')" "disk_char (CHR ''+'')"
  by (auto simp: disk_char_def)

lemma scan_u_disk_char:
  assumes "scan_u s = Some r" and "\<forall>c \<in> set r. disk_char c"
  shows "\<forall>c \<in> set s. disk_char c"
  using scan_u_split [OF assms(1)] assms(2) by (auto simp: disk_char_def)

lemma short_name_disk_char:
  assumes "prefix p name" and "length name = Suc (length p)" and "islower (name ! length p)"
    and "list_all islower p" and "c \<in> set name"
  shows "disk_char c"
proof -
  obtain r where "name = p @ r" "length r = 1"
    using assms(1,2) by (auto simp: prefix_def)
  then obtain x where "name = p @ [x]"
    by (cases r) auto
  with assms show ?thesis
    by (auto simp: disk_char_def list_all_iff)
qed

lemma lower_prefixes:
  "list_all islower ''sd''" "list_all islower ''vd''" "list_all islower ''xvd''"
  "list_all islower ''nvme''" "list_all islower ''mmcblk''" "islower (CHR ''n'')"
  "list_all disk_char ''/dev/''"
  by (simp_all add: islower_def less_eq_char_def disk_char_def)

lemma drop_disk_char:
  assumes "prefix p name" and "list_all islower p" and "\<forall>c \<in> set (drop (length p) name). disk_char c"
  shows "\<forall>c \<in> set name. disk_char c"
  using assms by (auto simp: prefix_def list_all_iff disk_char_simps)

lemma nvme_disk_char:
  assumes "prefix ''nvme'' name" and "scan_u (drop 4 name) = Some r" and "r \<noteq> []"
    and "hd r = CHR ''n''" and "scan_u (tl r) = Some []"
  shows "\<forall>c \<in> set name. disk_char c"
proof -
  have "\<forall>c \<in> set (tl r). disk_char c"
    using scan_u_disk_char [OF assms(5)] by simp
  moreover have "disk_char (hd r)"
    using lower_prefixes(6) by (simp only: assms(4) disk_char_simps(1))
  ultimately have "\<forall>c \<in> set r. disk_char c"
    by (metis list.exhaust_sel assms(3) set_ConsD)
  with scan_u_disk_char [OF assms(2)] have "\<forall>c \<in> set (drop (length ''nvme'') name). disk_char c"
    by (simp add: eval_nat_numeral)
  then show ?thesis
    by (rule drop_disk_char [OF assms(1) lower_prefixes(4)])
qed

lemma supported_disk_chars:
  assumes "installer_supported_disk (Some d)" and "c \<in> set d"
  shows "disk_char c"
proof -
  define name where "name = drop 5 d"
  have d: "d = ''/dev/'' @ name"
    using prefix_dev [OF supported_disk_dev [OF assms(1)]] by (simp add: name_def)
  have "\<forall>c \<in> set name. disk_char c"
  proof -
    consider
      (sd) "length name = 3" "prefix ''sd'' name \<or> prefix ''vd'' name" "islower (name ! 2)"
    | (xvd) "length name = 4" "prefix ''xvd'' name" "islower (name ! 3)"
    | (nvme) r where "prefix ''nvme'' name" "scan_u (drop 4 name) = Some r" "r \<noteq> []"
        "hd r = CHR ''n''" "scan_u (tl r) = Some []"
    | (mmcblk) "prefix ''mmcblk'' name" "scan_u (drop 6 name) = Some []"
      using assms(1) unfolding installer_supported_disk_def
      by (auto simp: name_def [symmetric] Let_def split: if_splits option.splits)
    then show ?thesis
    proof cases
      case sd
      then show ?thesis
        using short_name_disk_char [of "''sd''" name] short_name_disk_char [of "''vd''" name]
        by (auto simp: islower_def less_eq_char_def numeral_eq_Suc)
    next
      case xvd
      then show ?thesis
        using short_name_disk_char [of "''xvd''" name]
        by (auto simp: islower_def less_eq_char_def numeral_eq_Suc)
    next
      case nvme
      then show ?thesis by (rule nvme_disk_char)
    next
      case mmcblk
      then show ?thesis
        by (intro drop_disk_char [OF mmcblk(1) lower_prefixes(5)])
           (use scan_u_disk_char [OF mmcblk(2)] in \<open>simp add: eval_nat_numeral\<close>)
    qed
  qed
  with assms(2) d show ?thesis
    using lower_prefixes(7) by (auto simp: list_all_iff)
qed

lemma disk_char_not_quote: "disk_char c \<Longrightarrow> c \<noteq> SQ \<and> c \<noteq> DQ \<and> c \<noteq> CHR ''$'' \<and> c \<noteq> CHR 0x60 \<and> c \<noteq> CHR 0x5C"
  by (auto simp: disk_char_def ctype_defs less_eq_char_def)

text \<open>The progress bar.\<close>

lemma bar_loop_full:
  assumes "0 \<le> i" and "i \<le> width" and "length out + nat (width - i) + 1 \<le> out_size"
  shows "bar_loop i width filled out_size out =
    out @ map (\<lambda>k. if k < filled then CHR ''#'' else CHR '' '') [i..width - 1]"
  using assms
proof (induction i width filled out_size out rule: bar_loop.induct)
  case (1 i width filled out_size out)
  show ?case
  proof (cases "i < width")
    case True
    with 1 show ?thesis
      by (subst bar_loop.simps, subst upto.simps) auto
  next
    case False
    with 1 show ?thesis
      by (subst bar_loop.simps, subst upto.simps) auto
  qed
qed

lemma bar_loop_length:
  "length out < n \<Longrightarrow> length (bar_loop i width filled n out) < n"
proof (induction i width filled n out rule: bar_loop.induct)
  case (1 i width filled n out)
  then show ?case by (subst bar_loop.simps) auto
qed

lemma push_char_length: "length out < n \<Longrightarrow> length (push_char n c out) < n"
  by (simp add: push_char_def)

lemma map_upto_threshold:
  assumes "0 \<le> a" and "a \<le> (w :: int)"
  shows "map (\<lambda>k. if k < a then x else y) [0..w - 1] = replicate (nat a) x @ replicate (nat (w - a)) y"
proof (rule nth_equalityI)
  show "length (map (\<lambda>k. if k < a then x else y) [0..w - 1])
      = length (replicate (nat a) x @ replicate (nat (w - a)) y)"
    using assms by simp
  fix i
  assume "i < length (map (\<lambda>k. if k < a then x else y) [0..w - 1])"
  then show "map (\<lambda>k. if k < a then x else y) [0..w - 1] ! i
      = (replicate (nat a) x @ replicate (nat (w - a)) y) ! i"
    using assms by (auto simp: nth_append)
qed

lemma dec_percent: "0 \<le> p \<Longrightarrow> p \<le> 100 \<Longrightarrow> length (dec (nat p)) \<le> 3"
  by (rule dec_length) auto

text \<open>The failure summary.\<close>

lemma append_at_trunc:
  "length out < n \<Longrightarrow> append_at n out t = trunc n (out @ t)"
  by (simp add: append_at_def trunc_def)

lemma trunc_append_full: "n \<le> length s + 1 \<Longrightarrow> trunc n (s @ t) = trunc n s"
  by (simp add: trunc_def)

lemma summary_loop_trunc:
  "length out < n \<Longrightarrow>
    summary_loop n out ls = trunc n (out @ concat (map (\<lambda>l. LF # l) ls) @ summary_footer)"
proof (induction ls arbitrary: out)
  case Nil
  then show ?case by (simp add: append_at_trunc)
next
  case (Cons l ls)
  consider "n = length out + 1" | "length out + 1 < n" "length out + length (LF # l) \<ge> n"
    | "length out + length (LF # l) < n"
    using Cons.prems by fastforce
  then show ?case
  proof cases
    case 1
    then show ?thesis by (simp add: append_at_trunc trunc_append_full)
  next
    case 2
    then show ?thesis
      using trunc_append_full [of n "out @ LF # l"] by (simp add: append_at_trunc)
  next
    case 3
    then show ?thesis using Cons.IH [of "out @ LF # l"] by simp
  qed
qed

definition log_lines :: "string \<Rightarrow> string list" where
  "log_lines content =
     filter (\<lambda>l. l \<noteq> [] \<and> l \<noteq> ''AdavaLinux installer log'')
       (map chomp (fgets_lines (LINE_LEN - 1) content))"

definition last_n :: "nat \<Rightarrow> 'a list \<Rightarrow> 'a list" where
  "last_n n xs = drop (length xs - n) xs"

lemma last_n_snoc:
  "0 < n \<Longrightarrow> last_n n (last_n n xs @ ys) = last_n n (xs @ ys)"
  by (cases "length xs \<le> n") (simp_all add: last_n_def add.commute)

lemma length_chomp: "length (chomp s) \<le> length s"
  by (simp add: chomp_def before_any_def length_takeWhile_le)

lemma summary_collect_last:
  assumes "\<forall>l \<in> set raws. length l < LINE_LEN" and "length lines \<le> MAX_LINES"
  shows "summary_collect raws lines = last_n MAX_LINES
    (lines @ filter (\<lambda>l. l \<noteq> [] \<and> l \<noteq> ''AdavaLinux installer log'') (map chomp raws))"
  using assms
proof (induction raws arbitrary: lines)
  case Nil
  then show ?case by (simp add: last_n_def)
next
  case (Cons raw raws)
  have short: "trunc LINE_LEN (chomp raw) = chomp raw"
    using Cons.prems(1) length_chomp [of raw] by (intro trunc_short) auto
  show ?case
  proof (cases "length lines < MAX_LINES")
    case True
    with Cons short show ?thesis by (simp add: Let_def)
  next
    case False
    with Cons.prems have "length lines = MAX_LINES" by simp
    then have shift: "tl lines @ [x] = last_n MAX_LINES (lines @ [x])" for x
      by (cases lines) (simp_all add: last_n_def)
    have "length (last_n MAX_LINES (lines @ [chomp raw])) \<le> MAX_LINES"
      by (simp add: last_n_def)
    from Cons.IH [OF _ this] Cons.prems False short show ?thesis
      using Cons.IH [of lines] by (simp add: Let_def shift last_n_snoc)
  qed
qed

lemma partition_path_Some:
  assumes "installer_partition_path (Some d) n sz = Some p"
  shows "0 < n \<and> length p < sz \<and>
    p = d @ (if prefix ''/dev/nvme'' d \<or> prefix ''/dev/mmcblk'' d then ''p'' else []) @ dec (nat n)"
  using assms by (auto simp: installer_partition_path_def strstr_0 split: if_splits)

lemma dev_prefixes:
  "prefix ''/dev/nvme'' (''/dev/'' @ n) \<longleftrightarrow> prefix ''nvme'' n"
  "prefix ''/dev/mmcblk'' (''/dev/'' @ n) \<longleftrightarrow> prefix ''mmcblk'' n"
  by simp_all

section \<open>Properties\<close>

text \<open>
  The path that \<^verbatim>\<open>installer_partition_path\<close> builds for a partition of a supported disk is one
  that \<^verbatim>\<open>installer_partition_belongs_to_disk\<close> recognises as a partition of that disk, for both
  naming schemes.
\<close>

theorem partition_path_belongs_to_disk:
  assumes "installer_supported_disk (Some disk)"
    and "installer_partition_path (Some disk) part_no out_size = Some p"
  shows "installer_partition_belongs_to_disk (Some disk) (Some p)"
proof -
  obtain name where disk: "disk = ''/dev/'' @ name"
    using prefix_dev [OF supported_disk_dev [OF assms(1)]] by blast
  have drop5: "drop 5 (''/dev/'' @ xs) = xs" for xs :: string
    by simp
  have p: "p = ''/dev/'' @ name @
      (if prefix ''nvme'' name \<or> prefix ''mmcblk'' name then ''p'' else []) @ dec (nat part_no)"
    using partition_path_Some [OF assms(2)] unfolding disk dev_prefixes by simp
  show ?thesis
    using assms(1) dec_digits [of "nat part_no"]
    unfolding installer_partition_belongs_to_disk_def disk p Let_def prod.case option.case drop5
    by (auto simp: prefix_def)
qed

theorem partition_path_belongs_to_disk_witness:
  "installer_partition_belongs_to_disk (Some ''/dev/nvme0n1'') (Some ''/dev/nvme0n1p2'')"
  by (rule partition_path_belongs_to_disk [of _ 2 64]) code_simp+

text \<open>
  The path of a supported disk holds no quote, dollar sign, back quote or backslash, so the
  partitioning script that is built from it keeps the quoting it was written with.
\<close>

theorem supported_disk_quotable:
  assumes "installer_supported_disk (Some disk)"
  shows "set disk \<inter> {SQ, DQ, CHR ''$'', CHR 0x60, CHR 0x5C} = {}"
  using disk_char_not_quote [OF supported_disk_chars [OF assms]] by blast

theorem supported_disk_quotable_witness:
  "set ''/dev/sda'' \<inter> {SQ, DQ, CHR ''$'', CHR 0x60, CHR 0x5C} = {}"
  by (rule supported_disk_quotable)
     (simp add: installer_supported_disk_def ctype_defs less_eq_char_def)

text \<open>
  An accepted user name is not empty, is not \<^verbatim>\<open>root\<close> and holds no colon, slash or newline, so
  it stays inside its field of a record of \<^verbatim>\<open>/etc/passwd\<close> and its path component of a home directory.
\<close>

theorem valid_username_safe:
  assumes "installer_valid_username (Some name)"
  shows "name \<noteq> [] \<and> name \<noteq> ''root'' \<and> set name \<inter> {CHR '':'', CHR ''/'', LF, NUL} = {}"
proof -
  have "\<not> username_char (CHR '':'')" "\<not> username_char (CHR ''/'')"
    "\<not> username_char LF" "\<not> username_char NUL"
    by (simp_all add: username_char_def ctype_defs less_eq_char_def)
  with assms show ?thesis
    by (auto simp: installer_valid_username_def list_all_iff split: if_splits)
qed

theorem valid_username_safe_witness:
  "''user-1'' \<noteq> [] \<and> ''user-1'' \<noteq> ''root'' \<and> set ''user-1'' \<inter> {CHR '':'', CHR ''/'', LF, NUL} = {}"
  by (rule valid_username_safe)
     (simp add: installer_valid_username_def username_char_def ctype_defs less_eq_char_def)

text \<open>
  With room for it, the progress bar shows the percentage as filled cells rounded to the
  nearest, followed by blank cells up to the width, and the number.
\<close>

theorem progress_bar_shape:
  assumes "0 \<le> percent" and "percent \<le> 100" and "0 \<le> width" and "nat width + 8 \<le> out_size"
  shows "installer_format_progress_bar percent width out_size =
    (let filled = nat ((percent * width + 50) div 100) in
     Some (''['' @ replicate filled (CHR ''#'') @ replicate (nat width - filled) (CHR '' '')
       @ '']'' @ '' '' @ dec (nat percent) @ ''%''))"
proof -
  define filled where "filled = (percent * width + 50) div 100"
  have "percent * width + 50 \<le> 100 * width + 50"
    using assms by (simp add: mult_right_mono)
  then have "filled \<le> width"
    unfolding filled_def by linarith
  moreover have "0 \<le> filled"
    using assms by (simp add: filled_def pos_imp_zdiv_nonneg_iff)
  ultimately have bar: "bar_loop 0 width filled out_size ''['' =
      ''['' @ replicate (nat filled) (CHR ''#'') @ replicate (nat width - nat filled) (CHR '' '')"
    using assms by (simp add: bar_loop_full map_upto_threshold nat_diff_distrib)
  have "length (dec (nat percent)) \<le> 3"
    using assms by (simp add: dec_percent)
  then show ?thesis
    using assms \<open>0 \<le> filled\<close> \<open>filled \<le> width\<close>
    by (simp add: installer_format_progress_bar_def push_char_def bar filled_def [symmetric] Let_def)
qed

theorem progress_bar_shape_witness:
  "installer_format_progress_bar 55 10 32 =
    (let filled = nat ((55 * 10 + 50) div 100) in
     Some (''['' @ replicate filled (CHR ''#'') @ replicate (nat 10 - filled) (CHR '' '')
       @ '']'' @ '' '' @ dec (nat 55) @ ''%''))"
  by (rule progress_bar_shape) simp_all

text \<open>
  The failure summary is the header, the last five log lines that are neither empty nor the
  title, each on a line of its own, and the footer, cut to the size of the buffer.
\<close>

theorem failure_summary_spec:
  assumes "0 < out_size" and "log_lines content \<noteq> []"
  shows "installer_format_failure_summary (Some content) out_size =
    Some (trunc out_size (summary_header @ concat (map (\<lambda>l. LF # l) (last_n MAX_LINES (log_lines content)))
      @ summary_footer))"
proof -
  have collect: "summary_collect (fgets_lines (LINE_LEN - 1) content) []
      = last_n MAX_LINES (log_lines content)"
    using length_fgets_line [of _ "LINE_LEN - 1" content]
    by (subst summary_collect_last) (force simp: log_lines_def)+
  have "last_n MAX_LINES (log_lines content) \<noteq> []"
    using assms(2) length_greater_0_conv [of "log_lines content"] by (simp add: last_n_def del: length_greater_0_conv)
  then show ?thesis
    using assms(1) trunc_append_full [of out_size summary_header]
    unfolding installer_format_failure_summary_def option.case collect Let_def
    by (simp add: summary_loop_trunc)
qed

theorem failure_summary_spec_witness:
  "installer_format_failure_summary (Some ''boom'') 1024 =
    Some (trunc 1024 (summary_header @ concat (map (\<lambda>l. LF # l) (last_n MAX_LINES (log_lines ''boom'')))
      @ summary_footer))"
  by (rule failure_summary_spec)
     (simp_all add: log_lines_def fgets_lines.simps [of _ "''boom''"] fgets_len_def cstr_def
       chomp_def before_any_def)

text \<open>
  A disk is erased only for a phrase that names it: the phrase typed for one disk is not
  accepted for another.
\<close>

theorem confirmation_names_disk:
  assumes "installer_confirmation_phrase_matches (Some disk) (Some typed)"
  shows "typed = ''ERASE '' @ disk
    \<and> (\<forall>other. installer_confirmation_phrase_matches (Some other) (Some typed) = (other = disk))"
  using assms
  by (auto simp: installer_confirmation_phrase_matches_def split: if_splits option.splits)

theorem confirmation_names_disk_witness:
  "''ERASE /dev/sda'' = ''ERASE '' @ ''/dev/sda''
    \<and> (\<forall>other. installer_confirmation_phrase_matches (Some other) (Some ''ERASE /dev/sda'')
         = (other = ''/dev/sda''))"
  by (rule confirmation_names_disk) (simp add: installer_confirmation_phrase_matches_def fits_def)

text \<open>
  \<^verbatim>\<open>%u\<close> accepts a sign and white space, so names that no kernel gives a disk pass the check.
\<close>

theorem supported_disk_accepts_sign:
  "installer_supported_disk (Some ''/dev/nvme-1n +2'') \<and> installer_supported_disk (Some ''/dev/mmcblk -0'')"
  by (simp add: installer_supported_disk_def scan_u_def ctype_defs less_eq_char_def)

end
