(* ===== verification/World.thy ===== *)
theory World
  imports PkgNames "HOL-Library.State_Monad"
begin

text \<open>
  The operating system as the programs see it. Everything outside the sources (the file
  system, other programs, the terminal) is the parameter \<open>env\<close> of the definitions that use it: a
  record of functions that answer a call. An answer may depend on the history of all the calls
  so far that can change anything; the history is also the trace the properties talk about.

  A C function with effects is a value of the state monad over the history; a C function that
  returns 0 or \<^verbatim>\<open>-1\<close> yields \<^const>\<open>True\<close> or \<^const>\<open>False\<close>. Nothing is assumed about \<open>env\<close>: a
  theorem without a hypothesis on it holds for every behaviour of the system.
\<close>

section \<open>Calls and answers\<close>

datatype amode = F_OK | R_OK | X_OK | WX_OK

datatype errno = ENOENT | EEXIST | EOTHER

datatype file_kind = S_REG | S_DIR | S_LNK | S_BLK | S_OTHER

record stat_t =
  st_kind :: file_kind
  st_mode :: mode_t

datatype wait_status = Exited nat | Signaled nat | NotRun

text \<open>
  What becomes of a program whose output is read through a pipe: the texts of the first two
  are those of \<^verbatim>\<open>strerror\<close>, the others carry what was read from the pipe.
\<close>

datatype exec_result =
  PipeFailed string | ForkFailed string | WaitFailed string | Ran string wait_status

text \<open>
  The calls that are recorded. \<^verbatim>\<open>WriteFile\<close> is a file opened for writing, filled and closed;
  \<^verbatim>\<open>Append\<close> the same with mode \<^verbatim>\<open>a\<close>; \<^verbatim>\<open>Fill\<close> and \<^verbatim>\<open>Fchmod\<close> act on a file that is
  open for writing; \<^verbatim>\<open>Prompt\<close> reads one line from the terminal. \<^verbatim>\<open>CreateDirs\<close>, \<^verbatim>\<open>Remove\<close>,
  \<^verbatim>\<open>RemoveAll\<close> and \<^verbatim>\<open>CopyFile\<close> are the functions of \<^verbatim>\<open>std::filesystem\<close>; \<^verbatim>\<open>Tsflags\<close>, \<^verbatim>\<open>Rpm\<close> and
  \<^verbatim>\<open>Dnf\<close> are calls into the package libraries.
\<close>

datatype event =
    Run "string list"
  | RunTo "string list" string
  | Popen string
  | Mkdir string mode_t
  | Rmdir string
  | Unlink string
  | Symlink string string
  | Rename string string
  | Chmod string mode_t
  | Mkstemp string
  | Mkdtemp string
  | Fill string string
  | Fchmod string mode_t
  | CloseFile string
  | WriteFile string string
  | Append string string
  | Usleep nat
  | Prompt
  | Log string
  | Progress int string
  | CreateDirs string
  | Remove string
  | RemoveAll string
  | CopyFile string string
  | Setenv string string
  | Tsflags "string list"
  | Rpm string
  | Dnf string

type_synonym history = "event list"

type_synonym 'a io = "(history, 'a) state"

record env =
  e_call :: "history \<Rightarrow> event \<Rightarrow> errno option"
  e_run :: "history \<Rightarrow> string list \<Rightarrow> wait_status"
  e_open :: "history \<Rightarrow> string \<Rightarrow> string option"
  e_access :: "history \<Rightarrow> string \<Rightarrow> amode \<Rightarrow> bool"
  e_stat :: "history \<Rightarrow> string \<Rightarrow> errno + stat_t"
  e_lstat :: "history \<Rightarrow> string \<Rightarrow> errno + stat_t"
  e_opendir :: "history \<Rightarrow> string \<Rightarrow> string list option"
  e_readlink :: "history \<Rightarrow> string \<Rightarrow> string option"
  e_popen :: "history \<Rightarrow> string \<Rightarrow> (string \<times> bool) option"
  e_mkstemp :: "history \<Rightarrow> string \<Rightarrow> string option"
  e_stdin :: "history \<Rightarrow> string option"
  e_exec :: "history \<Rightarrow> string list \<Rightarrow> exec_result"
  e_glob :: "history \<Rightarrow> string \<Rightarrow> string list"
  e_getenv :: "string \<Rightarrow> string option"
  e_time :: "history \<Rightarrow> nat"
  e_capture :: "history \<Rightarrow> string list \<Rightarrow> exec_result"
  e_file_size :: "history \<Rightarrow> string \<Rightarrow> nat option"
  e_strerror :: "history \<Rightarrow> string"
  e_euid :: nat
  e_isatty :: "nat \<Rightarrow> bool"

abbreviation ret :: "'a \<Rightarrow> 'a io" where "ret \<equiv> State_Monad.return"

text \<open>A call that changes something, and a question that does not.\<close>

definition effect :: "env \<Rightarrow> event \<Rightarrow> errno option io" where
  "effect env ev = State (\<lambda>h. (e_call env h ev, h @ [ev]))"

definition query :: "(history \<Rightarrow> 'a) \<Rightarrow> 'a io" where
  "query f = State (\<lambda>h. (f h, h))"

definition emit :: "event \<Rightarrow> unit io" where
  "emit ev = State (\<lambda>h. ((), h @ [ev]))"

text \<open>\<open>succeeds env ev\<close> is a call whose result is compared with 0.\<close>

definition succeeds :: "env \<Rightarrow> event \<Rightarrow> bool io" where
  "succeeds env ev = do { r \<leftarrow> effect env ev; ret (r = None) }"

definition spawn :: "env \<Rightarrow> string list \<Rightarrow> wait_status io" where
  "spawn env argv = State (\<lambda>h. (e_run env h argv, h @ [Run argv]))"

definition mkstemp :: "env \<Rightarrow> string \<Rightarrow> string option io" where
  "mkstemp env template =
     State (\<lambda>h. case e_mkstemp env h template of None \<Rightarrow> (None, h)
                | Some path \<Rightarrow> (Some path, h @ [Mkstemp path]))"

definition mkdtemp :: "env \<Rightarrow> string \<Rightarrow> string option io" where
  "mkdtemp env template =
     State (\<lambda>h. case e_mkstemp env h template of None \<Rightarrow> (None, h)
                | Some path \<Rightarrow> (Some path, h @ [Mkdtemp path]))"

definition exec_cmd :: "env \<Rightarrow> string list \<Rightarrow> exec_result io" where
  "exec_cmd env argv = State (\<lambda>h. (e_exec env h argv, h @ [Run argv]))"

definition capture_cmd :: "env \<Rightarrow> string list \<Rightarrow> exec_result io" where
  "capture_cmd env argv = State (\<lambda>h. (e_capture env h argv, h @ [Run argv]))"

definition popen :: "env \<Rightarrow> string \<Rightarrow> (string \<times> bool) option io" where
  "popen env cmd = State (\<lambda>h. (e_popen env h cmd, h @ [Popen cmd]))"

definition read_stdin :: "env \<Rightarrow> string option io" where
  "read_stdin env = State (\<lambda>h. (e_stdin env h, h @ [Prompt]))"

definition open_file :: "env \<Rightarrow> string \<Rightarrow> string option io" where
  "open_file env path = query (\<lambda>h. e_open env h path)"

definition access :: "env \<Rightarrow> string \<Rightarrow> amode \<Rightarrow> bool io" where
  "access env path m = query (\<lambda>h. e_access env h path m)"

definition lstat :: "env \<Rightarrow> string \<Rightarrow> (errno + stat_t) io" where
  "lstat env path = query (\<lambda>h. e_lstat env h path)"

definition stat :: "env \<Rightarrow> string \<Rightarrow> (errno + stat_t) io" where
  "stat env path = query (\<lambda>h. e_stat env h path)"

definition opendir :: "env \<Rightarrow> string \<Rightarrow> string list option io" where
  "opendir env path = query (\<lambda>h. e_opendir env h path)"

definition readlink :: "env \<Rightarrow> string \<Rightarrow> string option io" where
  "readlink env path = query (\<lambda>h. e_readlink env h path)"

definition glob :: "env \<Rightarrow> string \<Rightarrow> string list io" where
  "glob env pattern = query (\<lambda>h. e_glob env h pattern)"

definition file_size :: "env \<Rightarrow> string \<Rightarrow> nat option io" where
  "file_size env path = query (\<lambda>h. e_file_size env h path)"

definition time_now :: "env \<Rightarrow> nat io" where
  "time_now env = query (e_time env)"

section \<open>Control structure\<close>

text \<open>\<open>and_then m k\<close> goes on with \<open>k\<close> when \<open>m\<close> returned 0 and returns \<^verbatim>\<open>-1\<close> otherwise.\<close>

definition and_then :: "bool io \<Rightarrow> bool io \<Rightarrow> bool io" where
  "and_then m k = do { ok \<leftarrow> m; if ok then k else ret False }"

definition or_else :: "bool io \<Rightarrow> bool io \<Rightarrow> bool io" where
  "or_else m k = do { ok \<leftarrow> m; if ok then ret True else k }"

text \<open>A loop that stops at the first failing turn, and one that ignores the results.\<close>

fun all_io :: "('a \<Rightarrow> bool io) \<Rightarrow> 'a list \<Rightarrow> bool io" where
  "all_io f [] = ret True"
| "all_io f (x # xs) = and_then (f x) (all_io f xs)"

fun each_io :: "('a \<Rightarrow> 'b io) \<Rightarrow> 'a list \<Rightarrow> unit io" where
  "each_io f [] = ret ()"
| "each_io f (x # xs) = do { _ \<leftarrow> f x; each_io f xs }"

text \<open>A failed buffer computation returns \<^verbatim>\<open>-1\<close>.\<close>

definition with_some :: "'a option \<Rightarrow> ('a \<Rightarrow> bool io) \<Rightarrow> bool io" where
  "with_some x k = (case x of None \<Rightarrow> ret False | Some v \<Rightarrow> k v)"

text \<open>The same for functions that return a value.\<close>

definition bind_some :: "'a option io \<Rightarrow> ('a \<Rightarrow> 'b option io) \<Rightarrow> 'b option io" where
  "bind_some m k = do { x \<leftarrow> m; (case x of None \<Rightarrow> ret None | Some v \<Rightarrow> k v) }"

section \<open>What a program emits\<close>

definition result :: "'a io \<Rightarrow> history \<Rightarrow> 'a" where
  "result m h = fst (run_state m h)"

definition after :: "'a io \<Rightarrow> history \<Rightarrow> history" where
  "after m h = snd (run_state m h)"

text \<open>\<open>emits P m\<close>: whatever the history, \<open>m\<close> only appends events that satisfy \<open>P\<close>.\<close>

definition emits :: "(event \<Rightarrow> bool) \<Rightarrow> 'a io \<Rightarrow> bool" where
  "emits P m \<longleftrightarrow> (\<forall>h. \<exists>t. after m h = h @ t \<and> list_all P t)"

named_theorems emits_intros "rules that establish emits"

lemma after_simps [simp]:
  "after (ret x) h = h"
  "after (query f) h = h"
  "after (effect env ev) h = h @ [ev]"
  "after (emit ev) h = h @ [ev]"
  "after (spawn env argv) h = h @ [Run argv]"
  "after (exec_cmd env argv) h = h @ [Run argv]"
  "after (capture_cmd env argv) h = h @ [Run argv]"
  "after (popen env cmd) h = h @ [Popen cmd]"
  "after (read_stdin env) h = h @ [Prompt]"
  by (simp_all add: after_def query_def effect_def emit_def spawn_def exec_cmd_def capture_cmd_def popen_def
      read_stdin_def)

lemma result_simps [simp]:
  "result (ret x) h = x"
  "result (query f) h = f h"
  "result (effect env ev) h = e_call env h ev"
  "result (spawn env argv) h = e_run env h argv"
  "result (exec_cmd env argv) h = e_exec env h argv"
  "result (capture_cmd env argv) h = e_capture env h argv"
  "result (popen env cmd) h = e_popen env h cmd"
  "result (read_stdin env) h = e_stdin env h"
  by (simp_all add: result_def query_def effect_def spawn_def exec_cmd_def capture_cmd_def popen_def
      read_stdin_def)

lemma result_bind [simp]: "result (State_Monad.bind m f) h = result (f (result m h)) (after m h)"
  and after_bind [simp]: "after (State_Monad.bind m f) h = after (f (result m h)) (after m h)"
  by (simp_all add: result_def after_def split: prod.split)

lemma run_state_result_after: "run_state m h = (result m h, after m h)"
  by (simp add: result_def after_def)

lemma emits_ret [emits_intros]: "emits P (ret x)"
  and emits_query [emits_intros]: "emits P (query f)"
  and emits_effect [emits_intros]: "P ev \<Longrightarrow> emits P (effect env ev)"
  and emits_emit [emits_intros]: "P ev \<Longrightarrow> emits P (emit ev)"
  and emits_spawn [emits_intros]: "P (Run argv) \<Longrightarrow> emits P (spawn env argv)"
  and emits_exec_cmd [emits_intros]: "P (Run argv) \<Longrightarrow> emits P (exec_cmd env argv)"
  and emits_capture_cmd [emits_intros]: "P (Run argv) \<Longrightarrow> emits P (capture_cmd env argv)"
  and emits_popen [emits_intros]: "P (Popen cmd) \<Longrightarrow> emits P (popen env cmd)"
  and emits_read_stdin [emits_intros]: "P Prompt \<Longrightarrow> emits P (read_stdin env)"
  by (simp_all add: emits_def)

lemma emits_bind [emits_intros]:
  assumes "emits P m" and "\<And>x. emits P (f x)"
  shows "emits P (State_Monad.bind m f)"
  unfolding emits_def
proof
  fix h
  obtain t where t: "after m h = h @ t" "list_all P t"
    using assms(1) by (auto simp: emits_def)
  obtain u where u: "after (f (result m h)) (h @ t) = (h @ t) @ u" "list_all P u"
    using assms(2) unfolding emits_def by meson
  show "\<exists>t. after (State_Monad.bind m f) h = h @ t \<and> list_all P t"
    using t u by (intro exI [of _ "t @ u"]) simp
qed

lemma emits_if [emits_intros]:
  "(b \<Longrightarrow> emits P m) \<Longrightarrow> (\<not> b \<Longrightarrow> emits P n) \<Longrightarrow> emits P (if b then m else n)"
  by simp

lemma emits_case_option [emits_intros]:
  "(x = None \<Longrightarrow> emits P m) \<Longrightarrow> (\<And>y. x = Some y \<Longrightarrow> emits P (f y)) \<Longrightarrow>
    emits P (case x of None \<Rightarrow> m | Some y \<Rightarrow> f y)"
  by (cases x) auto

lemma emits_case_sum [emits_intros]:
  "(\<And>y. x = Inl y \<Longrightarrow> emits P (f y)) \<Longrightarrow> (\<And>y. x = Inr y \<Longrightarrow> emits P (g y)) \<Longrightarrow>
    emits P (case x of Inl y \<Rightarrow> f y | Inr y \<Rightarrow> g y)"
  by (cases x) auto

lemma emits_case_prod [emits_intros]:
  "(\<And>a b. x = (a, b) \<Longrightarrow> emits P (f a b)) \<Longrightarrow> emits P (case x of (a, b) \<Rightarrow> f a b)"
  by (cases x) auto

lemma emits_let [emits_intros]: "emits P (f x) \<Longrightarrow> emits P (let y = x in f y)"
  by simp

lemma emits_succeeds [emits_intros]: "P ev \<Longrightarrow> emits P (succeeds env ev)"
  by (auto simp: succeeds_def intro!: emits_intros)

lemma emits_mkstemp [emits_intros]:
  "(\<And>p. P (Mkstemp p)) \<Longrightarrow> emits P (mkstemp env template)"
  by (auto simp: emits_def mkstemp_def after_def split: option.split)

lemma emits_mkdtemp [emits_intros]:
  "(\<And>p. P (Mkdtemp p)) \<Longrightarrow> emits P (mkdtemp env template)"
  by (auto simp: emits_def mkdtemp_def after_def split: option.split)

lemma emits_queries [emits_intros]:
  "emits P (open_file env path)" "emits P (access env path m)" "emits P (lstat env path)"
  "emits P (stat env path)" "emits P (opendir env path)" "emits P (readlink env path)"
  "emits P (glob env pattern)" "emits P (time_now env)" "emits P (file_size env path)"
  by (simp_all add: open_file_def access_def lstat_def stat_def opendir_def readlink_def
      glob_def time_now_def file_size_def emits_query)

lemma emits_and_then [emits_intros]: "emits P m \<Longrightarrow> emits P k \<Longrightarrow> emits P (and_then m k)"
  and emits_or_else [emits_intros]: "emits P m \<Longrightarrow> emits P k \<Longrightarrow> emits P (or_else m k)"
  by (auto simp: and_then_def or_else_def intro!: emits_intros)

lemma emits_all_io [emits_intros]:
  "(\<And>x. x \<in> set xs \<Longrightarrow> emits P (f x)) \<Longrightarrow> emits P (all_io f xs)"
  by (induction xs) (auto intro!: emits_intros)

lemma emits_each_io [emits_intros]:
  "(\<And>x. x \<in> set xs \<Longrightarrow> emits P (f x)) \<Longrightarrow> emits P (each_io f xs)"
  by (induction xs) (auto intro!: emits_intros)

lemma emits_with_some [emits_intros]:
  "(\<And>v. x = Some v \<Longrightarrow> emits P (k v)) \<Longrightarrow> emits P (with_some x k)"
  by (auto simp: with_some_def intro!: emits_intros)

lemma emits_bind_some [emits_intros]:
  "emits P m \<Longrightarrow> (\<And>v. emits P (k v)) \<Longrightarrow> emits P (bind_some m k)"
  by (auto simp: bind_some_def intro!: emits_intros)

lemma emits_mono: "emits P m \<Longrightarrow> (\<And>e. P e \<Longrightarrow> Q e) \<Longrightarrow> emits Q m"
  by (auto simp: emits_def list_all_iff) (metis list_all_iff)

lemma emits_after: "emits P m \<Longrightarrow> \<exists>t. after m h = h @ t \<and> list_all P t"
  by (simp add: emits_def)

text \<open>What a successful sequence tells about its parts.\<close>

lemma result_and_then [simp]:
  "result (and_then m k) h \<longleftrightarrow> result m h \<and> result k (after m h)"
  by (simp add: and_then_def)

lemma after_and_then [simp]:
  "after (and_then m k) h = (if result m h then after k (after m h) else after m h)"
  by (simp add: and_then_def)

lemma result_with_some [simp]:
  "result (with_some x k) h \<longleftrightarrow> (\<exists>v. x = Some v \<and> result (k v) h)"
  by (simp add: with_some_def split: option.split)

lemma after_with_some [simp]:
  "after (with_some x k) h = (case x of None \<Rightarrow> h | Some v \<Rightarrow> after (k v) h)"
  by (simp add: with_some_def split: option.split)

lemma result_succeeds [simp]: "result (succeeds env ev) h \<longleftrightarrow> e_call env h ev = None"
  and after_succeeds [simp]: "after (succeeds env ev) h = h @ [ev]"
  by (simp_all add: succeeds_def)

lemma result_queries [simp]:
  "result (open_file env path) h = e_open env h path"
  "result (access env path m) h = e_access env h path m"
  "result (lstat env path) h = e_lstat env h path"
  "result (stat env path) h = e_stat env h path"
  "result (opendir env path) h = e_opendir env h path"
  "result (readlink env path) h = e_readlink env h path"
  "result (glob env pattern) h = e_glob env h pattern"
  "result (time_now env) h = e_time env h"
  "result (file_size env path) h = e_file_size env h path"
  by (simp_all add: open_file_def access_def lstat_def stat_def opendir_def readlink_def
      glob_def time_now_def file_size_def)

lemma after_queries [simp]:
  "after (open_file env path) h = h" "after (access env path m) h = h"
  "after (lstat env path) h = h" "after (stat env path) h = h"
  "after (opendir env path) h = h" "after (readlink env path) h = h"
  "after (glob env pattern) h = h" "after (time_now env) h = h" "after (file_size env path) h = h"
  by (simp_all add: open_file_def access_def lstat_def stat_def opendir_def readlink_def
      glob_def time_now_def file_size_def)

lemma result_if [simp]: "result (if b then m else n) h = (if b then result m h else result n h)"
  and after_if [simp]: "after (if b then m else n) h = (if b then after m h else after n h)"
  by simp_all

section \<open>A sample environment\<close>

definition listing_env :: "string \<Rightarrow> env" where
  "listing_env content =
     \<lparr>e_call = \<lambda>h e. None, e_run = \<lambda>h argv. Exited 0, e_open = \<lambda>h p. None,
      e_access = \<lambda>h p m. False, e_stat = \<lambda>h p. Inl ENOENT, e_lstat = \<lambda>h p. Inl ENOENT,
      e_opendir = \<lambda>h p. None, e_readlink = \<lambda>h p. None, e_popen = \<lambda>h c. Some (content, True),
      e_mkstemp = \<lambda>h t. None, e_stdin = \<lambda>h. None,
      e_exec = \<lambda>h argv. Ran [] (Exited 0), e_glob = \<lambda>h pattern. [], e_getenv = \<lambda>name. None,
      e_time = \<lambda>h. 0, e_capture = \<lambda>h argv. Ran [] (Exited 0), e_file_size = \<lambda>h p. None,
      e_strerror = \<lambda>h. [], e_euid = 0, e_isatty = \<lambda>fd. False\<rparr>"

end
