(* ===== verification/Metadata.thy ===== *)
theory Metadata
  imports World Versions "HOL-Library.Multiset"
begin

text \<open>
  How \<^verbatim>\<open>tools/syspckg-old/main.c\<close> reads configuration and metadata: the source URL, the keys of
  \<^verbatim>\<open>os-release\<close> and \<^verbatim>\<open>syspckg-info\<close>, dependency lists, and the package names in a directory
  listing fetched from the server. Each reader is a function on the lines of a file and an
  operation that opens the file. Diagnostics printed on the terminal are left out.
\<close>

section \<open>The source URL\<close>

definition SYSPCKG_SOURCE_FILE :: string where
  "SYSPCKG_SOURCE_FILE = ''/etc/syspckg/syspckg-source''"

definition SYSPCKG_VERSION_FILE :: string where
  "SYSPCKG_VERSION_FILE = ''/etc/syspckg/syspckg-version''"

definition SYSPCKG_VERSION :: string where
  "SYSPCKG_VERSION = ''1.0''"

definition DEFAULT_SOURCE_URL :: string where
  "DEFAULT_SOURCE_URL = ''http://192.168.10.7/products/AdavaLinux''"

fun source_url_lines :: "string list \<Rightarrow> string option" where
  "source_url_lines [] = None"
| "source_url_lines (line # rest) =
     (let trimmed = trim_whitespace line in
      if trimmed = [] \<or> hd trimmed = CHR ''#'' then source_url_lines rest
      else if \<not> prefix ''SOURCE_URL'' trimmed then source_url_lines rest
      else
        let trimmed = dropWhile isspace (drop 10 trimmed) in
        if trimmed = [] \<or> hd trimmed \<noteq> CHR ''='' then source_url_lines rest
        else
          let trimmed = trim_whitespace (tl trimmed) in
          if trimmed = [] then source_url_lines rest else Some trimmed)"

definition get_source_url :: "env \<Rightarrow> nat \<Rightarrow> string option io" where
  "get_source_url env out_sz = do {
     fp \<leftarrow> open_file env SYSPCKG_SOURCE_FILE;
     ret (case fp of None \<Rightarrow> fits out_sz DEFAULT_SOURCE_URL
          | Some content \<Rightarrow>
              (case source_url_lines (fgets_lines 1023 content) of
                 Some url \<Rightarrow> fits out_sz url
               | None \<Rightarrow> fits out_sz DEFAULT_SOURCE_URL))
   }"

section \<open>Keys of a file\<close>

definition skip_quote :: "string \<Rightarrow> string" where
  "skip_quote p = (if p \<noteq> [] \<and> (hd p = DQ \<or> hd p = SQ) then tl p else p)"

fun id_lines :: "string list \<Rightarrow> bool" where
  "id_lines [] = False"
| "id_lines (line # rest) =
     (if \<not> prefix ''ID='' line then id_lines rest
      else if prefix ''adavalinux'' (skip_quote (drop 3 line)) then True
      else id_lines rest)"

definition is_adavalinux_root :: "env \<Rightarrow> string \<Rightarrow> bool io" where
  "is_adavalinux_root env root =
     with_some (fits PATH_MAX (root @ ''/etc/os-release'')) (\<lambda>path. do {
       f \<leftarrow> open_file env path;
       ret (case f of None \<Rightarrow> False | Some content \<Rightarrow> id_lines (fgets_lines 255 content))
     })"

fun read_key_lines :: "string list \<Rightarrow> string \<Rightarrow> nat \<Rightarrow> string option" where
  "read_key_lines [] key out_sz = None"
| "read_key_lines (line # rest) key out_sz =
     (if \<not> prefix (key @ ''='') line then read_key_lines rest key out_sz
      else
        let p = skip_quote (drop (length key + 1) line);
            val = before_any [DQ, SQ, CR, LF] p
        in if length val + 1 > out_sz then None else Some val)"

definition read_key_from_file :: "env \<Rightarrow> string \<Rightarrow> string \<Rightarrow> nat \<Rightarrow> string option io" where
  "read_key_from_file env path key out_sz = do {
     f \<leftarrow> open_file env path;
     ret (case f of None \<Rightarrow> None
          | Some content \<Rightarrow> read_key_lines (fgets_lines 255 content) key out_sz)
   }"

definition get_packager_version :: "env \<Rightarrow> string \<Rightarrow> nat \<Rightarrow> string option io" where
  "get_packager_version env root out_sz =
     (case fits PATH_MAX (root @ SYSPCKG_VERSION_FILE) of
        None \<Rightarrow> ret (fits out_sz SYSPCKG_VERSION)
      | Some path \<Rightarrow> do {
          f \<leftarrow> open_file env path;
          ret (case f of None \<Rightarrow> fits out_sz SYSPCKG_VERSION
               | Some content \<Rightarrow>
                   (case fgets_lines 127 content of
                      [] \<Rightarrow> fits out_sz SYSPCKG_VERSION
                    | line # _ \<Rightarrow>
                        let trimmed = trim_whitespace line in
                        if is_safe_version trimmed \<and> length trimmed < out_sz then Some trimmed
                        else fits out_sz SYSPCKG_VERSION))
        })"

definition read_version_from_file :: "env \<Rightarrow> string \<Rightarrow> nat \<Rightarrow> string option io" where
  "read_version_from_file env path out_sz = do {
     v \<leftarrow> read_key_from_file env path ''VERSION'' out_sz;
     (case v of Some _ \<Rightarrow> ret v | None \<Rightarrow> read_key_from_file env path ''VERSION_ID'' out_sz)
   }"

definition read_id_from_file :: "env \<Rightarrow> string \<Rightarrow> nat \<Rightarrow> string option io" where
  "read_id_from_file env path out_sz = read_key_from_file env path ''ID'' out_sz"

text \<open>\<^verbatim>\<open>get_os_version\<close> and \<^verbatim>\<open>get_os_id\<close> try \<^verbatim>\<open>/etc\<close> first and \<^verbatim>\<open>/usr/lib\<close> second.\<close>

definition os_release_lookup ::
  "(env \<Rightarrow> string \<Rightarrow> nat \<Rightarrow> string option io) \<Rightarrow> env \<Rightarrow> string \<Rightarrow> nat \<Rightarrow> string option io" where
  "os_release_lookup read env root out_sz =
     (case fits PATH_MAX (root @ ''/etc/os-release'') of
        None \<Rightarrow> ret None
      | Some path \<Rightarrow> do {
          v \<leftarrow> read env path out_sz;
          (case v of Some _ \<Rightarrow> ret v
           | None \<Rightarrow>
               (case fits PATH_MAX (root @ ''/usr/lib/os-release'') of
                  None \<Rightarrow> ret None
                | Some path' \<Rightarrow> read env path' out_sz))
        })"

definition get_os_version :: "env \<Rightarrow> string \<Rightarrow> nat \<Rightarrow> string option io" where
  "get_os_version = os_release_lookup read_version_from_file"

definition get_os_id :: "env \<Rightarrow> string \<Rightarrow> nat \<Rightarrow> string option io" where
  "get_os_id = os_release_lookup read_id_from_file"

text \<open>\<^verbatim>\<open>read_syspckg_info\<close> yields the package version, the id and the system version.\<close>

definition read_syspckg_info ::
  "env \<Rightarrow> string \<Rightarrow> nat \<Rightarrow> nat \<Rightarrow> nat \<Rightarrow> (string \<times> string \<times> string) option io" where
  "read_syspckg_info env path pkg_ver_sz id_sz ver_sz =
     bind_some (read_key_from_file env path ''PKG_VERSION'' pkg_ver_sz) (\<lambda>pkg_version.
     bind_some (read_key_from_file env path ''ID'' id_sz) (\<lambda>pkg_id.
     bind_some (read_version_from_file env path ver_sz) (\<lambda>version.
       ret (Some (pkg_version, pkg_id, version)))))"

section \<open>Dependency lists\<close>

definition add_name :: "string list \<Rightarrow> string \<Rightarrow> string list" where
  "add_name names name = (if name_exists names name then names else names @ [name])"

fun deps_lines :: "string list \<Rightarrow> string list \<Rightarrow> string list" where
  "deps_lines [] deps = deps"
| "deps_lines (line # rest) deps =
     (if \<not> prefix ''DEP='' line then deps_lines rest deps
      else let val = chomp (drop 4 line) in
        if \<not> is_safe_pkgname val then deps_lines rest deps
        else deps_lines rest (add_name deps val))"

definition read_syspckg_deps :: "env \<Rightarrow> string \<Rightarrow> string list option io" where
  "read_syspckg_deps env path = do {
     f \<leftarrow> open_file env path;
     ret (case f of None \<Rightarrow> None | Some content \<Rightarrow> Some (deps_lines (fgets_lines 255 content) []))
   }"

definition is_pkg_installed :: "env \<Rightarrow> string \<Rightarrow> string \<Rightarrow> bool io" where
  "is_pkg_installed env root pkg_name =
     with_some (fits PATH_MAX (root @ ''/var/lib/syspckg/installed/'' @ pkg_name @ ''.list''))
       (\<lambda>manifest_path. access env manifest_path F_OK)"

section \<open>Package names in a listing\<close>

text \<open>
  \<open>token_start line n\<close> walks back from offset \<open>n\<close> over the characters of a package name, as
  far as the beginning of the line.
\<close>

fun token_start :: "string \<Rightarrow> nat \<Rightarrow> nat" where
  "token_start line 0 = 0"
| "token_start line (Suc n) =
     (if is_pkg_token_char (line ! n) then token_start line n else Suc n)"

lemma scan_progress:
  assumes "suf \<noteq> []" and "strstr (drop p line) suf = Some i"
  shows "length line - (p + i + length suf) < length line - p"
proof -
  have "prefix suf (drop i (drop p line))"
    using assms(2) by (auto dest: strstr_Some)
  then have "length suf \<le> length line - (i + p)"
    using prefix_length_le by fastforce
  with assms(1) show ?thesis
    by (cases suf) auto
qed

text \<open>
  The tokens of a line: for every occurrence of the suffix from offset \<open>p\<close> on, the name that
  ends there. An empty suffix would keep the loop of the source from advancing; the callers
  pass \<^verbatim>\<open>.syspckg\<close> or a name that ends in \<^verbatim>\<open>/\<close>.
\<close>

function scan_tokens :: "string \<Rightarrow> string \<Rightarrow> nat \<Rightarrow> string list" where
  "scan_tokens line suf p =
     (if suf = [] then []
      else case strstr (drop p line) suf of
        None \<Rightarrow> []
      | Some i \<Rightarrow>
          let start = token_start line (p + i); end = p + i + length suf; len = end - start;
              rest = scan_tokens line suf end
          in if len > 0 \<and> len < PATH_MAX then take len (drop start line) # rest else rest)"
  by pat_completeness auto
termination
  by (relation "measure (\<lambda>(line, suf, p). length line - p)") (auto simp: scan_progress)

declare scan_tokens.simps [simp del]

definition listing_names :: "string \<Rightarrow> string \<Rightarrow> string list" where
  "listing_names content suf =
     foldl (\<lambda>names line. foldl add_name names (scan_tokens line suf 0)) []
       (fgets_lines 1023 content)"

definition collect_remote_tokens :: "env \<Rightarrow> string \<Rightarrow> string \<Rightarrow> string list option io" where
  "collect_remote_tokens env url suf =
     (case fits (PATH_MAX + 32) (''wget -qO- '' @ url) of
        None \<Rightarrow> ret None
      | Some cmd \<Rightarrow> do {
          fp \<leftarrow> popen env cmd;
          ret (case fp of None \<Rightarrow> None
               | Some (content, closed) \<Rightarrow>
                   if closed then Some (listing_names content suf) else None)
        })"

text \<open>
  \<^verbatim>\<open>list_remote_packages\<close> prints the names it finds; the names are the result of the model, and
  an empty result prints a notice.
\<close>

definition list_remote_packages :: "env \<Rightarrow> string \<Rightarrow> string list option io" where
  "list_remote_packages env root =
     bind_some (get_os_version env root 64) (\<lambda>version.
       if \<not> is_safe_version version then ret None
       else bind_some (get_source_url env PATH_MAX) (\<lambda>source_url.
         case fits PATH_MAX (source_url @ ''/'' @ version @ ''/packages/'') of
           None \<Rightarrow> ret None
         | Some url \<Rightarrow> collect_remote_tokens env url ''.syspckg''))"

section \<open>Installed packages and unpacked archives\<close>

fun list_entries :: "string list \<Rightarrow> string list option" where
  "list_entries [] = Some []"
| "list_entries (name # rest) =
     (let len = length name; suffix_len = length ''.list'' in
      if len \<le> suffix_len \<or> drop (len - suffix_len) name \<noteq> ''.list'' then list_entries rest
      else if len - suffix_len + 1 > PATH_MAX then None
      else map_option ((#) (take (len - suffix_len) name)) (list_entries rest))"

text \<open>\<^verbatim>\<open>qsort\<close> with \<^verbatim>\<open>cmp_string_ptrs\<close> sorts by \<^verbatim>\<open>strcmp\<close>; equal strings are indistinguishable.\<close>

fun insort_by :: "('a \<Rightarrow> 'a \<Rightarrow> int) \<Rightarrow> 'a \<Rightarrow> 'a list \<Rightarrow> 'a list" where
  "insort_by cmp x [] = [x]"
| "insort_by cmp x (y # ys) = (if cmp x y \<le> 0 then x # y # ys else y # insort_by cmp x ys)"

definition qsort :: "('a \<Rightarrow> 'a \<Rightarrow> int) \<Rightarrow> 'a list \<Rightarrow> 'a list" where
  "qsort cmp xs = foldr (insort_by cmp) xs []"

definition list_local_installed_packages :: "env \<Rightarrow> string \<Rightarrow> string list option io" where
  "list_local_installed_packages env root =
     (case fits PATH_MAX (root @ ''/var/lib/syspckg/installed'') of
        None \<Rightarrow> ret None
      | Some dir \<Rightarrow>
          bind_some (opendir env dir) (\<lambda>entries.
            ret (map_option (qsort strcmp) (list_entries entries))))"

text \<open>The candidate path is cut to its buffer without a test in \<^verbatim>\<open>find_install_dir\<close>.\<close>

fun install_dir_loop :: "env \<Rightarrow> string \<Rightarrow> nat \<Rightarrow> string list \<Rightarrow> string option \<Rightarrow> string option io" where
  "install_dir_loop env tmpdir out_sz [] found = ret found"
| "install_dir_loop env tmpdir out_sz (name # rest) found =
     (if name = ''.'' \<or> name = ''..'' then install_dir_loop env tmpdir out_sz rest found
      else do {
        let candidate = trunc PATH_MAX (tmpdir @ ''/'' @ name);
        st \<leftarrow> stat env candidate;
        (case st of
           Inl _ \<Rightarrow> install_dir_loop env tmpdir out_sz rest found
         | Inr s \<Rightarrow>
             if st_kind s \<noteq> S_DIR then install_dir_loop env tmpdir out_sz rest found
             else case fits PATH_MAX (candidate @ ''/syspckg-info'') of
               None \<Rightarrow> install_dir_loop env tmpdir out_sz rest found
             | Some info_path \<Rightarrow> do {
                 readable \<leftarrow> access env info_path R_OK;
                 if \<not> readable then install_dir_loop env tmpdir out_sz rest found
                 else if found \<noteq> None then ret None
                 else install_dir_loop env tmpdir out_sz rest (Some (trunc out_sz candidate))
               })
      })"

definition find_install_dir :: "env \<Rightarrow> string \<Rightarrow> nat \<Rightarrow> string option io" where
  "find_install_dir env tmpdir out_sz =
     bind_some (opendir env tmpdir) (\<lambda>entries. install_dir_loop env tmpdir out_sz entries None)"

section \<open>Lemmas\<close>

lemma mset_insort_by [simp]: "mset (insort_by cmp x xs) = add_mset x (mset xs)"
  by (induction xs) auto

lemma mset_qsort [simp]: "mset (qsort cmp xs) = mset xs"
  by (induction xs) (auto simp: qsort_def)

lemma set_qsort [simp]: "set (qsort cmp xs) = set xs"
  by (metis mset_qsort set_mset_mset)

lemma length_qsort [simp]: "length (qsort cmp xs) = length xs"
  by (metis mset_qsort size_mset)

text \<open>Sorting with any comparison that is a total preorder.\<close>

context version_order
begin

lemma insort_by_sorted:
  assumes "sorted_wrt (\<lambda>a b. cmp a b \<le> 0) xs"
  shows "sorted_wrt (\<lambda>a b. cmp a b \<le> 0) (insort_by cmp x xs)"
  using assms
proof (induction xs)
  case (Cons y ys)
  show ?case
  proof (cases "cmp x y \<le> 0")
    case True
    have "cmp x z \<le> 0" if "z \<in> set ys" for z
    proof -
      have "0 \<le> cmp z y" "0 \<le> cmp y x"
        using Cons.prems that True cmp_swap [of z y] cmp_swap [of y x] by auto
      then have "0 \<le> cmp z x" by (rule cmp_trans)
      then show ?thesis using cmp_swap [of z x] by simp
    qed
    with True Cons.prems show ?thesis by auto
  next
    case False
    then have "cmp y x \<le> 0" using cmp_swap [of y x] by simp
    moreover have "set (insort_by cmp x ys) = insert x (set ys)"
      by (metis mset_insort_by set_mset_add_mset_insert set_mset_mset)
    ultimately show ?thesis using Cons False by auto
  qed
qed simp

lemma qsort_sorted: "sorted_wrt (\<lambda>a b. cmp a b \<le> 0) (qsort cmp xs)"
  by (induction xs) (auto simp: qsort_def insort_by_sorted)

end

interpretation sc: version_order strcmp
proof
  fix a b c :: string
  show "strcmp b a = - strcmp a b"
    by (rule strcmp_swap)
  show "0 \<le> strcmp a b \<Longrightarrow> 0 \<le> strcmp b c \<Longrightarrow> 0 \<le> strcmp a c"
    by (auto simp: strcmp_order sign_of_order_def split: if_splits)
qed

lemma add_name_set [simp]: "set (add_name names name) = insert name (set names)"
  by (auto simp: add_name_def)

lemma add_name_distinct [simp]: "distinct names \<Longrightarrow> distinct (add_name names name)"
  by (simp add: add_name_def)

lemma foldl_add_name:
  "set (foldl add_name names xs) = set names \<union> set xs"
  "distinct names \<Longrightarrow> distinct (foldl add_name names xs)"
  by (induction xs arbitrary: names) auto

lemma deps_lines_set:
  "set (deps_lines lines deps) =
     set deps \<union> {v. is_safe_pkgname v \<and> (\<exists>l \<in> set lines. prefix ''DEP='' l \<and> v = chomp (drop 4 l))}"
  by (induction lines arbitrary: deps) (auto simp: Let_def)

lemma deps_lines_distinct: "distinct deps \<Longrightarrow> distinct (deps_lines lines deps)"
  by (induction lines arbitrary: deps) (auto simp: Let_def)

lemma token_start_le: "token_start line n \<le> n"
  by (induction n) auto

lemma token_start_chars:
  "token_start line n \<le> k \<Longrightarrow> k < n \<Longrightarrow> is_pkg_token_char (line ! k)"
  by (induction n) (auto simp: less_Suc_eq split: if_splits)

lemma token_shape:
  assumes "strstr (drop p line) suf = Some i"
  defines "start \<equiv> token_start line (p + i)"
  shows "\<exists>stem. take (p + i + length suf - start) (drop start line) = stem @ suf
    \<and> list_all is_pkg_token_char stem"
proof -
  have "prefix suf (drop (p + i) line)" "i \<le> length (drop p line)"
    using strstr_Some [OF assms(1)] by (simp_all add: add.commute)
  have start: "start \<le> p + i"
    by (simp add: start_def token_start_le)
  let ?stem = "take (p + i - start) (drop start line)"
  have "take (p + i + length suf - start) (drop start line) = ?stem @ take (length suf) (drop (p + i) line)"
    using start take_add [of "p + i - start" "length suf" "drop start line"] by (simp add: add.commute)
  moreover have "take (length suf) (drop (p + i) line) = suf"
    using \<open>prefix suf (drop (p + i) line)\<close> by (auto simp: prefix_def)
  moreover have "list_all is_pkg_token_char ?stem"
    using token_start_chars [of line "p + i"] by (auto simp: list_all_length start_def)
  ultimately show ?thesis by auto
qed

lemma scan_tokens_shape:
  "t \<in> set (scan_tokens line suf p) \<Longrightarrow> \<exists>stem. t = stem @ suf \<and> list_all is_pkg_token_char stem"
proof (induction line suf p rule: scan_tokens.induct)
  case (1 line suf p)
  show ?case
  proof (cases "strstr (drop p line) suf")
    case None
    with "1.prems" show ?thesis by (subst (asm) scan_tokens.simps) (simp split: if_splits)
  next
    case (Some i)
    let ?start = "token_start line (p + i)"
    let ?tok = "take (p + i + length suf - ?start) (drop ?start line)"
    have "suf \<noteq> []"
      using "1.prems" by (subst (asm) scan_tokens.simps) (auto split: if_splits)
    have "t = ?tok \<or> t \<in> set (scan_tokens line suf (p + i + length suf))"
      using "1.prems" Some by (subst (asm) scan_tokens.simps) (auto simp: Let_def split: if_splits)
    then show ?thesis
      using token_shape [OF Some] "1.IH" [OF \<open>suf \<noteq> []\<close> Some] by auto
  qed
qed

lemma listing_names_fold:
  "set (foldl (\<lambda>names line. foldl add_name names (scan_tokens line suf 0)) acc lines)
     = set acc \<union> (\<Union>l \<in> set lines. set (scan_tokens l suf 0))"
  "distinct acc \<Longrightarrow>
     distinct (foldl (\<lambda>names line. foldl add_name names (scan_tokens line suf 0)) acc lines)"
  by (induction lines arbitrary: acc) (auto simp: foldl_add_name)

lemma listing_names_shape:
  "t \<in> set (listing_names content suf) \<Longrightarrow> \<exists>stem. t = stem @ suf \<and> list_all is_pkg_token_char stem"
  by (auto simp: listing_names_def listing_names_fold dest!: scan_tokens_shape)

lemma listing_names_distinct: "distinct (listing_names content suf)"
  by (simp add: listing_names_def listing_names_fold(2))

text \<open>Readers leave no trace, except the command that fetches a listing.\<close>

lemma emits_readers [emits_intros]:
  "emits P (get_source_url env n)" "emits P (is_adavalinux_root env root)"
  "emits P (read_key_from_file env path key n)" "emits P (get_packager_version env root n)"
  by (auto simp: get_source_url_def is_adavalinux_root_def read_key_from_file_def
      get_packager_version_def intro!: emits_intros)

lemma emits_readers2 [emits_intros]:
  "emits P (read_version_from_file env path n)" "emits P (read_id_from_file env path n)"
  "emits P (read_syspckg_deps env path)" "emits P (is_pkg_installed env root name)"
  by (auto simp: read_version_from_file_def read_id_from_file_def read_syspckg_deps_def
      is_pkg_installed_def intro!: emits_intros)

lemma emits_readers3 [emits_intros]:
  "emits P (get_os_version env root n)" "emits P (get_os_id env root n)"
  "emits P (read_syspckg_info env path a b c)" "emits P (list_local_installed_packages env root)"
  by (auto simp: get_os_version_def get_os_id_def os_release_lookup_def read_syspckg_info_def
      list_local_installed_packages_def intro!: emits_intros)

lemma emits_install_dir_loop [emits_intros]:
  "emits P (install_dir_loop env tmpdir n entries found)"
  by (induction entries arbitrary: found) (auto intro!: emits_intros)

lemma emits_find_install_dir [emits_intros]: "emits P (find_install_dir env tmpdir n)"
  by (auto simp: find_install_dir_def intro!: emits_intros)

lemma emits_collect_remote_tokens [emits_intros]:
  "(\<And>cmd. P (Popen cmd)) \<Longrightarrow> emits P (collect_remote_tokens env url suf)"
  by (auto simp: collect_remote_tokens_def intro!: emits_intros)

lemma emits_list_remote_packages [emits_intros]:
  "(\<And>cmd. P (Popen cmd)) \<Longrightarrow> emits P (list_remote_packages env root)"
  by (auto simp: list_remote_packages_def intro!: emits_intros)

lemma read_key_first:
  assumes "prefix (key @ ''='') line" and "length (before_any [DQ, SQ, CR, LF] (skip_quote (drop (length key + 1) line))) < n"
  shows "read_key_lines (line # rest) key n =
    Some (before_any [DQ, SQ, CR, LF] (skip_quote (drop (length key + 1) line)))"
  using assms by (simp add: Let_def)

lemma read_key_skip:
  "list_all (\<lambda>l. \<not> prefix (key @ ''='') l) before \<Longrightarrow>
    read_key_lines (before @ rest) key n = read_key_lines rest key n"
  by (induction before) auto

lemma before_any_stop:
  "set v \<inter> set cs = {} \<Longrightarrow> c \<in> set cs \<Longrightarrow> before_any cs (v @ c # r) = v"
  by (auto simp: before_any_def takeWhile_append takeWhile_eq_all_conv)

section \<open>Properties\<close>

text \<open>
  Whatever the server sends, the names taken from a listing are distinct, and each is made of
  the characters allowed in a package name followed by the suffix looked for; in particular none
  holds a slash or a character that a shell interprets.
\<close>

theorem remote_tokens_well_formed:
  assumes "result (collect_remote_tokens env url suf) h = Some names"
  shows "distinct names
    \<and> list_all (\<lambda>name. \<exists>stem. name = stem @ suf \<and> list_all is_pkg_token_char stem) names"
proof -
  obtain content where "names = listing_names content suf"
    using assms by (auto simp: collect_remote_tokens_def split: option.splits prod.splits if_splits)
  then show ?thesis
    by (auto simp: list_all_iff listing_names_distinct dest: listing_names_shape)
qed

theorem remote_tokens_well_formed_witness:
  "distinct [''a-1.syspckg'', ''b-2.syspckg'']
    \<and> list_all (\<lambda>name. \<exists>stem. name = stem @ ''.syspckg'' \<and> list_all is_pkg_token_char stem)
        [''a-1.syspckg'', ''b-2.syspckg'']"
  by (rule remote_tokens_well_formed
        [of "listing_env ''<a-1.syspckg> b-2.syspckg a-1.syspckg''" "''http://x/''" _ "[]"]) code_simp

text \<open>
  A dependency list that was read holds each name once, only names that are safe, and exactly
  the safe values of the \<^verbatim>\<open>DEP=\<close> lines of the file.
\<close>

theorem read_syspckg_deps_spec:
  assumes "e_open env h path = Some content"
  shows "\<exists>deps. result (read_syspckg_deps env path) h = Some deps
    \<and> distinct deps \<and> list_all is_safe_pkgname deps
    \<and> set deps = {v. is_safe_pkgname v
        \<and> (\<exists>l. l \<in> set (fgets_lines 255 content) \<and> prefix ''DEP='' l \<and> v = chomp (drop 4 l))}"
  using assms
  by (auto simp: read_syspckg_deps_def deps_lines_distinct deps_lines_set list_all_iff)

theorem read_syspckg_deps_spec_witness:
  "\<exists>deps. result (read_syspckg_deps ((listing_env []) \<lparr>e_open := \<lambda>h p. Some ''DEP=glib''\<rparr>) ''deps'') [] = Some deps
    \<and> distinct deps \<and> list_all is_safe_pkgname deps
    \<and> set deps = {v. is_safe_pkgname v
        \<and> (\<exists>l. l \<in> set (fgets_lines 255 ''DEP=glib'') \<and> prefix ''DEP='' l \<and> v = chomp (drop 4 l))}"
  by (rule read_syspckg_deps_spec) simp

text \<open>
  Reading a key gives back the value that a line \<^verbatim>\<open>KEY="value"\<close> holds, when the value has no
  quote or line break, fits the caller's buffer, and no earlier line has the key.
\<close>

theorem read_key_round_trip:
  assumes "e_open env h path = Some (concat (map (\<lambda>l. l @ [LF]) (before @ (key @ ''='' @ [DQ] @ v @ [DQ]) # later)))"
    and "list_all (\<lambda>l. LF \<notin> set l \<and> NUL \<notin> set l \<and> length l < 255)
           (before @ (key @ ''='' @ [DQ] @ v @ [DQ]) # later)"
    and "list_all (\<lambda>l. \<not> prefix (key @ ''='') (l @ [LF])) before"
    and "set v \<inter> {DQ, SQ, CR, LF} = {}" and "length v < out_sz"
  shows "result (read_key_from_file env path key out_sz) h = Some v"
proof -
  let ?line = "key @ ''='' @ [DQ] @ v @ [DQ]"
  have lines: "fgets_lines 255 (concat (map (\<lambda>l. l @ [LF]) (before @ ?line # later)))
      = map (\<lambda>l. l @ [LF]) before @ (?line @ [LF]) # map (\<lambda>l. l @ [LF]) later"
    using assms(2) by (subst fgets_lines_concat) (auto simp: list_all_iff)
  have skip: "list_all (\<lambda>l. \<not> prefix (key @ ''='') l) (map (\<lambda>l. l @ [LF]) before)"
    using assms(3) by (simp add: list_all_iff)
  have val: "before_any [DQ, SQ, CR, LF] (skip_quote (drop (length key + 1) (?line @ [LF]))) = v"
    using assms(4) before_any_stop [of v "[DQ, SQ, CR, LF]" DQ "[LF]"] by (simp add: skip_quote_def)
  have "read_key_lines ((?line @ [LF]) # map (\<lambda>l. l @ [LF]) later) key out_sz = Some v"
    using read_key_first [of key "?line @ [LF]" out_sz] val assms(5) by simp
  then show ?thesis
    unfolding read_key_from_file_def using assms(1) lines read_key_skip [OF skip] by simp
qed

theorem read_key_round_trip_witness:
  "result (read_key_from_file
     ((listing_env []) \<lparr>e_open := \<lambda>h p. Some (concat (map (\<lambda>l. l @ [LF])
        ([''NAME=x''] @ (''ID'' @ ''='' @ [DQ] @ ''adava'' @ [DQ]) # [])))\<rparr>) ''os-release'' ''ID'' 64) [] = Some ''adava''"
  by (rule read_key_round_trip [where before = "[''NAME=x'']" and later = "[]"]) simp_all

end
