(* ===== verification/Resolve.thy ===== *)
theory Resolve
  imports Metadata
begin

text \<open>
  Which package a selector or an update means, in \<^verbatim>\<open>tools/syspckg-old/main.c\<close>: the newest archive
  of a base name in a directory or on the server, the installed name of a package, the newest
  kernels under \<^verbatim>\<open>/boot\<close>, and the updates of the system, the kernel, the packager and the
  installed packages. The loops select with \<^const>\<open>newest_by\<close> and \<^const>\<open>compare_versions\<close>.
\<close>

section \<open>Archives of a base name\<close>

definition local_candidate :: "string \<Rightarrow> string \<Rightarrow> (string \<times> string) option" where
  "local_candidate base name =
     (let nl = length name; base_len = length base; suffix_len = length ''.syspckg'' in
      if nl \<le> base_len + 1 + suffix_len then None
      else if \<not> prefix base name \<or> name ! base_len \<noteq> CHR ''-'' then None
      else if drop (nl - suffix_len) name \<noteq> ''.syspckg'' then None
      else let ver_len = nl - base_len - 1 - suffix_len in
        if ver_len \<ge> PATH_MAX then None
        else Some (trunc PATH_MAX name, take ver_len (drop (base_len + 1) name)))"

definition newest_name :: "nat \<Rightarrow> (string \<times> string) list \<Rightarrow> string option" where
  "newest_name out_sz candidates =
     (case newest_by compare_versions None candidates of
        None \<Rightarrow> None
      | Some (best_name, best_ver) \<Rightarrow> fits out_sz best_name)"

definition resolve_latest_local :: "env \<Rightarrow> string \<Rightarrow> string \<Rightarrow> nat \<Rightarrow> string option io" where
  "resolve_latest_local env dir base out_sz =
     bind_some (opendir env dir) (\<lambda>entries.
       ret (newest_name out_sz (List.map_filter (local_candidate base) entries)))"

text \<open>
  In a token that ends in \<^verbatim>\<open>.syspckg\<close> the hyphen after the base stands before the suffix, so the
  length of the version does not wrap around (see \<open>remote_version_length\<close>).
\<close>

definition remote_candidate :: "string \<Rightarrow> string \<Rightarrow> (string \<times> string) option" where
  "remote_candidate base name =
     (let base_len = length base; suffix_len = length ''.syspckg'' in
      if prefix (base @ ''-'') name
      then let ver_len = length name - base_len - 1 - suffix_len in
        if ver_len < PATH_MAX then Some (name, take ver_len (drop (base_len + 1) name)) else None
      else None)"

definition resolve_latest_remote :: "env \<Rightarrow> string \<Rightarrow> string \<Rightarrow> nat \<Rightarrow> string option io" where
  "resolve_latest_remote env root base out_sz =
     bind_some (get_os_version env root 64) (\<lambda>version.
       if \<not> is_safe_version version then ret None
       else bind_some (get_source_url env PATH_MAX) (\<lambda>source_url.
         case fits PATH_MAX (source_url @ ''/'' @ version @ ''/packages/'') of
           None \<Rightarrow> ret None
         | Some url \<Rightarrow>
             (case fits (PATH_MAX + 32) (''wget -qO- '' @ url) of
                None \<Rightarrow> ret None
              | Some cmd \<Rightarrow> do {
                  fp \<leftarrow> popen env cmd;
                  ret (case fp of None \<Rightarrow> None
                       | Some (content, _) \<Rightarrow>
                           newest_name out_sz (List.map_filter (remote_candidate base)
                             (concat (map (\<lambda>line. scan_tokens line ''.syspckg'' 0)
                               (fgets_lines 1023 content)))))
                })))"

definition resolve_latest_pkg_dir :: "env \<Rightarrow> string \<Rightarrow> string \<Rightarrow> nat \<Rightarrow> string option io" where
  "resolve_latest_pkg_dir env root base out_sz =
     (case fits PATH_MAX (root @ ''/usr/share/syspckg/packages'') of
        None \<Rightarrow> ret None
      | Some dir \<Rightarrow> resolve_latest_local env dir base out_sz)"

section \<open>The installed name of a package\<close>

text \<open>The loop keeps the best name and version; \<^const>\<open>None\<close> is an empty \<^verbatim>\<open>best_name\<close>.\<close>

definition installed_step ::
  "string \<Rightarrow> (string \<times> string) option \<Rightarrow> string \<Rightarrow> (string \<times> string) option" where
  "installed_step base best name =
     (let nl = length name; base_len = length base; suffix_len = length ''.list'' in
      if nl \<le> base_len + suffix_len then best
      else if \<not> prefix base name then best
      else if drop (nl - suffix_len) name \<noteq> ''.list'' then best
      else if name ! base_len = CHR ''-'' then
        (let ver_len = nl - base_len - 1 - suffix_len in
         if ver_len \<ge> PATH_MAX then best
         else let ver = take ver_len (drop (base_len + 1) name) in
           (case best of None \<Rightarrow> Some (trunc PATH_MAX name, ver)
            | Some (bn, bv) \<Rightarrow>
                if compare_versions ver bv > 0 then Some (trunc PATH_MAX name, ver) else best))
      else if name ! base_len = CHR ''.'' \<and> best = None then Some (trunc PATH_MAX name, [])
      else best)"

definition resolve_latest_installed :: "env \<Rightarrow> string \<Rightarrow> string \<Rightarrow> nat \<Rightarrow> string option io" where
  "resolve_latest_installed env root base out_sz =
     (case fits PATH_MAX (root @ ''/var/lib/syspckg/installed'') of
        None \<Rightarrow> ret None
      | Some dir \<Rightarrow>
          bind_some (opendir env dir) (\<lambda>entries.
            ret (case foldl (installed_step base) None entries of
                   None \<Rightarrow> None
                 | Some (best_name, _) \<Rightarrow>
                     let suffix_len = length ''.list'' in
                     if length best_name \<le> suffix_len then None
                     else fits out_sz (take (length best_name - suffix_len) best_name))))"

section \<open>Boot files\<close>

text \<open>The two strings are \<^verbatim>\<open>latest\<close> and \<^verbatim>\<open>previous\<close>; both start empty.\<close>

definition boot_step ::
  "string \<Rightarrow> string \<Rightarrow> nat \<Rightarrow> nat \<Rightarrow> string \<times> string \<Rightarrow> string \<Rightarrow> string \<times> string" where
  "boot_step pre suf latest_sz previous_sz best name =
     (let (latest, previous) = best;
          name_len = length name; prefix_len = length pre; suffix_len = length suf in
      if name_len \<le> prefix_len + suffix_len \<or> \<not> prefix pre name
         \<or> drop (name_len - suffix_len) name \<noteq> suf
      then best
      else
        let ver_len = name_len - prefix_len - suffix_len in
        if ver_len = 0 \<or> ver_len \<ge> 128 then best
        else
          let ver = take ver_len (drop prefix_len name) in
          if \<not> is_safe_version ver then best
          else if latest = [] \<or> compare_versions ver latest > 0
          then (trunc latest_sz ver, if latest \<noteq> [] then trunc previous_sz latest else previous)
          else if ver \<noteq> latest \<and> (previous = [] \<or> compare_versions ver previous > 0)
          then (latest, trunc previous_sz ver)
          else best)"

definition latest_boot_version ::
  "env \<Rightarrow> string \<Rightarrow> string \<Rightarrow> string \<Rightarrow> nat \<Rightarrow> nat \<Rightarrow> (string \<times> string) option io" where
  "latest_boot_version env root pre suf latest_sz previous_sz =
     (case fits PATH_MAX (root @ ''/boot'') of
        None \<Rightarrow> ret None
      | Some dir_path \<Rightarrow>
          bind_some (opendir env dir_path) (\<lambda>entries.
            let (latest, previous) = foldl (boot_step pre suf latest_sz previous_sz) ([], []) entries in
            ret (if latest \<noteq> [] then Some (latest, previous) else None)))"

section \<open>Updates\<close>

definition prefixed_candidate :: "string \<Rightarrow> string \<Rightarrow> (string \<times> string) option" where
  "prefixed_candidate pre name =
     map_option (Pair name) (version_from_prefixed_pkg name pre ''.syspckg'' PATH_MAX)"

definition select_latest_prefixed_pkg :: "env \<Rightarrow> string \<Rightarrow> string \<Rightarrow> nat \<Rightarrow> string option io" where
  "select_latest_prefixed_pkg env url pre out_sz =
     bind_some (collect_remote_tokens env url ''.syspckg'') (\<lambda>names.
       ret (newest_name out_sz (List.map_filter (prefixed_candidate pre) names)))"

text \<open>
  The result of a check: \<^verbatim>\<open>-1\<close>, 1 with the remote and the local version, or 0 with the URL of
  the update and the two versions.
\<close>

datatype update_result =
  UpdateError | UpToDate string string | UpdateAvailable string string string

definition system_candidate :: "string \<Rightarrow> string \<Rightarrow> string option" where
  "system_candidate current name =
     (case strip_trailing_slash name 64 of None \<Rightarrow> None
      | Some ver \<Rightarrow>
          if \<not> is_safe_version ver then None
          else if ver = ''kernel'' \<or> ver = ''packages'' \<or> ver = ''packager'' then None
          else if compare_versions ver current \<le> 0 then None
          else Some ver)"

definition resolve_latest_system_update :: "env \<Rightarrow> string \<Rightarrow> nat \<Rightarrow> nat \<Rightarrow> update_result io" where
  "resolve_latest_system_update env root out_url_sz out_version_sz = do {
     current \<leftarrow> get_os_version env root 64;
     (case current of None \<Rightarrow> ret UpdateError
      | Some current_version \<Rightarrow>
          if \<not> is_safe_version current_version then ret UpdateError
          else do {
            src \<leftarrow> get_source_url env PATH_MAX;
            (case src of None \<Rightarrow> ret UpdateError
             | Some source_url \<Rightarrow>
                 (case join_url2 source_url [] PATH_MAX of None \<Rightarrow> ret UpdateError
                  | Some versions_url \<Rightarrow> do {
                      names \<leftarrow> collect_remote_tokens env versions_url ''/'';
                      ret (case names of None \<Rightarrow> UpdateError
                           | Some ns \<Rightarrow>
                               (case newest_by compare_versions None
                                       (map (\<lambda>v. (v, v))
                                         (List.map_filter (system_candidate current_version) ns)) of
                                  None \<Rightarrow> UpToDate [] current_version
                                | Some (best, _) \<Rightarrow>
                                    if length best \<ge> out_version_sz then UpdateError
                                    else (case fits out_url_sz
                                            (source_url @ ''/'' @ best @ ''/adavalinux-'' @ best @ ''.syspckg'') of
                                            None \<Rightarrow> UpdateError
                                          | Some url \<Rightarrow> UpdateAvailable url best current_version)))
                    }))
          })
   }"

definition resolve_latest_kernel_update ::
  "env \<Rightarrow> string \<Rightarrow> nat \<Rightarrow> nat \<Rightarrow> nat \<Rightarrow> update_result io" where
  "resolve_latest_kernel_update env root out_url_sz out_remote_version_sz out_local_version_sz = do {
     found \<leftarrow>
       bind_some (get_source_url env PATH_MAX) (\<lambda>source_url.
         case join_url2 source_url ''kernel/'' PATH_MAX of None \<Rightarrow> ret None
         | Some kernel_url \<Rightarrow>
             bind_some (select_latest_prefixed_pkg env kernel_url ''kernel-'' PATH_MAX) (\<lambda>best_name.
               ret (case version_from_prefixed_pkg best_name ''kernel-'' ''.syspckg'' 128 of
                      None \<Rightarrow> None
                    | Some remote \<Rightarrow>
                        if length remote \<ge> out_remote_version_sz then None
                        else Some (kernel_url, best_name, remote))));
     (case found of None \<Rightarrow> ret UpdateError
      | Some (kernel_url, best_name, remote_version) \<Rightarrow> do {
          boot \<leftarrow> latest_boot_version env root ''vmlinuz-'' [] 128 128;
          ret (case boot of
                 Some (local_version, _) \<Rightarrow>
                   if length local_version \<ge> out_local_version_sz then UpdateError
                   else if compare_versions remote_version local_version \<le> 0
                   then UpToDate remote_version local_version
                   else (case fits out_url_sz (kernel_url @ best_name) of None \<Rightarrow> UpdateError
                         | Some url \<Rightarrow> UpdateAvailable url remote_version local_version)
               | None \<Rightarrow>
                   (case fits out_url_sz (kernel_url @ best_name) of None \<Rightarrow> UpdateError
                    | Some url \<Rightarrow> UpdateAvailable url remote_version []))
        })
   }"

definition resolve_latest_packager_update ::
  "env \<Rightarrow> string \<Rightarrow> nat \<Rightarrow> nat \<Rightarrow> nat \<Rightarrow> update_result io" where
  "resolve_latest_packager_update env root out_url_sz out_remote_version_sz out_local_version_sz = do {
     found \<leftarrow>
       bind_some (get_os_version env root 64) (\<lambda>version.
         if \<not> is_safe_version version then ret None
         else bind_some (get_packager_version env root 64) (\<lambda>local_version.
           bind_some (get_source_url env PATH_MAX) (\<lambda>source_url.
             case fits PATH_MAX (version @ ''/packager/'') of None \<Rightarrow> ret None
             | Some packager_part \<Rightarrow>
                 (case join_url2 source_url packager_part PATH_MAX of None \<Rightarrow> ret None
                  | Some packager_url \<Rightarrow>
                      bind_some (select_latest_prefixed_pkg env packager_url ''syspckg-'' PATH_MAX)
                        (\<lambda>best_name. ret (Some (packager_url, best_name, local_version)))))));
     ret (case found of None \<Rightarrow> UpdateError
          | Some (packager_url, best_name, local_version) \<Rightarrow>
              (case version_from_prefixed_pkg best_name ''syspckg-'' ''.syspckg'' 64 of
                 None \<Rightarrow> UpdateError
               | Some remote_version \<Rightarrow>
                   if length remote_version \<ge> out_remote_version_sz
                      \<or> length local_version \<ge> out_local_version_sz then UpdateError
                   else if compare_versions remote_version local_version \<le> 0
                   then UpToDate remote_version local_version
                   else (case fits out_url_sz (packager_url @ best_name) of None \<Rightarrow> UpdateError
                         | Some url \<Rightarrow> UpdateAvailable url remote_version local_version)))
   }"

section \<open>Updates of the installed packages\<close>

record installed_pkg =
  i_base :: string
  i_installed_name :: string
  i_installed_version :: string

definition installed_update_item :: "string \<Rightarrow> installed_pkg option" where
  "installed_update_item entry =
     (if \<not> has_suffix entry ''.list'' then None
      else case strip_list_suffix entry PATH_MAX of None \<Rightarrow> None
      | Some installed_name \<Rightarrow>
          (case selector_base_without_version installed_name PATH_MAX of None \<Rightarrow> None
           | Some base \<Rightarrow>
               (case version_from_install_name installed_name base PATH_MAX of None \<Rightarrow> None
                | Some ver \<Rightarrow>
                    Some \<lparr>i_base = base, i_installed_name = installed_name, i_installed_version = ver\<rparr>)))"

definition collect_installed_update_packages :: "env \<Rightarrow> string \<Rightarrow> installed_pkg list option io" where
  "collect_installed_update_packages env root =
     (case fits PATH_MAX (root @ ''/var/lib/syspckg/installed'') of
        None \<Rightarrow> ret None
      | Some dir \<Rightarrow>
          bind_some (opendir env dir) (\<lambda>entries.
            ret (Some (List.map_filter installed_update_item entries))))"

definition installed_for_update :: "string \<Rightarrow> string \<Rightarrow> string option" where
  "installed_for_update wanted_base entry =
     (if \<not> has_suffix entry ''.list'' then None
      else case strip_list_suffix entry PATH_MAX of None \<Rightarrow> None
      | Some installed_name \<Rightarrow>
          if selector_base_without_version installed_name PATH_MAX = Some wanted_base
          then Some installed_name else None)"

text \<open>
  \<^verbatim>\<open>find_installed_package_for_update\<close> returns 0 with an empty name, 1 with the name, or \<^verbatim>\<open>-1\<close>
  when the name does not fit.
\<close>

datatype find_result = FindError | NotFound | Found string

definition find_installed_package_for_update :: "env \<Rightarrow> string \<Rightarrow> string \<Rightarrow> nat \<Rightarrow> find_result io" where
  "find_installed_package_for_update env root install_name out_sz =
     (case (selector_base_without_version install_name PATH_MAX,
            fits PATH_MAX (root @ ''/var/lib/syspckg/installed'')) of
        (Some wanted_base, Some dir) \<Rightarrow> do {
          d \<leftarrow> opendir env dir;
          ret (case d of None \<Rightarrow> NotFound
               | Some entries \<Rightarrow>
                   (case newest_by compare_versions None
                           (map (\<lambda>n. (n, n)) (List.map_filter (installed_for_update wanted_base) entries)) of
                      None \<Rightarrow> NotFound
                    | Some (best, _) \<Rightarrow> if length best < out_sz then Found best else FindError))
        }
      | _ \<Rightarrow> ret NotFound)"

definition update_candidate :: "string \<Rightarrow> string \<Rightarrow> (string \<times> string) option" where
  "update_candidate base name =
     (let name_len = length name; base_len = length base; suffix_len = length ''.syspckg'' in
      if name_len \<le> base_len + 1 + suffix_len \<or> \<not> prefix base name
         \<or> name ! base_len \<noteq> CHR ''-'' \<or> drop (name_len - suffix_len) name \<noteq> ''.syspckg''
      then None
      else let ver_len = name_len - base_len - 1 - suffix_len in
        if ver_len = 0 \<or> ver_len \<ge> PATH_MAX then None
        else let ver = take ver_len (drop (base_len + 1) name) in
          if is_safe_version ver then Some (trunc PATH_MAX name, ver) else None)"

datatype remote_update = RemoteError | RemoteNone | RemoteNewer string string

definition find_remote_update_for_installed ::
  "string list \<Rightarrow> installed_pkg \<Rightarrow> nat \<Rightarrow> nat \<Rightarrow> remote_update" where
  "find_remote_update_for_installed remote_names installed out_name_sz out_version_sz =
     (case newest_by compare_versions None
             (List.map_filter (update_candidate (i_base installed)) remote_names) of
        None \<Rightarrow> RemoteNone
      | Some (best_name, best_ver) \<Rightarrow>
          if length best_name \<ge> out_name_sz \<or> length best_ver \<ge> out_version_sz then RemoteError
          else if compare_versions best_ver (i_installed_version installed) > 0
          then RemoteNewer best_name best_ver
          else RemoteNone)"

fun update_urls :: "string \<Rightarrow> string list \<Rightarrow> installed_pkg list \<Rightarrow> string list \<Rightarrow> string list option" where
  "update_urls packages_url remote_names [] urls = Some urls"
| "update_urls packages_url remote_names (p # ps) urls =
     (case find_remote_update_for_installed remote_names p PATH_MAX PATH_MAX of
        RemoteError \<Rightarrow> None
      | RemoteNone \<Rightarrow> update_urls packages_url remote_names ps urls
      | RemoteNewer remote_name remote_version \<Rightarrow>
          (case fits PATH_MAX (packages_url @ remote_name) of
             None \<Rightarrow> None
           | Some url \<Rightarrow> update_urls packages_url remote_names ps (urls @ [url])))"

definition check_all_updates_from_manifest :: "env \<Rightarrow> string \<Rightarrow> string list option io" where
  "check_all_updates_from_manifest env root =
     bind_some (get_os_version env root 64) (\<lambda>version.
       if \<not> is_safe_version version then ret None
       else bind_some (get_source_url env PATH_MAX) (\<lambda>source_url.
         case fits PATH_MAX (version @ ''/packages/'') of None \<Rightarrow> ret None
         | Some packages_part \<Rightarrow>
             (case join_url2 source_url packages_part PATH_MAX of None \<Rightarrow> ret None
              | Some packages_url \<Rightarrow>
                  bind_some (collect_installed_update_packages env root) (\<lambda>installed.
                  bind_some (collect_remote_tokens env packages_url ''.syspckg'') (\<lambda>remote_names.
                    ret (update_urls packages_url remote_names installed []))))))"

section \<open>Lemmas\<close>

lemma map_filter_set: "set (List.map_filter f xs) = {y. \<exists>x \<in> set xs. f x = Some y}"
  by (induction xs) (auto simp: List.map_filter_simps split: option.splits)

lemma map_filter_Nil_iff: "List.map_filter f xs = [] \<longleftrightarrow> (\<forall>x \<in> set xs. f x = None)"
  by (induction xs) (auto simp: List.map_filter_simps split: option.splits)

text \<open>Names of the form base, hyphen, version, suffix.\<close>

lemma versioned_name_iff:
  "length base + 1 + length suf < length name \<and> prefix base name \<and> name ! length base = CHR ''-''
     \<and> drop (length name - length suf) name = suf
     \<and> v = take (length name - length base - 1 - length suf) (drop (length base + 1) name)
   \<longleftrightarrow> name = base @ ''-'' @ v @ suf \<and> v \<noteq> []" (is "?L \<longleftrightarrow> ?R")
proof
  assume ?L
  then obtain r where r: "name = base @ r" by (auto simp: prefix_def)
  with \<open>?L\<close> obtain t where t: "r = CHR ''-'' # t" by (cases r) (auto simp: nth_append)
  have len: "length suf < length t" using \<open>?L\<close> r t by simp
  have "drop (length name - length suf) name = drop (length t - length suf) t"
    using len r t by (simp add: Suc_diff_le)
  with \<open>?L\<close> have "t = take (length t - length suf) t @ suf"
    by (metis append_take_drop_id)
  moreover have "v = take (length t - length suf) t" using \<open>?L\<close> r t by simp
  ultimately show ?R using r t len by auto
next
  assume ?R
  then show ?L by (cases v) (auto simp: nth_append)
qed

lemma local_candidate_Some:
  "local_candidate base name = Some (n, v) \<longleftrightarrow>
     name = base @ ''-'' @ v @ ''.syspckg'' \<and> v \<noteq> [] \<and> length v < PATH_MAX \<and> n = trunc PATH_MAX name"
proof -
  have "local_candidate base name = Some (n, v) \<longleftrightarrow>
    (length base + 1 + length ''.syspckg'' < length name \<and> prefix base name \<and> name ! length base = CHR ''-''
     \<and> drop (length name - length ''.syspckg'') name = ''.syspckg''
     \<and> v = take (length name - length base - 1 - length ''.syspckg'') (drop (length base + 1) name))
    \<and> length name - length base - 1 - length ''.syspckg'' < PATH_MAX \<and> n = trunc PATH_MAX name"
    unfolding local_candidate_def Let_def by auto
  then show ?thesis
    unfolding versioned_name_iff by auto
qed

lemma update_candidate_Some:
  "update_candidate base name = Some (n, v) \<longleftrightarrow>
     name = base @ ''-'' @ v @ ''.syspckg'' \<and> length v < PATH_MAX \<and> is_safe_version v
     \<and> n = trunc PATH_MAX name"
proof -
  have "update_candidate base name = Some (n, v) \<longleftrightarrow>
    (length base + 1 + length ''.syspckg'' < length name \<and> prefix base name \<and> name ! length base = CHR ''-''
     \<and> drop (length name - length ''.syspckg'') name = ''.syspckg''
     \<and> v = take (length name - length base - 1 - length ''.syspckg'') (drop (length base + 1) name))
    \<and> length name - length base - 1 - length ''.syspckg'' < PATH_MAX \<and> is_safe_version v
    \<and> n = trunc PATH_MAX name"
    unfolding update_candidate_def Let_def by auto
  then show ?thesis
    unfolding versioned_name_iff by (auto simp: is_safe_version_def)
qed

lemma newest_name_Some:
  assumes "newest_name n cands = Some name"
  shows "\<exists>v. (name, v) \<in> set cands \<and> (\<forall>(m, u) \<in> set cands. 0 \<le> compare_versions v u)"
  using assms cv.newest_by_max [of cands]
  by (auto simp: newest_name_def split: option.splits)

lemma newest_name_None:
  assumes "newest_name n cands = None" and "\<forall>(m, u) \<in> set cands. length m < n"
  shows "cands = []"
proof (rule ccontr)
  assume "cands \<noteq> []"
  then obtain m u where *: "newest_by compare_versions None cands = Some (m, u)"
    using cv.newest_by_empty [of cands] by auto
  with cv.newest_by_max [OF *] assms show False
    by (auto simp: newest_name_def)
qed

text \<open>In a token of the listing the version cannot have a negative length.\<close>

lemma remote_version_length:
  assumes "prefix (base @ ''-'') (stem @ ''.syspckg'')"
  shows "length base + 1 + length ''.syspckg'' \<le> length (stem @ ''.syspckg'')"
proof (rule ccontr)
  assume "\<not> ?thesis"
  then have "length stem \<le> length base" by simp
  moreover obtain zs where "stem @ ''.syspckg'' = base @ ''-'' @ zs"
    using assms by (auto simp: prefix_def)
  then have "(stem @ ''.syspckg'') ! length base = CHR ''-''"
    and "length base < length (stem @ ''.syspckg'')"
    by (simp_all only: nth_append_length append_Cons length_append) simp_all
  ultimately have "''.syspckg'' ! (length base - length stem) = CHR ''-''"
    and "length base - length stem < length ''.syspckg''"
    by (auto simp: nth_append)
  then have "CHR ''-'' \<in> set ''.syspckg''"
    by (metis nth_mem)
  then show False by simp
qed

text \<open>Readers that leave the history alone.\<close>

lemma emits_nothing: "(\<And>P. emits P m) \<Longrightarrow> after m h = h"
  using emits_after [of "\<lambda>_. False" m h] by (auto simp: list_all_iff)

lemma after_readers [simp]:
  "after (get_os_version env root n) h = h"
  "after (get_source_url env n) h = h"
  "after (get_packager_version env root n) h = h"
  by (rule emits_nothing, rule emits_intros)+

lemma result_bind_some:
  "result (bind_some m k) h = (case result m h of None \<Rightarrow> None | Some v \<Rightarrow> result (k v) (after m h))"
  by (simp add: bind_some_def split: option.split)

lemma after_bind_some:
  "after (bind_some m k) h = (case result m h of None \<Rightarrow> after m h | Some v \<Rightarrow> after (k v) (after m h))"
  by (simp add: bind_some_def split: option.split)

lemma installed_update_item_Some:
  assumes "installed_update_item entry = Some p"
  shows "entry = i_base p @ ''-'' @ i_installed_version p @ ''.list''
    \<and> i_installed_name p = i_base p @ ''-'' @ i_installed_version p"
proof -
  obtain name base ver where *: "strip_list_suffix entry PATH_MAX = Some name"
    "version_from_install_name name base PATH_MAX = Some ver"
    "p = \<lparr>i_base = base, i_installed_name = name, i_installed_version = ver\<rparr>"
    using assms by (auto simp: installed_update_item_def split: if_splits option.splits)
  have "entry = name @ ''.list''"
    using *(1) by (simp add: strip_list_suffix_Some)
  moreover have "name = base @ ''-'' @ ver"
  proof -
    have g: "length base + 1 < length name" "prefix base name" "name ! length base = CHR ''-''"
      "ver = take (length name - length base - 1) (drop (length base + 1) name)"
      using *(2) by (auto simp: version_from_install_name_def Let_def split: if_splits)
    then obtain r where "name = base @ r" by (auto simp: prefix_def)
    with g show ?thesis by (cases r) (auto simp: nth_append)
  qed
  ultimately show ?thesis using *(3) by simp
qed

lemma find_remote_newer:
  assumes "find_remote_update_for_installed remote p n m = RemoteNewer name v"
  shows "0 < compare_versions v (i_installed_version p)
    \<and> (\<exists>r \<in> set remote. r = i_base p @ ''-'' @ v @ ''.syspckg'' \<and> name = trunc PATH_MAX r)"
proof -
  have best: "newest_by compare_versions None
      (List.map_filter (update_candidate (i_base p)) remote) = Some (name, v)"
    and "0 < compare_versions v (i_installed_version p)"
    using assms by (auto simp: find_remote_update_for_installed_def split: option.splits if_splits)
  from cv.newest_by_max [OF best] obtain r where "r \<in> set remote"
    "update_candidate (i_base p) r = Some (name, v)"
    by (auto simp: map_filter_set)
  with \<open>0 < compare_versions v (i_installed_version p)\<close> show ?thesis
    by (auto simp: update_candidate_Some)
qed

definition newer_url :: "string \<Rightarrow> installed_pkg list \<Rightarrow> string \<Rightarrow> bool" where
  "newer_url packages_url installed url \<longleftrightarrow>
     (\<exists>p v. p \<in> set installed \<and> 0 < compare_versions v (i_installed_version p)
        \<and> url = packages_url @ trunc PATH_MAX (i_base p @ ''-'' @ v @ ''.syspckg''))"

lemma update_urls_newer:
  assumes "update_urls packages_url remote ps urls = Some out"
    and "set ps \<subseteq> set installed" and "list_all (newer_url packages_url installed) urls"
  shows "list_all (newer_url packages_url installed) out"
  using assms
proof (induction ps arbitrary: urls)
  case (Cons p ps)
  show ?case
  proof (cases "find_remote_update_for_installed remote p PATH_MAX PATH_MAX")
    case (RemoteNewer name v)
    with find_remote_newer [OF RemoteNewer] Cons.prems(2)
    have "newer_url packages_url installed (packages_url @ name)"
      by (auto simp: newer_url_def)
    with Cons RemoteNewer show ?thesis by (auto split: option.splits)
  qed (use Cons in auto)
qed simp

text \<open>The newest boot version by the reference selection.\<close>

definition boot_candidate :: "string \<Rightarrow> string \<Rightarrow> string \<Rightarrow> string option" where
  "boot_candidate pre suf name =
     (let ver_len = length name - length pre - length suf; ver = take ver_len (drop (length pre) name) in
      if length pre + length suf < length name \<and> prefix pre name
         \<and> drop (length name - length suf) name = suf \<and> ver_len < 128 \<and> is_safe_version ver
      then Some ver else None)"

lemma boot_step_candidate:
  "boot_step pre suf 128 128 (latest, previous) name =
     (case boot_candidate pre suf name of None \<Rightarrow> (latest, previous)
      | Some ver \<Rightarrow>
          if latest = [] \<or> compare_versions ver latest > 0
          then (ver, if latest \<noteq> [] then trunc 128 latest else previous)
          else if ver \<noteq> latest \<and> (previous = [] \<or> compare_versions ver previous > 0)
          then (latest, ver) else (latest, previous))"
  by (auto simp: boot_step_def boot_candidate_def Let_def)

lemma boot_candidate_not_Nil: "boot_candidate pre suf name = Some ver \<Longrightarrow> ver \<noteq> []"
  by (auto simp: boot_candidate_def Let_def is_safe_version_def split: if_splits)

definition best_of :: "string \<Rightarrow> (string \<times> string) option" where
  "best_of latest = (if latest = [] then None else Some (latest, latest))"

lemma boot_step_best:
  "boot_candidate pre suf name = Some ver \<Longrightarrow>
    best_of (fst (boot_step pre suf 128 128 (latest, previous) name)) =
      (case best_of latest of None \<Rightarrow> Some (ver, ver)
       | Some (bn, bv) \<Rightarrow> if compare_versions ver bv > 0 then Some (ver, ver) else best_of latest)"
  using boot_candidate_not_Nil [of pre suf name ver] by (simp add: boot_step_candidate best_of_def)

lemma boot_fold_newest:
  "best_of (fst (foldl (boot_step pre suf 128 128) (latest, previous) entries)) =
     newest_by compare_versions (best_of latest)
       (map (\<lambda>v. (v, v)) (List.map_filter (boot_candidate pre suf) entries))"
proof (induction entries arbitrary: latest previous)
  case (Cons name entries)
  show ?case
  proof (cases "boot_candidate pre suf name")
    case None
    with Cons show ?thesis by (simp add: boot_step_candidate List.map_filter_simps)
  next
    case (Some ver)
    obtain l p where step: "boot_step pre suf 128 128 (latest, previous) name = (l, p)"
      by (cases "boot_step pre suf 128 128 (latest, previous) name")
    from boot_step_best [OF Some, of latest previous] Some Cons.IH [of l p] step show ?thesis
      by (simp add: List.map_filter_simps)
  qed
qed (simp add: List.map_filter_simps)

lemma local_candidates_mem:
  assumes "\<And>e. e \<in> set entries \<Longrightarrow> length e < PATH_MAX"
  shows "(m, u) \<in> set (List.map_filter (local_candidate base) entries) \<longleftrightarrow>
    m \<in> set entries \<and> m = base @ ''-'' @ u @ ''.syspckg'' \<and> u \<noteq> []"
proof -
  let ?x = "base @ ''-'' @ u @ ''.syspckg''"
  have "(m, u) \<in> set (List.map_filter (local_candidate base) entries) \<longleftrightarrow>
      ?x \<in> set entries \<and> u \<noteq> [] \<and> length u < PATH_MAX \<and> m = trunc PATH_MAX ?x"
    by (auto simp only: map_filter_set local_candidate_Some mem_Collect_eq bex_simps)
  moreover have "length u < PATH_MAX \<and> trunc PATH_MAX ?x = ?x" if "?x \<in> set entries"
    using assms [OF that] by simp
  ultimately show ?thesis by metis
qed

section \<open>Properties\<close>

definition archive_of :: "string \<Rightarrow> string \<Rightarrow> bool" where
  "archive_of base name \<longleftrightarrow> (\<exists>v. v \<noteq> [] \<and> name = base @ ''-'' @ v @ ''.syspckg'')"

definition newest_archive :: "string \<Rightarrow> string list \<Rightarrow> string \<Rightarrow> bool" where
  "newest_archive base entries name \<longleftrightarrow>
     (\<exists>v. v \<noteq> [] \<and> name = base @ ''-'' @ v @ ''.syspckg'' \<and> name \<in> set entries
        \<and> (\<forall>u. u \<noteq> [] \<and> base @ ''-'' @ u @ ''.syspckg'' \<in> set entries \<longrightarrow> 0 \<le> compare_versions v u))"

text \<open>
  In a directory of names shorter than \<^verbatim>\<open>PATH_MAX\<close>, \<^verbatim>\<open>resolve_latest_local\<close> finds an archive of
  the base whose version no other archive of the base exceeds, and fails only when the directory
  holds none.
\<close>

theorem resolve_latest_local_newest:
  assumes "e_opendir env h dir = Some entries" and "list_all (\<lambda>e. length e < PATH_MAX) entries"
    and "PATH_MAX \<le> out_sz"
  shows "case result (resolve_latest_local env dir base out_sz) h of
           Some name \<Rightarrow> newest_archive base entries name
         | None \<Rightarrow> filter (archive_of base) entries = []"
proof -
  let ?cands = "List.map_filter (local_candidate base) entries"
  have short: "length e < PATH_MAX" if "e \<in> set entries" for e
    using assms(2) that by (simp add: list_all_iff)
  have mem: "(m, u) \<in> set ?cands \<longleftrightarrow> m \<in> set entries \<and> m = base @ ''-'' @ u @ ''.syspckg'' \<and> u \<noteq> []" for m u
    by (rule local_candidates_mem [OF short])
  have res: "result (resolve_latest_local env dir base out_sz) h = newest_name out_sz ?cands"
    using assms(1) by (simp add: resolve_latest_local_def result_bind_some)
  show ?thesis
  proof (cases "newest_name out_sz ?cands")
    case None
    have "\<forall>(m, u) \<in> set ?cands. length m < out_sz"
    proof (clarify)
      fix m u
      assume "(m, u) \<in> set ?cands"
      then have "length m < PATH_MAX" using mem short by blast
      with assms(3) show "length m < out_sz" by linarith
    qed
    with None have "?cands = []" by (rule newest_name_None)
    with mem have "e \<in> set entries \<Longrightarrow> \<not> archive_of base e" for e
      unfolding archive_of_def by (metis empty_iff list.set(1))
    then show ?thesis
      using None res by (simp add: filter_empty_conv)
  next
    case (Some name)
    from newest_name_Some [OF Some] obtain v where v: "(name, v) \<in> set ?cands"
      "\<forall>(m, u) \<in> set ?cands. 0 \<le> compare_versions v u" by blast
    then have "newest_archive base entries name"
      unfolding newest_archive_def mem by (intro exI [of _ v]) (auto simp: mem)
    with Some res show ?thesis by simp
  qed
qed

theorem resolve_latest_local_newest_witness:
  "case result (resolve_latest_local
       ((listing_env []) \<lparr>e_opendir := \<lambda>h d. Some [''a-1.9.syspckg'', ''a-1.10.syspckg'', ''b-2.syspckg'']\<rparr>)
       ''.'' ''a'' PATH_MAX) [] of
     Some name \<Rightarrow> newest_archive ''a'' [''a-1.9.syspckg'', ''a-1.10.syspckg'', ''b-2.syspckg''] name
   | None \<Rightarrow> filter (archive_of ''a'') [''a-1.9.syspckg'', ''a-1.10.syspckg'', ''b-2.syspckg''] = []"
  by (rule resolve_latest_local_newest) simp_all

lemma system_candidate_newer: "system_candidate cur name = Some v \<Longrightarrow> 0 < compare_versions v cur"
  by (auto simp: system_candidate_def split: option.splits if_splits)

lemma system_update_Available:
  assumes "result (resolve_latest_system_update env root a b) h = UpdateAvailable url remote local"
  shows "\<exists>ns x. newest_by compare_versions None
    (map (\<lambda>v. (v, v)) (List.map_filter (system_candidate local) ns)) = Some (remote, x)"
  using assms unfolding resolve_latest_system_update_def
  by (auto split: option.splits if_splits prod.splits)

lemma kernel_update_Available:
  assumes "result (resolve_latest_kernel_update env root a b c) h = UpdateAvailable url remote local"
  shows "local = [] \<or> 0 < compare_versions remote local"
  using assms unfolding resolve_latest_kernel_update_def
  by (auto split: option.splits if_splits prod.splits)

lemma packager_update_Available:
  assumes "result (resolve_latest_packager_update env root a b c) h = UpdateAvailable url remote local"
  shows "0 < compare_versions remote local"
  using assms unfolding resolve_latest_packager_update_def
  by (auto split: option.splits if_splits prod.splits)

text \<open>
  No update check offers a version that is not newer: when the check of the system, the kernel
  or the packager reports an available update, its version compares greater than the local one
  (there is no local version only when no kernel is installed).
\<close>

theorem updates_never_downgrade:
  assumes "UpdateAvailable url remote local \<in>
    {result (resolve_latest_system_update env root a b) h,
     result (resolve_latest_kernel_update env root a b c) h,
     result (resolve_latest_packager_update env root a b c) h}"
  shows "local = [] \<or> 0 < compare_versions remote local"
proof -
  consider (sys) "result (resolve_latest_system_update env root a b) h = UpdateAvailable url remote local"
    | (kern) "result (resolve_latest_kernel_update env root a b c) h = UpdateAvailable url remote local"
    | (pack) "result (resolve_latest_packager_update env root a b c) h = UpdateAvailable url remote local"
    using assms unfolding insert_iff empty_iff by metis
  then show ?thesis
  proof cases
    case sys
    from system_update_Available [OF this] obtain ns x where best:
      "newest_by compare_versions None
         (map (\<lambda>v. (v, v)) (List.map_filter (system_candidate local) ns)) = Some (remote, x)"
      by blast
    from cv.newest_by_max [OF this] have "remote \<in> set (List.map_filter (system_candidate local) ns)"
      by (auto simp only: set_map)
    then show ?thesis
      using system_candidate_newer unfolding map_filter_set by blast
  next
    case kern
    then show ?thesis by (rule kernel_update_Available)
  next
    case pack
    from packager_update_Available [OF this] show ?thesis by simp
  qed
qed

definition release_env :: "string \<Rightarrow> env" where
  "release_env listing =
     (listing_env listing) \<lparr>e_open := \<lambda>h p. if p = ''/etc/os-release'' then Some ''VERSION=1.2'' else None\<rparr>"

lemma release_update:
  "result (resolve_latest_system_update (release_env ''1.1/ 1.10/ kernel/'') [] 4096 64) [] =
     UpdateAvailable (DEFAULT_SOURCE_URL @ ''/1.10/adavalinux-1.10.syspckg'') ''1.10'' ''1.2''"
  by code_simp

theorem updates_never_downgrade_witness:
  "''1.2'' = [] \<or> 0 < compare_versions ''1.10'' ''1.2''"
  by (rule updates_never_downgrade [where env = "release_env ''1.1/ 1.10/ kernel/''"
        and url = "DEFAULT_SOURCE_URL @ ''/1.10/adavalinux-1.10.syspckg''"
        and root = "[]" and a = 4096 and b = 64 and c = 64 and h = "[]"])
     (simp only: release_update insert_iff simp_thms)

text \<open>
  Every URL that \<^verbatim>\<open>update --all\<close> collects names, under one packages directory, an archive of an
  installed package whose version is greater than the installed one.
\<close>

theorem all_updates_newer:
  assumes "result (check_all_updates_from_manifest env root) h = Some urls"
    and "e_opendir env h (root @ ''/var/lib/syspckg/installed'') = Some entries"
  shows "\<exists>packages_url. list_all
    (newer_url packages_url (List.map_filter installed_update_item entries)) urls"
proof -
  obtain packages_url remote where
    "update_urls packages_url remote (List.map_filter installed_update_item entries) [] = Some urls"
    using assms
    by (auto simp: check_all_updates_from_manifest_def result_bind_some
        collect_installed_update_packages_def split: option.splits if_splits)
  from update_urls_newer [OF this subset_refl] show ?thesis by auto
qed

lemma all_updates_sample:
  "result (check_all_updates_from_manifest
     ((release_env ''a-2.syspckg'') \<lparr>e_opendir := \<lambda>h d. Some [''a-1.list'']\<rparr>) []) []
   = Some [DEFAULT_SOURCE_URL @ ''/1.2/packages/a-2.syspckg'']"
  by code_simp

theorem all_updates_newer_witness:
  "\<exists>packages_url. list_all
    (newer_url packages_url (List.map_filter installed_update_item [''a-1.list'']))
    [DEFAULT_SOURCE_URL @ ''/1.2/packages/a-2.syspckg'']"
  by (rule all_updates_newer [OF all_updates_sample]) simp

text \<open>
  \<^verbatim>\<open>latest_boot_version\<close> selects the version that the reference selection finds among the
  safe versions of the files under \<^verbatim>\<open>/boot\<close>, and fails exactly when there is none.
\<close>

theorem latest_boot_version_refines:
  assumes "length root + 5 < PATH_MAX" and "e_opendir env h (root @ ''/boot'') = Some entries"
  shows "map_option (\<lambda>(latest, previous). (latest, latest))
      (result (latest_boot_version env root pre suf 128 128) h) =
    newest_by compare_versions None
      (map (\<lambda>v. (v, v)) (List.map_filter (boot_candidate pre suf) entries))"
  using assms boot_fold_newest [of pre suf "[]" "[]" entries]
  by (auto simp: latest_boot_version_def result_bind_some best_of_def fits_def split: prod.splits if_splits)

theorem latest_boot_version_refines_witness:
  "map_option (\<lambda>(latest, previous). (latest, latest))
      (result (latest_boot_version ((listing_env []) \<lparr>e_opendir := \<lambda>h d. Some [''vmlinuz-6.9'', ''vmlinuz-6.10'']\<rparr>)
         [] ''vmlinuz-'' [] 128 128) []) =
    newest_by compare_versions None
      (map (\<lambda>v. (v, v)) (List.map_filter (boot_candidate ''vmlinuz-'' []) [''vmlinuz-6.9'', ''vmlinuz-6.10'']))"
  by (rule latest_boot_version_refines) simp_all

text \<open>
  A package installed without a version, recorded as \<^verbatim>\<open>base.list\<close>, is never found by
  \<^verbatim>\<open>resolve_latest_installed\<close>, because the length test skips the name; the branch for a dot after
  the base instead accepts a different package whose name continues with a dot.
\<close>

theorem resolve_latest_installed_misses_plain:
  "installed_step base best (base @ ''.list'') = best
   \<and> (\<forall>other. installed_step base None (base @ ''.'' @ other @ ''.list'') =
        Some (trunc PATH_MAX (base @ ''.'' @ other @ ''.list''), []))"
  by (simp add: installed_step_def Let_def nth_append)

end
