(* ===== verification/Archive.thy ===== *)
theory Archive
  imports Resolve InstallOrder
begin

text \<open>
  Package archives in \<^verbatim>\<open>tools/syspckg-old/main.c\<close>: running commands, temporary files, reading the
  metadata inside an archive through \<^verbatim>\<open>tar\<close>, finding or downloading the archive of a selector,
  and the two questions asked on the terminal.

  The global \<^verbatim>\<open>g_tmpdir\<close> is the argument \<open>tmpdir\<close>. The global \<^verbatim>\<open>g_tmp_deps_path\<close> is cleared on every
  path that sets it and only matters to the signal handlers, which are not modelled.
\<close>

section \<open>Commands\<close>

definition run_cmd :: "env \<Rightarrow> string list \<Rightarrow> bool io" where
  "run_cmd env argv = do { status \<leftarrow> spawn env argv; ret (status = Exited 0) }"

definition refresh_dynamic_linker_cache :: "env \<Rightarrow> string \<Rightarrow> bool io" where
  "refresh_dynamic_linker_cache env root =
     with_some (fits PATH_MAX ((if root = ''/'' then [] else root) @ ''/sbin/ldconfig''))
       (\<lambda>ldconfig_path. do {
          executable \<leftarrow> access env ldconfig_path X_OK;
          if \<not> executable then ret True
          else run_cmd env [''/sbin/ldconfig'', ''-r'', root]
        })"

definition base_name :: "string \<Rightarrow> string" where
  "base_name path = (case strrchr path (CHR ''/'') of Some i \<Rightarrow> drop (Suc i) path | None \<Rightarrow> path)"

text \<open>Both files are opened before either result is tested, so the output is created in any case.\<close>

definition copy_archive_to_dir :: "env \<Rightarrow> string \<Rightarrow> string \<Rightarrow> bool io" where
  "copy_archive_to_dir env archive_path output_dir =
     with_some (fits PATH_MAX (output_dir @ ''/'' @ base_name archive_path)) (\<lambda>output_path. do {
       inp \<leftarrow> open_file env archive_path;
       (case inp of
          None \<Rightarrow> do { _ \<leftarrow> effect env (WriteFile output_path []); ret False }
        | Some content \<Rightarrow> succeeds env (WriteFile output_path content))
     })"

definition cleanup_tmpdir :: "env \<Rightarrow> string \<Rightarrow> unit io" where
  "cleanup_tmpdir env tmpdir =
     (if tmpdir = [] then ret ()
      else do { _ \<leftarrow> run_cmd env [''rm'', ''-rf'', tmpdir]; ret () })"

definition file_exists :: "env \<Rightarrow> string \<Rightarrow> bool io" where
  "file_exists env path = access env path F_OK"

definition download_pkg_wget :: "env \<Rightarrow> string \<Rightarrow> string \<Rightarrow> bool io" where
  "download_pkg_wget env url out_path = run_cmd env [''wget'', ''-O'', out_path, url]"

definition run_cmd_to_file :: "env \<Rightarrow> string list \<Rightarrow> string \<Rightarrow> bool io" where
  "run_cmd_to_file env argv out_path = succeeds env (RunTo argv out_path)"

section \<open>Metadata of an archive\<close>

definition make_tmp_file :: "env \<Rightarrow> string \<Rightarrow> nat \<Rightarrow> string option io" where
  "make_tmp_file env tmpdir out_sz =
     (case fits out_sz (tmpdir @ ''/file-XXXXXX'') of
        None \<Rightarrow> ret None
      | Some template \<Rightarrow> mkstemp env template)"

definition make_tmp_deps_file :: "env \<Rightarrow> nat \<Rightarrow> string option io" where
  "make_tmp_deps_file env out_sz =
     (case fits out_sz ''/tmp/syspckg-deps.XXXXXX'' of
        None \<Rightarrow> ret None
      | Some template \<Rightarrow> mkstemp env template)"

definition tar_entry :: "string \<Rightarrow> nat \<Rightarrow> string \<Rightarrow> string option" where
  "tar_entry suf out_sz listing =
     (case List.find (\<lambda>line. has_suffix line suf) (map chomp (fgets_lines (PATH_MAX - 1) listing)) of
        None \<Rightarrow> None
      | Some line \<Rightarrow> fits out_sz line)"

definition find_tar_entry_with_suffix ::
  "env \<Rightarrow> string \<Rightarrow> string \<Rightarrow> string \<Rightarrow> nat \<Rightarrow> string option io" where
  "find_tar_entry_with_suffix env tmpdir archive_path suf out_sz =
     bind_some (make_tmp_file env tmpdir PATH_MAX) (\<lambda>list_path. do {
       ok \<leftarrow> run_cmd_to_file env [''tar'', ''-tJf'', archive_path] list_path;
       f \<leftarrow> (if ok then open_file env list_path else ret None);
       _ \<leftarrow> effect env (Unlink list_path);
       ret (case f of None \<Rightarrow> None | Some listing \<Rightarrow> tar_entry suf out_sz listing)
     })"

definition extract_tar_entry_to_file :: "env \<Rightarrow> string \<Rightarrow> string \<Rightarrow> string \<Rightarrow> bool io" where
  "extract_tar_entry_to_file env archive_path entry out_path =
     run_cmd_to_file env [''tar'', ''-xJf'', archive_path, ''-O'', entry] out_path"

text \<open>The result: package version, id, system version and dependencies.\<close>

definition read_deps_of_archive :: "env \<Rightarrow> string \<Rightarrow> string \<Rightarrow> string list option io" where
  "read_deps_of_archive env tmpdir archive_path = do {
     deps_entry \<leftarrow> find_tar_entry_with_suffix env tmpdir archive_path ''/syspckg-deps'' PATH_MAX;
     (case deps_entry of
        None \<Rightarrow> ret (Some [])
      | Some entry \<Rightarrow>
          bind_some (make_tmp_deps_file env PATH_MAX) (\<lambda>deps_path. do {
            ok \<leftarrow> extract_tar_entry_to_file env archive_path entry deps_path;
            deps \<leftarrow> (if ok then read_syspckg_deps env deps_path else ret None);
            _ \<leftarrow> effect env (Unlink deps_path);
            ret deps
          }))
   }"

definition read_pkg_metadata_from_archive ::
  "env \<Rightarrow> string \<Rightarrow> string \<Rightarrow> (string \<times> string \<times> string \<times> string list) option io" where
  "read_pkg_metadata_from_archive env tmpdir archive_path =
     bind_some (find_tar_entry_with_suffix env tmpdir archive_path ''/syspckg-info'' PATH_MAX) (\<lambda>info_entry.
     bind_some (make_tmp_file env tmpdir PATH_MAX) (\<lambda>info_path. do {
       ok \<leftarrow> extract_tar_entry_to_file env archive_path info_entry info_path;
       info \<leftarrow> (if ok then read_syspckg_info env info_path 64 64 64 else ret None);
       _ \<leftarrow> effect env (Unlink info_path);
       (case info of
          None \<Rightarrow> ret None
        | Some (pkg_ver, pkg_id, pkg_version) \<Rightarrow>
            bind_some (read_deps_of_archive env tmpdir archive_path) (\<lambda>deps.
              ret (Some (pkg_ver, pkg_id, pkg_version, deps))))
     }))"

section \<open>The archive of a selector\<close>

text \<open>Each result is the package name and the path of the archive.\<close>

definition fetch :: "env \<Rightarrow> string \<Rightarrow> string \<Rightarrow> bool io" where
  "fetch env url out_path = do {
     present \<leftarrow> file_exists env out_path;
     if present then ret True else download_pkg_wget env url out_path
   }"

definition resolve_url_archive :: "env \<Rightarrow> string \<Rightarrow> string \<Rightarrow> bool \<Rightarrow> (string \<times> string) option io" where
  "resolve_url_archive env tmpdir selector local_only =
     (case strrchr selector (CHR ''/'') of
        None \<Rightarrow> ret None
      | Some i \<Rightarrow>
          let base = drop (Suc i) selector in
          if local_only \<or> base = [] \<or> \<not> has_suffix base ''.syspckg'' then ret None
          else case (fits PATH_MAX base, get_pkg_base base PATH_MAX, fits PATH_MAX (tmpdir @ ''/'' @ base)) of
            (Some file_name, Some pkg_name, Some out_path) \<Rightarrow> do {
              ok \<leftarrow> fetch env selector out_path;
              ret (if ok then Some (pkg_name, out_path) else None)
            }
          | _ \<Rightarrow> ret None)"

definition needs_latest :: "string \<Rightarrow> bool" where
  "needs_latest selector \<longleftrightarrow>
     CHR ''/'' \<notin> set selector \<and> \<not> has_suffix selector ''.syspckg''
     \<and> \<not> selector_has_explicit_version selector"

definition resolve_selector_name :: "env \<Rightarrow> string \<Rightarrow> string \<Rightarrow> bool \<Rightarrow> string option io" where
  "resolve_selector_name env root selector local_only =
     (if needs_latest selector
      then do {
        a \<leftarrow> resolve_latest_local env ''.'' selector PATH_MAX;
        (case a of Some _ \<Rightarrow> ret a
         | None \<Rightarrow> do {
             b \<leftarrow> resolve_latest_pkg_dir env root selector PATH_MAX;
             (case b of Some _ \<Rightarrow> ret b
              | None \<Rightarrow>
                  if local_only then ret None
                  else resolve_latest_remote env root selector PATH_MAX)
           })
      }
      else ret (Some selector))"

definition download_archive :: "env \<Rightarrow> string \<Rightarrow> string \<Rightarrow> string \<Rightarrow> string option io" where
  "download_archive env root tmpdir pkg_name =
     bind_some (get_os_version env root 64) (\<lambda>version.
       if \<not> is_safe_version version then ret None
       else bind_some (get_source_url env PATH_MAX) (\<lambda>source_url.
         case (fits PATH_MAX (source_url @ ''/'' @ version @ ''/packages/'' @ pkg_name @ ''.syspckg''),
               fits PATH_MAX (tmpdir @ ''/'' @ pkg_name @ ''.syspckg'')) of
           (Some url, Some out_path) \<Rightarrow> do {
             ok \<leftarrow> fetch env url out_path;
             ret (if ok then Some out_path else None)
           }
         | _ \<Rightarrow> ret None))"

definition locate_archive ::
  "env \<Rightarrow> string \<Rightarrow> string \<Rightarrow> string \<Rightarrow> string \<Rightarrow> bool \<Rightarrow> string option io" where
  "locate_archive env root tmpdir selector_name pkg_name local_only =
     (case fits PATH_MAX (if has_suffix selector_name ''.syspckg'' then selector_name
                          else selector_name @ ''.syspckg'') of
        None \<Rightarrow> ret None
      | Some file_name \<Rightarrow> do {
          here \<leftarrow> file_exists env file_name;
          if here then ret (Some file_name)
          else do {
            let pkg_dir_path = root @ ''/usr/share/syspckg/packages/'' @ file_name;
            stored \<leftarrow> (if length pkg_dir_path < PATH_MAX then file_exists env pkg_dir_path else ret False);
            if stored then ret (Some pkg_dir_path)
            else if local_only then ret None
            else download_archive env root tmpdir pkg_name
          }
        })"

definition resolve_pkg_archive_path ::
  "env \<Rightarrow> string \<Rightarrow> string \<Rightarrow> string \<Rightarrow> bool \<Rightarrow> (string \<times> string) option io" where
  "resolve_pkg_archive_path env root tmpdir selector local_only =
     (if is_url selector then resolve_url_archive env tmpdir selector local_only
      else if length selector \<ge> PATH_MAX then ret None
      else bind_some (resolve_selector_name env root selector local_only) (\<lambda>selector_name.
        case get_pkg_base selector_name PATH_MAX of
          None \<Rightarrow> ret None
        | Some pkg_name \<Rightarrow>
            if CHR ''/'' \<in> set selector then do {
              present \<leftarrow> file_exists env selector;
              ret (if present then Some (pkg_name, selector) else None)
            }
            else bind_some (locate_archive env root tmpdir selector_name pkg_name local_only)
                   (\<lambda>archive_path. ret (Some (pkg_name, archive_path)))))"

section \<open>Confirmation\<close>

definition ask_install_confirmation :: "env \<Rightarrow> string list \<Rightarrow> bool io" where
  "ask_install_confirmation env names =
     (if names = [] then ret True
      else do {
        line \<leftarrow> read_stdin env;
        ret (answer_is_yes_or_default (map_option (\<lambda>l. hd (fgets_lines 31 l @ [[]])) line))
      })"

definition ask_remove_confirmation :: "env \<Rightarrow> string \<Rightarrow> bool io" where
  "ask_remove_confirmation env name = do {
     line \<leftarrow> read_stdin env;
     ret (answer_is_yes_or_default (map_option (\<lambda>l. hd (fgets_lines 31 l @ [[]])) line))
   }"

end
