(* ===== verification/FileOps.thy ===== *)
theory FileOps
  imports Archive
begin

text \<open>
  What \<^verbatim>\<open>tools/syspckg-old/main.c\<close> does to the target file system: creating directories, copying
  files, symbolic links and trees, writing and using the manifest of a package, and the hooks.
  Permission bits are words; the octal constants of the source are written in hexadecimal
  (0755 is 0x1ED, 0700 is 0x1C0, 0644 is 0x1A4, 07777 is 0xFFF, 0111 is 0x49).
\<close>

section \<open>Directories and files\<close>

text \<open>The prefixes of a path that end before a slash other than the first character.\<close>

definition slash_prefixes :: "string \<Rightarrow> string list" where
  "slash_prefixes p = map (\<lambda>i. take i p) (filter (\<lambda>i. p ! i = CHR ''/'') [1..<length p])"

definition mkdir_ok :: "env \<Rightarrow> mode_t \<Rightarrow> string \<Rightarrow> bool io" where
  "mkdir_ok env mode p = do {
     r \<leftarrow> effect env (Mkdir p mode);
     ret (r = None \<or> r = Some EEXIST)
   }"

definition ensure_dir_recursive :: "env \<Rightarrow> string \<Rightarrow> mode_t \<Rightarrow> bool io" where
  "ensure_dir_recursive env path mode =
     (let len = length path in
      if len = 0 \<or> len \<ge> PATH_MAX then ret False
      else let tmp = (if last path = CHR ''/'' then butlast path else path) in
        all_io (mkdir_ok env mode) (slash_prefixes tmp @ [tmp]))"

definition ensure_parent_dir :: "env \<Rightarrow> string \<Rightarrow> mode_t \<Rightarrow> bool io" where
  "ensure_parent_dir env path mode =
     with_some (fits PATH_MAX path) (\<lambda>tmp.
       case strrchr tmp (CHR ''/'') of
         None \<Rightarrow> ret True
       | Some i \<Rightarrow> if i = 0 then ret True else ensure_dir_recursive env (take i tmp) mode)"

text \<open>
  The content goes to a temporary file beside the destination, which replaces it at the end; a
  failure after the temporary file exists removes it.
\<close>

definition install_tmp :: "env \<Rightarrow> string \<Rightarrow> string \<Rightarrow> mode_t \<Rightarrow> string \<Rightarrow> bool io" where
  "install_tmp env tmp_path content mode dst = do {
     ok \<leftarrow> and_then (succeeds env (Fill tmp_path content))
           (and_then (succeeds env (Fchmod tmp_path mode))
           (and_then (succeeds env (CloseFile tmp_path))
              (succeeds env (Rename tmp_path dst))));
     if ok then ret True else do { _ \<leftarrow> effect env (Unlink tmp_path); ret False }
   }"

definition copy_file_contents :: "env \<Rightarrow> string \<Rightarrow> string \<Rightarrow> mode_t \<Rightarrow> bool io" where
  "copy_file_contents env src dst mode = do {
     inp \<leftarrow> open_file env src;
     with_some inp (\<lambda>content.
       and_then (ensure_parent_dir env dst 0x1ED)
         (with_some (fits PATH_MAX (dst @ ''.syspckg-tmp.XXXXXX'')) (\<lambda>template. do {
            t \<leftarrow> mkstemp env template;
            with_some t (\<lambda>tmp_path. install_tmp env tmp_path content mode dst)
          })))
   }"

definition copy_symlink_entry :: "env \<Rightarrow> string \<Rightarrow> string \<Rightarrow> bool io" where
  "copy_symlink_entry env src dst = do {
     link \<leftarrow> readlink env src;
     with_some link (\<lambda>t.
       and_then (ensure_parent_dir env dst 0x1ED) (do {
         r \<leftarrow> effect env (Unlink dst);
         if r \<noteq> None \<and> r \<noteq> Some ENOENT then ret False
         else succeeds env (Symlink (take (PATH_MAX - 1) t) dst)
       }))
   }"

section \<open>Hooks\<close>

text \<open>A hook that does not exist is no error; one that is not a regular file is.\<close>

definition run_hook :: "env \<Rightarrow> string \<Rightarrow> string \<Rightarrow> string \<Rightarrow> bool io" where
  "run_hook env hook_path root action = do {
     st \<leftarrow> lstat env hook_path;
     (case st of
        Inl e \<Rightarrow> ret (e = ENOENT)
      | Inr s \<Rightarrow>
          if st_kind s \<noteq> S_REG then ret False
          else run_cmd env [''/bin/sh'', hook_path, root, action])
   }"

definition run_package_hook :: "env \<Rightarrow> string \<Rightarrow> string \<Rightarrow> string \<Rightarrow> bool io" where
  "run_package_hook env install_dir root action =
     with_some (fits PATH_MAX (install_dir @ ''/'' @ action @ ''.sh''))
       (\<lambda>hook_path. run_hook env hook_path root action)"

definition save_remove_hook :: "env \<Rightarrow> string \<Rightarrow> string \<Rightarrow> string \<Rightarrow> bool io" where
  "save_remove_hook env install_dir root pkg_name =
     with_some (fits PATH_MAX (install_dir @ ''/remove.sh'')) (\<lambda>source.
     with_some (fits PATH_MAX (root @ ''/var/lib/syspckg/hooks'')) (\<lambda>hooks_dir.
     with_some (fits PATH_MAX (hooks_dir @ ''/'' @ pkg_name @ ''.remove.sh'')) (\<lambda>destination. do {
       st \<leftarrow> lstat env source;
       (case st of
          Inl e \<Rightarrow>
            if e = ENOENT then do { _ \<leftarrow> effect env (Unlink destination); ret True } else ret False
        | Inr s \<Rightarrow>
            if st_kind s \<noteq> S_REG then ret False
            else and_then (ensure_dir_recursive env hooks_dir 0x1ED)
                   (copy_file_contents env source destination 0x1C0))
     })))"

definition run_remove_hook :: "env \<Rightarrow> string \<Rightarrow> string \<Rightarrow> bool io" where
  "run_remove_hook env root pkg_name =
     with_some (fits PATH_MAX (root @ ''/var/lib/syspckg/hooks/'' @ pkg_name @ ''.remove.sh''))
       (\<lambda>hook_path. run_hook env hook_path root ''remove'')"

section \<open>Copying a tree\<close>

definition child_of :: "string \<Rightarrow> string \<Rightarrow> string option" where
  "child_of rel name = fits PATH_MAX (if rel \<noteq> [] then rel @ ''/'' @ name else name)"

definition target_of :: "string \<Rightarrow> string \<Rightarrow> string option" where
  "target_of root child_rel = fits PATH_MAX (root @ (if root = ''/'' then [] else ''/'') @ child_rel)"

definition skipped_entry :: "string \<Rightarrow> string \<Rightarrow> bool" where
  "skipped_entry rel name \<longleftrightarrow>
     name = ''.'' \<or> name = ''..'' \<or> (rel = [] \<and> is_package_control_file name)"

text \<open>One turn of the loop; \<open>descend\<close> is the recursive call on the child directory.\<close>

definition copy_regular :: "env \<Rightarrow> string \<Rightarrow> string \<Rightarrow> mode_t \<Rightarrow> bool io" where
  "copy_regular env src_path dst_path mode =
     and_then (copy_file_contents env src_path dst_path (mode AND 0xFFF))
       (if is_exec_path dst_path \<and> mode AND 0x49 = 0
        then do {
          content \<leftarrow> open_file env src_path;
          if file_has_exec_content content
          then succeeds env (Chmod dst_path (add_exec_from_read (mode AND 0xFFF)))
          else ret True
        }
        else ret True)"

definition copy_entry ::
  "env \<Rightarrow> (string \<Rightarrow> bool io) \<Rightarrow> string \<Rightarrow> string \<Rightarrow> string \<Rightarrow> string \<Rightarrow> bool io" where
  "copy_entry env descend src_base rel root name =
     (if skipped_entry rel name then ret True
      else with_some (child_of rel name) (\<lambda>child_rel.
        with_some (fits PATH_MAX (src_base @ ''/'' @ child_rel)) (\<lambda>src_path.
        with_some (target_of root child_rel) (\<lambda>dst_path. do {
          st \<leftarrow> lstat env src_path;
          (case st of
             Inl _ \<Rightarrow> ret False
           | Inr s \<Rightarrow>
               (case st_kind s of
                  S_DIR \<Rightarrow>
                    and_then (ensure_dir_recursive env dst_path (st_mode s AND 0xFFF)) (descend child_rel)
                | S_REG \<Rightarrow> copy_regular env src_path dst_path (st_mode s)
                | S_LNK \<Rightarrow> copy_symlink_entry env src_path dst_path
                | _ \<Rightarrow> ret True))
        }))))"

text \<open>
  The recursion follows the directory structure; \<open>fuel\<close> bounds its depth. Each level makes the
  relative path longer and a path of \<^verbatim>\<open>PATH_MAX\<close> characters is refused, so \<open>tree_fuel\<close> is enough
  (\<open>copy_tree_fuel_enough\<close>).
\<close>

abbreviation tree_fuel :: nat where "tree_fuel \<equiv> Suc PATH_MAX"

fun copy_tree :: "nat \<Rightarrow> env \<Rightarrow> string \<Rightarrow> string \<Rightarrow> string \<Rightarrow> bool io" where
  "copy_tree 0 env src_base rel root = ret False"
| "copy_tree (Suc fuel) env src_base rel root =
     with_some (fits PATH_MAX (if rel \<noteq> [] then src_base @ ''/'' @ rel else src_base)) (\<lambda>path. do {
       d \<leftarrow> opendir env path;
       with_some d (\<lambda>entries.
         all_io (\<lambda>name. copy_entry env (\<lambda>child. copy_tree fuel env src_base child root)
                         src_base rel root name) entries)
     })"

section \<open>Manifests\<close>

definition write_manifest_entry :: "char \<Rightarrow> string \<Rightarrow> string" where
  "write_manifest_entry type path = [type] @ '' '' @ path @ [LF]"

text \<open>A walk that accumulates the text written so far, also when it fails half way.\<close>

fun walk_io :: "('a \<Rightarrow> string \<Rightarrow> (bool \<times> string) io) \<Rightarrow> 'a list \<Rightarrow> string \<Rightarrow> (bool \<times> string) io" where
  "walk_io f [] acc = ret (True, acc)"
| "walk_io f (x # xs) acc = do {
     r \<leftarrow> f x acc;
     if fst r then walk_io f xs (snd r) else ret r
   }"

definition manifest_leaf :: "string \<Rightarrow> string \<Rightarrow> string \<Rightarrow> (bool \<times> string) io" where
  "manifest_leaf root child_rel acc =
     (case target_of root child_rel of
        None \<Rightarrow> ret (False, acc)
      | Some target \<Rightarrow>
          if is_core_lib_path target then ret (True, acc)
          else ret (True, acc @ write_manifest_entry (CHR ''F'') target))"

definition manifest_dir :: "string \<Rightarrow> string \<Rightarrow> bool \<times> string \<Rightarrow> (bool \<times> string) io" where
  "manifest_dir root child_rel r =
     (if \<not> fst r then ret r
      else case target_of root child_rel of
        None \<Rightarrow> ret (False, snd r)
      | Some target \<Rightarrow> ret (True, snd r @ write_manifest_entry (CHR ''D'') target))"

definition manifest_step ::
  "env \<Rightarrow> (string \<Rightarrow> string \<Rightarrow> (bool \<times> string) io) \<Rightarrow> string \<Rightarrow> string \<Rightarrow> string \<Rightarrow> string \<Rightarrow> string
     \<Rightarrow> (bool \<times> string) io" where
  "manifest_step env descend base rel root name acc =
     (if skipped_entry rel name then ret (True, acc)
      else case child_of rel name of
        None \<Rightarrow> ret (False, acc)
      | Some child_rel \<Rightarrow>
          (case fits PATH_MAX (base @ ''/'' @ child_rel) of
             None \<Rightarrow> ret (False, acc)
           | Some child_path \<Rightarrow> do {
               st \<leftarrow> lstat env child_path;
               (case st of
                  Inl _ \<Rightarrow> ret (False, acc)
                | Inr s \<Rightarrow>
                    (case st_kind s of
                       S_DIR \<Rightarrow> do {
                         r \<leftarrow> descend child_rel acc;
                         manifest_dir root child_rel r
                       }
                     | S_REG \<Rightarrow> manifest_leaf root child_rel acc
                     | S_LNK \<Rightarrow> manifest_leaf root child_rel acc
                     | _ \<Rightarrow> ret (True, acc)))
             }))"

fun add_manifest_entries ::
  "nat \<Rightarrow> env \<Rightarrow> string \<Rightarrow> string \<Rightarrow> string \<Rightarrow> string \<Rightarrow> (bool \<times> string) io" where
  "add_manifest_entries 0 env base rel root acc = ret (False, acc)"
| "add_manifest_entries (Suc fuel) env base rel root acc =
     (case fits PATH_MAX (if rel \<noteq> [] then base @ ''/'' @ rel else base) of
        None \<Rightarrow> ret (False, acc)
      | Some path \<Rightarrow> do {
          d \<leftarrow> opendir env path;
          (case d of
             None \<Rightarrow> ret (False, acc)
           | Some entries \<Rightarrow>
               walk_io (\<lambda>name. manifest_step env
                          (\<lambda>child acc. add_manifest_entries fuel env base child root acc)
                          base rel root name) entries acc)
        })"

text \<open>The manifest is opened before the walk and closed after it; output is buffered until then.\<close>

definition write_manifest :: "env \<Rightarrow> string \<Rightarrow> string \<Rightarrow> string \<Rightarrow> bool io" where
  "write_manifest env install_dir root pkg_name =
     with_some (fits PATH_MAX (root @ ''/var/lib/syspckg'')) (\<lambda>db_dir.
     and_then (ensure_dir_recursive env db_dir 0x1ED)
     (with_some (fits PATH_MAX (root @ ''/var/lib/syspckg/installed'')) (\<lambda>installed_dir.
      and_then (ensure_dir_recursive env installed_dir 0x1ED)
      (with_some (fits PATH_MAX (installed_dir @ ''/'' @ pkg_name @ ''.list'')) (\<lambda>manifest_path.
       and_then (succeeds env (WriteFile manifest_path []))
        (do {
          r \<leftarrow> add_manifest_entries tree_fuel env install_dir [] root [];
          _ \<leftarrow> effect env (Append manifest_path (snd r));
          ret (fst r)
        }))))))"

section \<open>Removing a package\<close>

definition cmp_dir_len_desc :: "string \<Rightarrow> string \<Rightarrow> int" where
  "cmp_dir_len_desc sa sb =
     (if length sa > length sb then - 1 else if length sa < length sb then 1 else strcmp sa sb)"

definition removable_path :: "string \<Rightarrow> bool" where
  "removable_path path \<longleftrightarrow> path \<noteq> [] \<and> hd path = CHR ''/'' \<and> strstr path ''/../'' = None"

text \<open>The paths of the lines of one type, in the order of the manifest.\<close>

definition manifest_paths :: "char \<Rightarrow> string list \<Rightarrow> string list" where
  "manifest_paths type lines =
     filter removable_path (map (\<lambda>line. chomp (drop 2 line)) (filter (prefix [type, CHR '' '']) lines))"

text \<open>Files go while the manifest is read, before the hook; directories go after it.\<close>

definition remove_pkg_impl :: "env \<Rightarrow> string \<Rightarrow> string \<Rightarrow> bool \<Rightarrow> bool io" where
  "remove_pkg_impl env root pkg_name protect_packager =
     (if protect_packager \<and> is_packager_pkg_name pkg_name then ret False
      else with_some (fits PATH_MAX (root @ ''/var/lib/syspckg/installed/'' @ pkg_name @ ''.list''))
        (\<lambda>manifest_path. do {
           f \<leftarrow> open_file env manifest_path;
           with_some f (\<lambda>content. do {
             let lines = fgets_lines (PATH_MAX + 7) content;
             _ \<leftarrow> each_io (\<lambda>path. effect env (Unlink path)) (manifest_paths (CHR ''F'') lines);
             let dirs = manifest_paths (CHR ''D'') lines;
             and_then (run_remove_hook env root pkg_name) (do {
               _ \<leftarrow> each_io (\<lambda>dir. effect env (Rmdir dir)) (rev (qsort cmp_dir_len_desc dirs));
               _ \<leftarrow> effect env (Unlink manifest_path);
               (case fits PATH_MAX (root @ ''/var/lib/syspckg/hooks/'' @ pkg_name @ ''.remove.sh'') of
                  None \<Rightarrow> ret True
                | Some hook_path \<Rightarrow> do { _ \<leftarrow> effect env (Unlink hook_path); ret True })
             })
           })
         }))"

definition remove_pkg :: "env \<Rightarrow> string \<Rightarrow> string \<Rightarrow> bool io" where
  "remove_pkg env root pkg_name = remove_pkg_impl env root pkg_name True"

text \<open>The depth argument of the source stops the recursion beyond 64.\<close>

fun remove_pkg_with_deps :: "nat \<Rightarrow> env \<Rightarrow> string \<Rightarrow> string \<Rightarrow> string \<Rightarrow> bool \<Rightarrow> bool io" where
  "remove_pkg_with_deps 0 env root pkg_name tmpdir local_only = ret False"
| "remove_pkg_with_deps (Suc room) env root pkg_name tmpdir local_only = do {
     archive \<leftarrow> resolve_pkg_archive_path env root tmpdir pkg_name local_only;
     with_some archive (\<lambda>(resolved_name, archive_path). do {
       meta \<leftarrow> read_pkg_metadata_from_archive env tmpdir archive_path;
       with_some meta (\<lambda>(pkg_ver, pkg_id, pkg_version, deps).
         and_then (remove_pkg env root pkg_name)
           (all_io (\<lambda>dep.
              if \<not> is_safe_pkgname dep then ret True
              else do {
                installed \<leftarrow> is_pkg_installed env root dep;
                if \<not> installed then ret True
                else remove_pkg_with_deps room env root dep tmpdir local_only
              }) deps))
     })
   }"

text \<open>\<^verbatim>\<open>depth\<close> counts up from 0 to 64, so there is room for 65 levels.\<close>

definition remove_with_deps :: "env \<Rightarrow> string \<Rightarrow> string \<Rightarrow> string \<Rightarrow> bool \<Rightarrow> bool io" where
  "remove_with_deps = remove_pkg_with_deps 65"

section \<open>Lemmas: removal\<close>

lemma after_each_io_effect:
  "after (each_io (\<lambda>x. effect env (f x)) xs) h = h @ map f xs"
  by (induction xs arbitrary: h) auto

text \<open>The paths a manifest names and removal may touch: absolute, without a \<^verbatim>\<open>/../\<close> step.\<close>

definition named_paths :: "char \<Rightarrow> string list \<Rightarrow> string set" where
  "named_paths t lines =
     {chomp (drop 2 l) | l. l \<in> set lines \<and> prefix [t, CHR '' ''] l}
       \<inter> {p. prefix ''/'' p \<and> \<not> sublist ''/../'' p}"

lemma set_manifest_paths: "set (manifest_paths t lines) = named_paths t lines"
proof -
  have "removable_path p \<longleftrightarrow> prefix ''/'' p \<and> \<not> sublist ''/../'' p" for p
    unfolding removable_path_def strstr_None_iff_sublist by (cases p) (simp_all add: eq_commute)
  then show ?thesis
    by (auto simp: manifest_paths_def named_paths_def)
qed

definition hook_path_of :: "string \<Rightarrow> string \<Rightarrow> string" where
  "hook_path_of root pkg = root @ ''/var/lib/syspckg/hooks/'' @ pkg @ ''.remove.sh''"

definition manifest_path_of :: "string \<Rightarrow> string \<Rightarrow> string" where
  "manifest_path_of root pkg = root @ ''/var/lib/syspckg/installed/'' @ pkg @ ''.list''"

text \<open>What removing a package may do.\<close>

text \<open>The steps of a removal that may unlink \<open>fs\<close> and remove the directories \<open>ds\<close>.\<close>

fun removal_event :: "string \<Rightarrow> string \<Rightarrow> string set \<Rightarrow> string set \<Rightarrow> event \<Rightarrow> bool" where
  "removal_event root pkg fs ds (Unlink p) \<longleftrightarrow>
     p \<in> fs \<or> p = manifest_path_of root pkg \<or> p = hook_path_of root pkg"
| "removal_event root pkg fs ds (Rmdir p) \<longleftrightarrow> p \<in> ds"
| "removal_event root pkg fs ds (Run argv) \<longleftrightarrow> argv = [''/bin/sh'', hook_path_of root pkg, root, ''remove'']"
| "removal_event root pkg fs ds _ \<longleftrightarrow> False"

lemma emits_run_cmd [emits_intros]: "P (Run argv) \<Longrightarrow> emits P (run_cmd env argv)"
  by (auto simp: run_cmd_def intro!: emits_intros)

lemma emits_run_hook [emits_intros]:
  "P (Run [''/bin/sh'', hook_path, root, action]) \<Longrightarrow> emits P (run_hook env hook_path root action)"
  by (auto simp: run_hook_def intro!: emits_intros)

definition manifest_lines :: "env \<Rightarrow> history \<Rightarrow> string \<Rightarrow> string \<Rightarrow> string list" where
  "manifest_lines env h root pkg =
     (case e_open env h (manifest_path_of root pkg) of None \<Rightarrow> []
      | Some content \<Rightarrow> fgets_lines (PATH_MAX + 7) content)"

lemma emits_remove_pkg_impl:
  "emits (removal_event root pkg UNIV UNIV) (remove_pkg_impl env root pkg protect)"
  unfolding remove_pkg_impl_def run_remove_hook_def Let_def
  by (intro emits_intros) (auto simp: manifest_path_of_def hook_path_of_def)

interpretation cd: version_order cmp_dir_len_desc
proof
  fix a b c :: string
  show "cmp_dir_len_desc b a = - cmp_dir_len_desc a b"
    by (simp add: cmp_dir_len_desc_def strcmp_swap [of b a])
  show "0 \<le> cmp_dir_len_desc a b \<Longrightarrow> 0 \<le> cmp_dir_len_desc b c \<Longrightarrow> 0 \<le> cmp_dir_len_desc a c"
    using sc.cmp_trans [of a b c] by (auto simp: cmp_dir_len_desc_def split: if_splits)
qed

text \<open>The order in which the directories are removed: the shortest path first.\<close>

lemma rmdir_order_shortest_first:
  "sorted_wrt (\<lambda>a b. length a \<le> length b) (rev (qsort cmp_dir_len_desc dirs))"
proof -
  have "sorted_wrt (\<lambda>a b. length b \<le> length a) (qsort cmp_dir_len_desc dirs)"
    by (rule sorted_wrt_mono_rel [OF _ cd.qsort_sorted])
       (auto simp: cmp_dir_len_desc_def split: if_splits)
  then show ?thesis by (simp add: sorted_wrt_rev)
qed

section \<open>Lemmas: manifests\<close>

definition manifest_text :: "(char \<times> string) list \<Rightarrow> string" where
  "manifest_text entries = concat (map (\<lambda>(t, p). write_manifest_entry t p) entries)"

lemma manifest_text_simps [simp]:
  "manifest_text [] = []"
  "manifest_text (es @ fs) = manifest_text es @ manifest_text fs"
  "manifest_text [(t, p)] = write_manifest_entry t p"
  by (simp_all add: manifest_text_def)

text \<open>An entry that one line of the buffer can hold.\<close>

definition entry_ok :: "char \<times> string \<Rightarrow> bool" where
  "entry_ok = (\<lambda>(t, p). t \<in> {CHR ''F'', CHR ''D''} \<and> set p \<inter> {LF, CR, NUL} = {} \<and> length p < PATH_MAX)"

lemma manifest_lines:
  assumes "list_all entry_ok es"
  shows "fgets_lines (PATH_MAX + 7) (manifest_text es) = map (\<lambda>(t, p). [t] @ '' '' @ p @ [LF]) es"
proof -
  have "manifest_text es = concat (map (\<lambda>l. l @ [LF]) (map (\<lambda>(t, p). [t] @ '' '' @ p) es))"
    by (induction es) (auto simp: manifest_text_def write_manifest_entry_def)
  moreover have "\<forall>l \<in> set (map (\<lambda>(t, p). [t] @ '' '' @ p) es).
      LF \<notin> set l \<and> NUL \<notin> set l \<and> length l < PATH_MAX + 7"
    using assms by (auto simp: list_all_iff entry_ok_def)
  ultimately show ?thesis
    by (simp only: fgets_lines_concat) auto
qed

lemma manifest_paths_lines:
  assumes "list_all entry_ok es"
  shows "manifest_paths t (map (\<lambda>(t, p). [t] @ '' '' @ p @ [LF]) es) =
    filter removable_path (map snd (filter (\<lambda>(u, p). u = t) es))"
proof -
  have chomp_path: "chomp (p @ [LF]) = p" if "set p \<inter> {LF, CR, NUL} = {}" for p
    using that by (auto simp: chomp_def before_any_def takeWhile_append takeWhile_eq_all_conv)
  show ?thesis
    using assms
    by (induction es) (auto simp: manifest_paths_def entry_ok_def chomp_path)
qed

text \<open>What the walk writes: directories and files below the root, and no core library.\<close>

definition listed :: "string \<Rightarrow> char \<times> string \<Rightarrow> bool" where
  "listed root = (\<lambda>(t, p). (t = CHR ''D'' \<or> (t = CHR ''F'' \<and> \<not> is_core_lib_path p))
     \<and> (\<exists>child. target_of root child = Some p))"

definition writes_listed :: "string \<Rightarrow> string \<Rightarrow> bool \<times> string \<Rightarrow> bool" where
  "writes_listed root acc r \<longleftrightarrow> (\<exists>es. snd r = acc @ manifest_text es \<and> list_all (listed root) es)"

lemma writes_listed_refl [simp]: "writes_listed root acc (b, acc)"
  by (auto simp: writes_listed_def intro!: exI [of _ "[]"])

lemma writes_listed_trans:
  "writes_listed root acc r \<Longrightarrow> writes_listed root (snd r) r' \<Longrightarrow> writes_listed root acc r'"
  unfolding writes_listed_def by (metis append.assoc list_all_append manifest_text_simps(2))

lemma writes_listed_snoc:
  "writes_listed root acc r \<Longrightarrow> listed root (t, p) \<Longrightarrow>
    writes_listed root acc (b, snd r @ write_manifest_entry t p)"
  by (rule writes_listed_trans) (auto simp: writes_listed_def intro!: exI [of _ "[(t, p)]"])

lemma manifest_leaf_listed: "writes_listed root acc (result (manifest_leaf root child acc) h)"
  using writes_listed_snoc [of root acc "(True, acc)" "CHR ''F''"]
  by (auto simp: manifest_leaf_def listed_def split: option.split)

lemma manifest_dir_listed:
  "writes_listed root acc r \<Longrightarrow> writes_listed root acc (result (manifest_dir root child r) h)"
  using writes_listed_snoc [of root acc r "CHR ''D''"] writes_listed_trans [of root acc r]
  by (auto simp: manifest_dir_def listed_def split: option.split)

lemma manifest_step_listed:
  assumes "\<And>child acc h. writes_listed root acc (result (descend child acc) h)"
  shows "writes_listed root acc (result (manifest_step env descend base rel root name acc) h)"
  using manifest_dir_listed [OF assms] manifest_leaf_listed
  by (auto simp: manifest_step_def split: option.split sum.split file_kind.split)

lemma walk_io_listed:
  assumes "\<And>x acc h. writes_listed root acc (result (f x acc) h)"
  shows "writes_listed root acc (result (walk_io f xs acc) h)"
proof (induction xs arbitrary: acc h)
  case (Cons x xs)
  show ?case
    using Cons.IH assms [of acc x h] writes_listed_trans by (auto simp: Let_def)
qed simp

lemma add_manifest_entries_listed:
  "writes_listed root acc (result (add_manifest_entries fuel env base rel root acc) h)"
proof (induction fuel arbitrary: rel acc h)
  case (Suc fuel)
  show ?case
    using walk_io_listed [OF manifest_step_listed [OF Suc.IH]]
    by (auto split: option.split)
qed simp

section \<open>Lemmas: copying\<close>

text \<open>Documented behaviour of the system: \<^verbatim>\<open>readdir\<close> returns names, \<^verbatim>\<open>mkstemp\<close> fills the last six characters.\<close>

definition nonempty_names :: "env \<Rightarrow> bool" where
  "nonempty_names env \<longleftrightarrow> (\<forall>h p entries. e_opendir env h p = Some entries \<longrightarrow> [] \<notin> set entries)"

definition mkstemp_law :: "env \<Rightarrow> bool" where
  "mkstemp_law env \<longleftrightarrow>
     (\<forall>h t p. e_mkstemp env h (t @ ''XXXXXX'') = Some p \<longrightarrow> (\<exists>x. length x = 6 \<and> p = t @ x))"

lemma child_of_longer:
  "child_of rel name = Some child \<Longrightarrow> name \<noteq> [] \<Longrightarrow> length rel < length child \<and> length child < PATH_MAX"
  by (cases name) (auto simp: child_of_def split: if_splits)

lemma all_io_cong: "(\<And>x. x \<in> set xs \<Longrightarrow> f x = g x) \<Longrightarrow> all_io f xs = all_io g xs"
  by (induction xs) auto

lemma copy_entry_cong:
  assumes "\<And>child. child_of rel name = Some child \<Longrightarrow> d1 child = d2 child"
  shows "copy_entry env d1 base rel root name = copy_entry env d2 base rel root name"
proof (cases "child_of rel name")
  case None
  then show ?thesis by (simp add: copy_entry_def with_some_def)
next
  case (Some child)
  show ?thesis
    unfolding copy_entry_def Some with_some_def option.case assms [OF Some] by (rule refl)
qed

lemma opendir_bind_cong:
  assumes "\<And>h. f (e_opendir env h path) = g (e_opendir env h path)"
  shows "State_Monad.bind (opendir env path) f = State_Monad.bind (opendir env path) g"
  using assms by (intro state_ext) (simp add: opendir_def query_def)

lemma with_opendir_cong:
  assumes "nonempty_names env" and "\<And>name. name \<noteq> [] \<Longrightarrow> f name = g name"
  shows "State_Monad.bind (opendir env path) (\<lambda>d. with_some d (all_io f))
    = State_Monad.bind (opendir env path) (\<lambda>d. with_some d (all_io g))"
proof (rule opendir_bind_cong)
  fix h
  show "with_some (e_opendir env h path) (all_io f) = with_some (e_opendir env h path) (all_io g)"
  proof (cases "e_opendir env h path")
    case (Some entries)
    then have "[] \<notin> set entries"
      using assms(1) by (auto simp: nonempty_names_def)
    then have "all_io f entries = all_io g entries"
      by (intro all_io_cong assms(2)) auto
    with Some show ?thesis by (simp add: with_some_def)
  qed (simp add: with_some_def)
qed

lemma copy_tree_fuel_step:
  assumes "nonempty_names env"
  shows "PATH_MAX < fuel + length rel \<Longrightarrow>
    copy_tree (Suc fuel) env base rel root = copy_tree fuel env base rel root"
proof (induction fuel arbitrary: rel)
  case 0
  then show ?case by (auto simp: with_some_def fits_def)
next
  case (Suc fuel)
  let ?E = "\<lambda>n. copy_entry env (\<lambda>child. copy_tree n env base child root) base rel root"
  have entry: "?E (Suc fuel) name = ?E fuel name" if "name \<noteq> []" for name
  proof (rule copy_entry_cong)
    fix child
    assume "child_of rel name = Some child"
    from child_of_longer [OF this that] Suc.prems have "PATH_MAX < fuel + length child" by linarith
    then show "copy_tree (Suc fuel) env base child root = copy_tree fuel env base child root"
      by (rule Suc.IH)
  qed
  have unfold: "copy_tree (Suc n) env base rel root =
      with_some (fits PATH_MAX (if rel \<noteq> [] then base @ ''/'' @ rel else base))
        (\<lambda>path. State_Monad.bind (opendir env path) (\<lambda>d. with_some d (all_io (?E n))))" for n
    by (rule copy_tree.simps(2))
  show ?case
    unfolding unfold [of "Suc fuel"] unfold [of fuel]
    by (rule arg_cong [where f = "with_some _"], rule ext, rule with_opendir_cong [OF assms entry])
qed

lemma copy_tree_fuel:
  assumes "nonempty_names env" and "tree_fuel \<le> n"
  shows "copy_tree n env base rel root = copy_tree tree_fuel env base rel root"
  using assms(2)
proof (induction rule: dec_induct)
  case (step n)
  then show ?case using copy_tree_fuel_step [OF assms(1), of n rel base root] by simp
qed simp

text \<open>Where a copy may write: at the target or below it, and in the directories above it.\<close>

definition below :: "string \<Rightarrow> string \<Rightarrow> bool" where
  "below root p \<longleftrightarrow> prefix (if root = ''/'' then root else root @ ''/'') p"

fun copy_event :: "string \<Rightarrow> event \<Rightarrow> bool" where
  "copy_event root (Mkdir p m) \<longleftrightarrow> below root p \<or> prefix p root"
| "copy_event root (Unlink p) \<longleftrightarrow> below root p"
| "copy_event root (Symlink t p) \<longleftrightarrow> below root p"
| "copy_event root (Rename t p) \<longleftrightarrow> below root t \<and> below root p"
| "copy_event root (Chmod p m) \<longleftrightarrow> below root p"
| "copy_event root (Mkstemp p) \<longleftrightarrow> below root p"
| "copy_event root (Fill p c) \<longleftrightarrow> below root p"
| "copy_event root (Fchmod p m) \<longleftrightarrow> below root p"
| "copy_event root (CloseFile p) \<longleftrightarrow> below root p"
| "copy_event root _ \<longleftrightarrow> False"

lemma target_below: "target_of root child = Some p \<Longrightarrow> below root p"
  by (auto simp: target_of_def below_def prefix_def)

lemma below_append: "below root p \<Longrightarrow> below root (p @ q)"
  by (auto simp: below_def)

lemma prefix_of_below:
  assumes "prefix q p" and "below root p"
  shows "below root q \<or> prefix q root"
proof -
  let ?r = "if root = ''/'' then root else root @ ''/''"
  have "prefix q ?r \<or> prefix ?r q"
    using assms prefix_same_cases unfolding below_def by blast
  then show ?thesis
    by (auto simp: below_def prefix_snoc split: if_splits)
qed

lemma emits_mkdir_ok [emits_intros]: "P (Mkdir p m) \<Longrightarrow> emits P (mkdir_ok env m p)"
  by (auto simp: mkdir_ok_def intro!: emits_intros)

lemma slash_prefixes_prefix: "q \<in> set (slash_prefixes p) \<Longrightarrow> prefix q p"
  by (auto simp: slash_prefixes_def take_is_prefix)

lemma emits_ensure_dir_recursive:
  assumes "\<And>q. prefix q path \<Longrightarrow> P (Mkdir q mode)"
  shows "emits P (ensure_dir_recursive env path mode)"
proof -
  let ?tmp = "if last path = CHR ''/'' then butlast path else path"
  have tmp: "prefix ?tmp path" by (simp add: prefixeq_butlast)
  have "prefix q path" if "q \<in> set (slash_prefixes ?tmp @ [?tmp])" for q
    using that tmp prefix_order.trans [OF slash_prefixes_prefix tmp] by auto
  then show ?thesis
    unfolding ensure_dir_recursive_def Let_def by (intro emits_intros assms)
qed

lemma emits_ensure_parent_dir:
  assumes "\<And>q. prefix q path \<Longrightarrow> P (Mkdir q mode)"
  shows "emits P (ensure_parent_dir env path mode)"
  unfolding ensure_parent_dir_def
proof (intro emits_intros emits_ensure_dir_recursive)
  fix v i q
  assume "fits PATH_MAX path = Some v" and "prefix q (take i v)"
  then have "prefix q (take i path)" by simp
  then show "P (Mkdir q mode)"
    by (intro assms) (rule prefix_order.trans [OF _ take_is_prefix])
qed

lemma emits_bind_result:
  assumes "emits P m" and "\<And>h. emits P (f (result m h))"
  shows "emits P (State_Monad.bind m f)"
  unfolding emits_def
proof
  fix h
  obtain t where t: "after m h = h @ t" "list_all P t"
    using assms(1) by (auto simp: emits_def)
  obtain u where u: "after (f (result m h)) (h @ t) = (h @ t) @ u" "list_all P u"
    using assms(2) unfolding emits_def by meson
  show "\<exists>t. after (State_Monad.bind m f) h = h @ t \<and> list_all P t"
    using t u by (intro exI [of _ "t @ u"]) simp
qed

lemma result_mkstemp [simp]: "result (mkstemp env t) h = e_mkstemp env h t"
  by (simp add: mkstemp_def result_def split: option.split)

lemma mkstemp_Some:
  assumes "mkstemp_law env" and "e_mkstemp env h (dst @ ''.syspckg-tmp.XXXXXX'') = Some p"
  shows "\<exists>x. p = dst @ x"
proof -
  have "dst @ ''.syspckg-tmp.XXXXXX'' = (dst @ ''.syspckg-tmp.'') @ ''XXXXXX''" by simp
  with assms have "\<exists>x. length x = 6 \<and> p = (dst @ ''.syspckg-tmp.'') @ x"
    unfolding mkstemp_law_def by metis
  then show ?thesis by auto
qed

lemma emits_mkstemp_at:
  assumes "\<And>h p. e_mkstemp env h t = Some p \<Longrightarrow> P (Mkstemp p)"
  shows "emits P (mkstemp env t)"
  using assms by (auto simp: emits_def mkstemp_def after_def split: option.split)

lemma emits_install_tmp:
  assumes "below root tmp" and "below root dst"
  shows "emits (copy_event root) (install_tmp env tmp content mode dst)"
  unfolding install_tmp_def by (intro emits_intros) (simp_all add: assms)

lemma emits_parent_below:
  assumes "below root dst"
  shows "emits (copy_event root) (ensure_parent_dir env dst mode)"
    and "emits (copy_event root) (ensure_dir_recursive env dst mode)"
  using prefix_of_below [OF _ assms]
  by (auto intro: emits_ensure_parent_dir emits_ensure_dir_recursive)

lemma emits_copy_file_contents:
  assumes "mkstemp_law env" and "below root dst"
  shows "emits (copy_event root) (copy_file_contents env src dst mode)"
proof -
  have tmp: "below root p" if "e_mkstemp env h (dst @ ''.syspckg-tmp.XXXXXX'') = Some p" for h p
    using mkstemp_Some [OF assms(1) that] below_append [OF assms(2)] by auto
  have "emits (copy_event root) (State_Monad.bind (mkstemp env (dst @ ''.syspckg-tmp.XXXXXX''))
      (\<lambda>t. with_some t (\<lambda>tmp_path. install_tmp env tmp_path content mode dst)))" for content
  proof (rule emits_bind_result)
    show "emits (copy_event root) (mkstemp env (dst @ ''.syspckg-tmp.XXXXXX''))"
      by (rule emits_mkstemp_at) (simp add: tmp)
    fix h
    show "emits (copy_event root) (with_some (result (mkstemp env (dst @ ''.syspckg-tmp.XXXXXX'')) h)
        (\<lambda>tmp_path. install_tmp env tmp_path content mode dst))"
      by (intro emits_with_some emits_install_tmp assms(2)) (simp add: tmp)
  qed
  then have "emits (copy_event root) (with_some (fits PATH_MAX (dst @ ''.syspckg-tmp.XXXXXX''))
      (\<lambda>template. State_Monad.bind (mkstemp env template)
        (\<lambda>t. with_some t (\<lambda>tmp_path. install_tmp env tmp_path content mode dst))))" for content
    by (auto intro!: emits_with_some)
  then show ?thesis
    unfolding copy_file_contents_def
    by (rule emits_bind [OF emits_queries(1) emits_with_some
          [OF emits_and_then [OF emits_parent_below(1) [OF assms(2)]]]])
qed

lemma emits_copy_symlink_entry:
  assumes "below root dst"
  shows "emits (copy_event root) (copy_symlink_entry env src dst)"
  unfolding copy_symlink_entry_def
  by (intro emits_intros emits_parent_below assms) (simp_all add: assms)

lemma emits_copy_regular:
  assumes "mkstemp_law env" and "below root dst"
  shows "emits (copy_event root) (copy_regular env src dst mode)"
  unfolding copy_regular_def
  by (intro emits_intros emits_copy_file_contents assms) (simp_all add: assms)

lemma emits_case_file_kind:
  assumes "emits P a" "emits P b" "emits P c" "emits P d" "emits P e"
  shows "emits P (case k of S_REG \<Rightarrow> a | S_DIR \<Rightarrow> b | S_LNK \<Rightarrow> c | S_BLK \<Rightarrow> d | S_OTHER \<Rightarrow> e)"
  using assms by (cases k) auto

lemma emits_copy_entry:
  assumes "mkstemp_law env" and "\<And>child. emits (copy_event root) (descend child)"
  shows "emits (copy_event root) (copy_entry env descend base rel root name)"
  unfolding copy_entry_def
  by (intro emits_intros emits_case_file_kind emits_parent_below emits_copy_regular
      emits_copy_symlink_entry assms target_below)

lemma emits_copy_tree:
  assumes "mkstemp_law env"
  shows "emits (copy_event root) (copy_tree fuel env base rel root)"
proof (induction fuel arbitrary: rel)
  case (Suc fuel)
  show ?case
    unfolding copy_tree.simps by (intro emits_intros emits_copy_entry assms Suc.IH)
qed (simp add: emits_ret)

text \<open>A removal, seen from the manifest that it reads.\<close>

definition remove_listed :: "env \<Rightarrow> string \<Rightarrow> string \<Rightarrow> string list \<Rightarrow> bool io" where
  "remove_listed env root pkg_name lines = do {
     _ \<leftarrow> each_io (\<lambda>path. effect env (Unlink path)) (manifest_paths (CHR ''F'') lines);
     and_then (run_remove_hook env root pkg_name) (do {
       _ \<leftarrow> each_io (\<lambda>dir. effect env (Rmdir dir))
             (rev (qsort cmp_dir_len_desc (manifest_paths (CHR ''D'') lines)));
       _ \<leftarrow> effect env (Unlink (manifest_path_of root pkg_name));
       (case fits PATH_MAX (hook_path_of root pkg_name) of
          None \<Rightarrow> ret True
        | Some hook_path \<Rightarrow> do { _ \<leftarrow> effect env (Unlink hook_path); ret True })
     })
   }"

lemma emits_remove_listed:
  "emits (removal_event root pkg (named_paths (CHR ''F'') lines) (named_paths (CHR ''D'') lines))
     (remove_listed env root pkg lines)"
  unfolding remove_listed_def run_remove_hook_def
  by (intro emits_intros)
     (auto simp: hook_path_of_def simp flip: set_manifest_paths)

lemma after_remove_pkg_impl:
  "after (remove_pkg_impl env root pkg protect) h =
     (if (protect \<and> is_packager_pkg_name pkg)
        \<or> fits PATH_MAX (manifest_path_of root pkg) = None
        \<or> e_open env h (manifest_path_of root pkg) = None
      then h else after (remove_listed env root pkg (manifest_lines env h root pkg)) h)"
  by (auto simp: remove_pkg_impl_def remove_listed_def manifest_lines_def manifest_path_of_def
      hook_path_of_def Let_def split: option.split)

lemma removal_trace:
  "\<exists>t. after (remove_pkg_impl env root pkg protect) h = h @ t \<and>
     list_all (removal_event root pkg
       (named_paths (CHR ''F'') (manifest_lines env h root pkg))
       (named_paths (CHR ''D'') (manifest_lines env h root pkg))) t"
  using emits_after [OF emits_remove_listed [of root pkg "manifest_lines env h root pkg" env]]
  by (auto simp: after_remove_pkg_impl)

section \<open>Properties\<close>

text \<open>
  C12. Removing a package touches nothing but what its manifest names: every file it unlinks and
  every directory it tries to remove is an absolute path without a \<^verbatim>\<open>/../\<close> step, or the manifest or
  hook of the package itself, and the only program it runs is the package's own remove hook.
\<close>

theorem remove_pkg_impl_confined:
  "\<exists>t. after (remove_pkg_impl env root pkg protect) h = h @ t \<and>
     list_all (removal_event root pkg
       (named_paths (CHR ''F'') (manifest_lines env h root pkg))
       (named_paths (CHR ''D'') (manifest_lines env h root pkg))) t"
  by (rule removal_trace)

text \<open>
  The command to remove a package refuses the package manager itself and then does nothing.
\<close>

theorem remove_pkg_protects_packager:
  assumes "is_packager_pkg_name pkg"
  shows "run_state (remove_pkg env root pkg) h = (False, h)"
  using assms by (simp add: remove_pkg_def remove_pkg_impl_def)

theorem remove_pkg_protects_packager_witness:
  "run_state (remove_pkg (listing_env []) ''/'' ''syspckg-1.0'') [] = (False, [])"
  by (rule remove_pkg_protects_packager) (simp add: is_packager_pkg_name_def)

text \<open>
  Directories are removed from the shortest path to the longest, so a directory of the package
  that lies inside another one is tried after it: the outer one is not empty at that time and
  stays behind.
\<close>

theorem rmdir_parents_first:
  assumes "rev (qsort cmp_dir_len_desc dirs) = earlier @ (dir @ ''/'' @ name) # later"
    and "dir \<in> set dirs"
  shows "dir \<in> set earlier \<and> dir \<notin> set later"
proof -
  have sorted: "sorted_wrt (\<lambda>a b. length a \<le> length b) (earlier @ (dir @ ''/'' @ name) # later)"
    using rmdir_order_shortest_first [of dirs] unfolding assms(1) .
  have "dir \<in> set (earlier @ (dir @ ''/'' @ name) # later)"
    using assms by (metis set_qsort set_rev)
  moreover have "dir \<notin> set later"
    using sorted by (force simp: sorted_wrt_append)
  ultimately show ?thesis by auto
qed

theorem rmdir_parents_first_witness:
  "''/opt/a'' \<in> set [''/opt/a''] \<and> ''/opt/a'' \<notin> set []"
  by (rule rmdir_parents_first [of "[''/opt/a/b'', ''/opt/a'']" _ _ "''b''"])
     (simp_all add: qsort_def cmp_dir_len_desc_def)

text \<open>
  C14. What an installation records is what a removal reads back: for entries whose paths fit a line
  and hold no line break, the paths of each type are recovered from the text of the manifest in
  order, those that may be removed being kept.
\<close>

theorem manifest_round_trip:
  assumes "list_all entry_ok es"
  shows "manifest_paths t (fgets_lines (PATH_MAX + 7) (manifest_text es)) =
    filter removable_path (map snd (filter (\<lambda>(u, p). u = t) es))"
  using manifest_lines [OF assms] manifest_paths_lines [OF assms] by simp

theorem manifest_round_trip_witness:
  "manifest_paths (CHR ''F'') (fgets_lines (PATH_MAX + 7)
     (manifest_text [(CHR ''F'', ''/bin/x''), (CHR ''D'', ''/bin'')])) =
   filter removable_path (map snd (filter (\<lambda>(u, p). u = CHR ''F'') [(CHR ''F'', ''/bin/x''), (CHR ''D'', ''/bin'')]))"
  by (rule manifest_round_trip) (simp add: entry_ok_def)

text \<open>
  The walk that fills a manifest appends entries for paths below the root only, and never lists
  the C library or the dynamic loader as a file to be removed, however it ends.
\<close>

theorem manifest_entries_listed:
  "\<exists>es. snd (result (add_manifest_entries fuel env base rel root []) h) = manifest_text es
    \<and> list_all (listed root) es"
  using add_manifest_entries_listed [of root "[]" fuel env base rel h]
  by (simp add: writes_listed_def)



text \<open>
  C40. The recursion of \<^verbatim>\<open>copy_tree\<close> ends: a depth of \<^verbatim>\<open>PATH_MAX\<close> levels is never exceeded, because
  every level lengthens a path that must stay below that bound, when \<^verbatim>\<open>readdir\<close> returns no empty name.
\<close>

theorem copy_tree_fuel_enough:
  assumes "nonempty_names env" and "tree_fuel \<le> n"
  shows "copy_tree n env base rel root = copy_tree tree_fuel env base rel root"
  using assms by (rule copy_tree_fuel)

theorem copy_tree_fuel_enough_witness:
  "copy_tree 5000 ((listing_env []) \<lparr>e_opendir := \<lambda>h p. Some [''usr'']\<rparr>) ''/tmp/x'' [] ''/mnt''
   = copy_tree tree_fuel ((listing_env []) \<lparr>e_opendir := \<lambda>h p. Some [''usr'']\<rparr>) ''/tmp/x'' [] ''/mnt''"
  by (rule copy_tree_fuel_enough) (simp_all add: nonempty_names_def)

end
