(* ===== verification/Boot.thy ===== *)
theory Boot
  imports FileOps
begin

text \<open>
  The boot configuration after a kernel update in \<^verbatim>\<open>tools/syspckg-old/main.c\<close>: the links under
  \<^verbatim>\<open>/boot\<close>, the kernel command line in \<^verbatim>\<open>/etc/default/grub\<close> and the generator scripts of GRUB.
\<close>

section \<open>Links\<close>

definition relink_boot_file :: "env \<Rightarrow> string \<Rightarrow> string \<Rightarrow> string \<Rightarrow> bool io" where
  "relink_boot_file env root target link_name =
     with_some (fits PATH_MAX (root @ ''/boot/'' @ link_name)) (\<lambda>link_path. do {
       r \<leftarrow> effect env (Unlink link_path);
       if r \<noteq> None \<and> r \<noteq> Some ENOENT then ret False
       else succeeds env (Symlink target link_path)
     })"

definition exists_at :: "env \<Rightarrow> string \<Rightarrow> bool io" where
  "exists_at env path = (if length path < PATH_MAX then file_exists env path else ret False)"

definition target_uses_uefi :: "env \<Rightarrow> string \<Rightarrow> bool io" where
  "target_uses_uefi env root =
     or_else (exists_at env (root @ ''/sys/firmware/efi'')) (exists_at env (root @ ''/boot/efi''))"

definition target_grub_package :: "env \<Rightarrow> string \<Rightarrow> string io" where
  "target_grub_package env root = do {
     uefi \<leftarrow> target_uses_uefi env root;
     ret (if uefi then ''grub-efi'' else ''grub-bios'')
   }"

definition run_grub_mkconfig :: "env \<Rightarrow> string \<Rightarrow> bool io" where
  "run_grub_mkconfig env root =
     run_cmd env [''chroot'', root, ''/usr/sbin/grub-mkconfig'', ''-o'', ''/boot/grub/grub.cfg'']"

section \<open>The kernel command line\<close>

definition root_arg_end :: "char \<Rightarrow> bool" where
  "root_arg_end c \<longleftrightarrow> isspace c \<or> c = DQ \<or> c = SQ"

text \<open>The first line that holds \<^verbatim>\<open>root=\<close> decides; an argument that does not fit is an error.\<close>

fun root_arg_lines :: "string list \<Rightarrow> nat \<Rightarrow> string option" where
  "root_arg_lines [] out_sz = None"
| "root_arg_lines (line # rest) out_sz =
     (case strstr line ''root='' of
        None \<Rightarrow> root_arg_lines rest out_sz
      | Some i \<Rightarrow>
          let arg = takeWhile (\<lambda>c. \<not> root_arg_end c) (drop i line) in
          if arg = [] then None else fits out_sz arg)"

definition root_arg_from_file :: "env \<Rightarrow> string \<Rightarrow> nat \<Rightarrow> string option io" where
  "root_arg_from_file env path out_sz =
     (if out_sz = 0 then ret None
      else do {
        fp \<leftarrow> open_file env path;
        ret (case fp of None \<Rightarrow> None | Some content \<Rightarrow> root_arg_lines (fgets_lines 2047 content) out_sz)
      })"

definition default_grub_text :: "string \<Rightarrow> string" where
  "default_grub_text root_arg =
     ''GRUB_TIMEOUT=10'' @ [LF] @
     ''GRUB_DEFAULT=0'' @ [LF] @
     ''GRUB_CMDLINE_LINUX='' @ [DQ] @ root_arg @
     '' rootfstype=ext4 rootwait rootdelay=5 rw console=ttyS0 console=tty1 libata.force=noncq'' @ [DQ] @ [LF] @
     ''GRUB_CMDLINE_LINUX_DEFAULT='' @ [DQ] @ ''quiet'' @ [DQ] @ [LF]"

definition find_root_arg :: "env \<Rightarrow> string \<Rightarrow> string \<Rightarrow> string option io" where
  "find_root_arg env default_path grub_cfg_path = do {
     a \<leftarrow> root_arg_from_file env default_path 256;
     (case a of Some _ \<Rightarrow> ret a | None \<Rightarrow> root_arg_from_file env grub_cfg_path 256)
   }"

definition write_default_grub :: "env \<Rightarrow> string \<Rightarrow> bool io" where
  "write_default_grub env root =
     with_some (fits PATH_MAX (root @ ''/etc/default/grub'')) (\<lambda>default_path.
     with_some (fits PATH_MAX (root @ ''/boot/grub/grub.cfg'')) (\<lambda>grub_cfg_path. do {
       found \<leftarrow> find_root_arg env default_path grub_cfg_path;
       with_some found (\<lambda>root_arg.
       with_some (fits 1024 (default_grub_text root_arg)) (\<lambda>contents.
       and_then (ensure_parent_dir env default_path 0x1ED)
       (with_some (fits PATH_MAX (default_path @ ''.syspckg-tmp.XXXXXX'')) (\<lambda>template. do {
          t \<leftarrow> mkstemp env template;
          with_some t (\<lambda>temp_path. install_tmp env temp_path contents 0x1A4 default_path)
        }))))
     }))"

section \<open>Generators\<close>

definition chmod_grub_generator :: "env \<Rightarrow> string \<Rightarrow> string \<Rightarrow> mode_t \<Rightarrow> string \<Rightarrow> bool io" where
  "chmod_grub_generator env root dir mode name =
     with_some (fits PATH_MAX (root @ ''/'' @ dir @ ''/'' @ name)) (\<lambda>path. do {
       r \<leftarrow> effect env (Chmod path mode);
       ret (r = None \<or> r = Some ENOENT)
     })"

definition disabled_generators :: "string list" where
  "disabled_generators =
     [''10_linux'', ''20_linux_xen'', ''25_bli'', ''30_os-prober'',
      ''30_uefi-firmware'', ''40_custom'', ''41_custom'']"

definition disable_standard_grub_generators :: "env \<Rightarrow> string \<Rightarrow> bool io" where
  "disable_standard_grub_generators env root =
     all_io (\<lambda>dir.
       and_then (all_io (chmod_grub_generator env root dir 0x1A4) disabled_generators)
       (and_then (chmod_grub_generator env root dir 0x1ED ''00_header'')
                 (chmod_grub_generator env root dir 0x1ED ''10_adavalinux'')))
       [''usr/etc/grub.d'', ''etc/grub.d'']"

section \<open>After a kernel update\<close>

definition relink_initrd :: "env \<Rightarrow> string \<Rightarrow> bool io" where
  "relink_initrd env root = do {
     initrd \<leftarrow> latest_boot_version env root ''initramfs-disk-'' ''.gz'' 128 128;
     (case initrd of
        None \<Rightarrow> ret True
      | Some (initrd_latest, _) \<Rightarrow>
          relink_boot_file env root (trunc 256 (''initramfs-disk-'' @ initrd_latest @ ''.gz''))
            ''initramfs-disk.gz'')
   }"

definition configure_kernel_update_boot :: "env \<Rightarrow> string \<Rightarrow> bool io" where
  "configure_kernel_update_boot env root = do {
     kernel \<leftarrow> latest_boot_version env root ''vmlinuz-'' [] 128 128;
     with_some kernel (\<lambda>(latest, previous).
       and_then (relink_boot_file env root (trunc 256 (''vmlinuz-'' @ latest)) ''vmlinuz'')
       (and_then (relink_initrd env root)
       (and_then (write_default_grub env root)
       (and_then (disable_standard_grub_generators env root)
                 (run_grub_mkconfig env root)))))
   }"

section \<open>Lemmas\<close>

lemma root_arg_lines_shape:
  "root_arg_lines lines n = Some arg \<Longrightarrow>
    prefix ''root='' arg \<and> length arg < n \<and> list_all (\<lambda>c. \<not> root_arg_end c) arg"
proof (induction lines)
  case (Cons line lines)
  show ?case
  proof (cases "strstr line ''root=''")
    case None
    with Cons show ?thesis by simp
  next
    case (Some i)
    let ?arg = "takeWhile (\<lambda>c. \<not> root_arg_end c) (drop i line)"
    from Cons.prems Some have arg: "arg = ?arg" "length arg < n"
      by (simp_all add: Let_def split: if_splits)
    from strstr_Some [OF Some] obtain r where r: "drop i line = ''root='' @ r"
      by (auto simp: prefix_def)
    have "\<not> root_arg_end c" if "c \<in> set ''root=''" for c
      using that by (auto simp: root_arg_end_def isspace_def less_eq_char_def)
    then have "arg = ''root='' @ takeWhile (\<lambda>c. \<not> root_arg_end c) r"
      unfolding arg r by (rule takeWhile_append2)
    then have "prefix ''root='' arg" by simp
    moreover have "list_all (\<lambda>c. \<not> root_arg_end c) arg"
      unfolding arg(1) by (auto simp: list_all_iff dest: set_takeWhileD)
    ultimately show ?thesis using arg(2) by simp
  qed
qed simp

lemma emits_any_install_tmp: "emits (\<lambda>_. True) (install_tmp env tmp content mode dst)"
  by (auto simp: install_tmp_def intro!: emits_intros)

lemma emits_any_boot:
  "emits (\<lambda>_. True) (relink_boot_file env root target name)"
  "emits (\<lambda>_. True) (write_default_grub env root)"
  "emits (\<lambda>_. True) (disable_standard_grub_generators env root)"
  "emits (\<lambda>_. True) (run_grub_mkconfig env root)"
  unfolding relink_boot_file_def write_default_grub_def find_root_arg_def root_arg_from_file_def
    disable_standard_grub_generators_def chmod_grub_generator_def run_grub_mkconfig_def
  by (intro emits_intros emits_any_install_tmp emits_ensure_parent_dir TrueI)+

lemma emits_latest_boot_version [emits_intros]:
  "emits P (latest_boot_version env root pre suf a b)"
  unfolding latest_boot_version_def by (auto intro!: emits_intros split: prod.split)

lemma emits_any_relink_initrd: "emits (\<lambda>_. True) (relink_initrd env root)"
  unfolding relink_initrd_def by (intro emits_intros emits_any_boot TrueI)

lemma relink_boot_file_ok:
  assumes "result (relink_boot_file env root target name) h"
  shows "after (relink_boot_file env root target name) h =
    h @ [Unlink (root @ ''/boot/'' @ name), Symlink target (root @ ''/boot/'' @ name)]"
  using assms by (auto simp: relink_boot_file_def split: if_splits option.splits)

section \<open>Properties\<close>

text \<open>
  The kernel argument taken over into the new GRUB defaults starts with \<^verbatim>\<open>root=\<close> and holds no
  white space and no quote, so it stays one argument inside the quoted command line.
\<close>

theorem root_arg_single_argument:
  assumes "result (root_arg_from_file env path out_sz) h = Some arg"
  shows "prefix ''root='' arg \<and> length arg < out_sz \<and> list_all (\<lambda>c. \<not> root_arg_end c) arg"
  using assms root_arg_lines_shape
  by (auto simp: root_arg_from_file_def split: if_splits option.splits)

theorem root_arg_single_argument_witness:
  "prefix ''root='' ''root=/dev/sda2'' \<and> length ''root=/dev/sda2'' < 256
    \<and> list_all (\<lambda>c. \<not> root_arg_end c) ''root=/dev/sda2''"
  by (rule root_arg_single_argument
        [of "(listing_env []) \<lparr>e_open := \<lambda>h p. Some ''linux root=/dev/sda2 rw''\<rparr>" "''grub.cfg''" _ "[]"])
     code_simp

text \<open>
  When the boot configuration succeeds, the link \<^verbatim>\<open>/boot/vmlinuz\<close> was made to point to the newest
  installed kernel before anything else was changed.
\<close>

theorem kernel_update_links_newest:
  assumes "result (configure_kernel_update_boot env root) h"
  shows "\<exists>latest previous rest.
    result (latest_boot_version env root ''vmlinuz-'' [] 128 128) h = Some (latest, previous)
    \<and> after (configure_kernel_update_boot env root) h =
        h @ [Unlink (root @ ''/boot/vmlinuz''), Symlink (trunc 256 (''vmlinuz-'' @ latest)) (root @ ''/boot/vmlinuz'')]
          @ rest"
proof -
  let ?boot = "latest_boot_version env root ''vmlinuz-'' [] 128 128"
  let ?relink = "\<lambda>latest. relink_boot_file env root (trunc 256 (''vmlinuz-'' @ latest)) ''vmlinuz''"
  let ?rest = "and_then (relink_initrd env root) (and_then (write_default_grub env root)
       (and_then (disable_standard_grub_generators env root) (run_grub_mkconfig env root)))"
  have boot: "after ?boot h = h"
    by (rule emits_nothing) (rule emits_latest_boot_version)
  obtain latest previous where kernel: "result ?boot h = Some (latest, previous)"
    and ok: "result (?relink latest) h"
    using assms boot by (auto simp: configure_kernel_update_boot_def)
  have "emits (\<lambda>_. True) ?rest"
    by (intro emits_and_then emits_any_relink_initrd emits_any_boot)
  then obtain t where "after ?rest (after (?relink latest) h) = after (?relink latest) h @ t"
    using emits_after by blast
  with kernel ok boot relink_boot_file_ok [OF ok] have
    "after (configure_kernel_update_boot env root) h =
        h @ [Unlink (root @ ''/boot/vmlinuz''), Symlink (trunc 256 (''vmlinuz-'' @ latest)) (root @ ''/boot/vmlinuz'')] @ t"
    unfolding configure_kernel_update_boot_def after_bind boot
    by (simp only: with_some_def option.case prod.case after_and_then [of "?relink latest"] if_True) simp
  with kernel show ?thesis by blast
qed

definition kernel_env :: env where
  "kernel_env = (listing_env [])
     \<lparr>e_opendir := \<lambda>h p. Some [''vmlinuz-6.9'', ''vmlinuz-6.10''],
      e_open := \<lambda>h p. Some ''root=/dev/sda2'', e_mkstemp := \<lambda>h t. Some t\<rparr>"

theorem kernel_update_links_newest_witness:
  "\<exists>latest previous rest.
    result (latest_boot_version kernel_env ''/mnt'' ''vmlinuz-'' [] 128 128) [] = Some (latest, previous)
    \<and> after (configure_kernel_update_boot kernel_env ''/mnt'') [] =
        [] @ [Unlink (''/mnt'' @ ''/boot/vmlinuz''), Symlink (trunc 256 (''vmlinuz-'' @ latest)) (''/mnt'' @ ''/boot/vmlinuz'')]
          @ rest"
  by (rule kernel_update_links_newest) code_simp

end
