(* ===== verification/Transaction.thy ===== *)
theory Transaction
  imports Boot InstallOrder
begin

text \<open>
  The installation transaction of \<^verbatim>\<open>tools/syspckg-old/main.c\<close>: phase 1 collects the plans of the
  requested package and its dependencies, phase 2 unpacks the archives, phase 3 copies the files
  of every package in dependency order and then runs the install hooks in the same order.
\<close>

section \<open>Phase 1: collecting the plans\<close>

text \<open>The options and values of \<^verbatim>\<open>main\<close> that the phases use.\<close>

record request =
  q_root :: string
  q_tmpdir :: string
  q_local_only :: bool
  q_is_update :: bool
  q_is_download :: bool
  q_with_deps :: bool
  q_no_deps :: bool
  q_update_kernel :: bool
  q_assume_yes :: bool
  q_os_id :: string
  q_os_version :: string
  q_expected_version :: string
  q_initial_selector :: string

definition expected_version :: "request \<Rightarrow> string" where
  "expected_version rq = (if q_expected_version rq \<noteq> [] then q_expected_version rq else q_os_version rq)"

text \<open>The name a package is installed under: the version is appended unless the name ends in it.\<close>

definition install_name_of :: "string \<Rightarrow> string \<Rightarrow> string option" where
  "install_name_of pkg_name pkg_ver =
     (case fits PATH_MAX pkg_name of None \<Rightarrow> None
      | Some name \<Rightarrow>
          if pkg_ver \<noteq> [] \<and> length (''-'' @ pkg_ver) < 128 \<and> \<not> has_suffix name (''-'' @ pkg_ver)
          then fits PATH_MAX (pkg_name @ ''-'' @ pkg_ver)
          else Some name)"

text \<open>
  What one turn makes of a selector: an error ends the transaction; for anything but the package
  asked for, a problem only records a missing dependency.
\<close>

datatype plan_step = Abort | MissingDep | Planned pkg_plan

definition make_plan ::
  "env \<Rightarrow> request \<Rightarrow> string \<Rightarrow> string \<Rightarrow> string \<Rightarrow> string \<times> string \<times> string \<times> string list \<Rightarrow> string \<Rightarrow> plan_step io" where
  "make_plan env rq selector pkg_name archive_path meta install_name = do {
     let (pkg_ver, pkg_id, pkg_version, deps) = meta;
     found \<leftarrow> find_installed_package_for_update env (q_root rq) install_name PATH_MAX;
     (case found of
        FindError \<Rightarrow> ret Abort
      | _ \<Rightarrow>
          let installed_name = (case found of Found name \<Rightarrow> name | _ \<Rightarrow> []) in
          if \<not> q_is_update rq \<and> selector = q_initial_selector rq \<and> found \<noteq> NotFound
             \<and> installed_name \<noteq> install_name
          then ret Abort
          else do {
            present \<leftarrow> is_pkg_installed env (q_root rq) install_name;
            ret (Planned
              \<lparr>p_selector = selector, p_pkg_name = pkg_name, p_archive_path = archive_path,
               p_install_name = install_name, p_pkg_id = pkg_id, p_pkg_version = pkg_version,
               p_pkg_ver = pkg_ver, p_extract_dir = [], p_install_dir = [],
               p_installed_name = installed_name, p_deps = deps,
               p_installed = (if q_is_update rq \<and> q_with_deps rq then False else present),
               p_extracted = False\<rparr>)
          })
   }"

definition acceptable :: "request \<Rightarrow> string \<times> string \<times> string \<times> string list \<Rightarrow> bool" where
  "acceptable rq meta =
     (let (pkg_ver, pkg_id, pkg_version, deps) = meta in
      is_safe_id pkg_id \<and> is_safe_version pkg_version \<and> is_safe_version pkg_ver
      \<and> pkg_id = q_os_id rq \<and> pkg_version = expected_version rq)"

definition plan_package :: "env \<Rightarrow> request \<Rightarrow> string \<Rightarrow> plan_step io" where
  "plan_package env rq selector =
     (let give_up = (if selector = q_initial_selector rq then Abort else MissingDep) in
      if length selector \<ge> PATH_MAX then ret Abort
      else do {
        archive \<leftarrow> resolve_pkg_archive_path env (q_root rq) (q_tmpdir rq) selector (q_local_only rq);
        (case archive of
           None \<Rightarrow> ret give_up
         | Some (pkg_name, archive_path) \<Rightarrow> do {
             meta \<leftarrow> read_pkg_metadata_from_archive env (q_tmpdir rq) archive_path;
             (case meta of
                None \<Rightarrow> ret give_up
              | Some m \<Rightarrow>
                  if \<not> acceptable rq m then ret give_up
                  else case install_name_of pkg_name (fst m) of
                    None \<Rightarrow> ret Abort
                  | Some install_name \<Rightarrow> make_plan env rq selector pkg_name archive_path m install_name)
           })
      })"

definition already_present :: "env \<Rightarrow> request \<Rightarrow> string \<Rightarrow> bool io" where
  "already_present env rq selector =
     (if CHR ''/'' \<notin> set selector \<and> \<not> has_suffix selector ''.syspckg''
         \<and> selector_has_explicit_version selector \<and> \<not> q_is_download rq
      then is_pkg_installed env (q_root rq) selector
      else ret False)"

definition include_deps :: "request \<Rightarrow> bool" where
  "include_deps rq \<longleftrightarrow> \<not> q_no_deps rq \<and> (\<not> q_is_update rq \<or> q_with_deps rq)"

definition wanted_dep :: "pkg_plan \<Rightarrow> string \<Rightarrow> bool" where
  "wanted_dep plan dep \<longleftrightarrow>
     is_safe_pkgname dep \<and> dep \<noteq> p_install_name plan \<and> dep \<noteq> p_pkg_name plan"

definition enqueue_deps :: "request \<Rightarrow> pkg_plan \<Rightarrow> string list \<Rightarrow> string list" where
  "enqueue_deps rq plan queue =
     (if include_deps rq
      then foldl (\<lambda>q dep. if wanted_dep plan dep then add_name q dep else q) queue (p_deps plan)
      else queue)"

datatype collected = CollectOutOfFuel | CollectFailed | Collected "pkg_plan list" "string list"

text \<open>
  The loop over the queue; \<open>idx\<close> is \<^verbatim>\<open>queue_idx\<close>. Every turn takes one element, and an element is
  only added when the queue does not hold it yet; \<open>fuel\<close> bounds the number of turns.
\<close>

fun collect_plans ::
  "nat \<Rightarrow> env \<Rightarrow> request \<Rightarrow> string list \<Rightarrow> nat \<Rightarrow> pkg_plan list \<Rightarrow> string list \<Rightarrow> collected io" where
  "collect_plans 0 env rq queue idx plans missing = ret CollectOutOfFuel"
| "collect_plans (Suc fuel) env rq queue idx plans missing =
     (if idx \<ge> length queue then ret (Collected plans missing)
      else if find_plan_by_selector plans (queue ! idx) \<noteq> None
      then collect_plans fuel env rq queue (Suc idx) plans missing
      else do {
        present \<leftarrow> already_present env rq (queue ! idx);
        if present then collect_plans fuel env rq queue (Suc idx) plans missing
        else do {
          step \<leftarrow> plan_package env rq (queue ! idx);
          (case step of
             Abort \<Rightarrow> ret CollectFailed
           | MissingDep \<Rightarrow>
               collect_plans fuel env rq queue (Suc idx) plans (missing @ [queue ! idx])
           | Planned plan \<Rightarrow>
               collect_plans fuel env rq (enqueue_deps rq plan queue) (Suc idx) (plans @ [plan]) missing)
        }
      })"

definition initial_queue :: "env \<Rightarrow> request \<Rightarrow> string list io" where
  "initial_queue env rq =
     (if q_update_kernel rq
      then do { grub \<leftarrow> target_grub_package env (q_root rq); ret [q_initial_selector rq, grub] }
      else ret [q_initial_selector rq])"

section \<open>Phase 2: extraction\<close>

definition extract_plan :: "env \<Rightarrow> string \<Rightarrow> nat \<Rightarrow> pkg_plan \<Rightarrow> pkg_plan option io" where
  "extract_plan env tmpdir i p =
     (if p_installed p then ret (Some p)
      else case fits PATH_MAX (tmpdir @ ''/extract-'' @ dec i) of
        None \<Rightarrow> ret None
      | Some extract_dir \<Rightarrow> do {
          ok \<leftarrow> and_then (ensure_dir_recursive env extract_dir 0x1ED)
                 (run_cmd env [''tar'', ''-xJf'', p_archive_path p, ''-C'', extract_dir]);
          if \<not> ok then ret None
          else bind_some (find_install_dir env extract_dir PATH_MAX) (\<lambda>install_dir.
            ret (Some (p \<lparr>p_extract_dir := extract_dir, p_install_dir := install_dir, p_extracted := True\<rparr>)))
        })"

fun extract_all :: "env \<Rightarrow> string \<Rightarrow> nat \<Rightarrow> pkg_plan list \<Rightarrow> pkg_plan list option io" where
  "extract_all env tmpdir i [] = ret (Some [])"
| "extract_all env tmpdir i (p # ps) =
     bind_some (extract_plan env tmpdir i p) (\<lambda>p'.
     bind_some (extract_all env tmpdir (Suc i) ps) (\<lambda>ps'. ret (Some (p' # ps'))))"

section \<open>Phase 3: staging and hooks\<close>

definition remove_old_version :: "env \<Rightarrow> request \<Rightarrow> pkg_plan \<Rightarrow> bool io" where
  "remove_old_version env rq p =
     (if q_is_update rq \<and> p_installed_name p \<noteq> [] \<and> p_installed_name p \<noteq> p_install_name p
      then remove_pkg_impl env (q_root rq) (p_installed_name p) False
      else ret True)"

definition stage_package :: "env \<Rightarrow> request \<Rightarrow> pkg_plan \<Rightarrow> bool io" where
  "stage_package env rq p =
     and_then (remove_old_version env rq p)
     (and_then (copy_tree tree_fuel env (p_install_dir p) [] (q_root rq))
     (and_then (write_manifest env (p_install_dir p) (q_root rq) (p_install_name p)) (do {
        saved \<leftarrow> save_remove_hook env (p_install_dir p) (q_root rq) (p_install_name p);
        if saved then ret True
        else do {
          _ \<leftarrow> remove_pkg_impl env (q_root rq) (p_install_name p) False;
          ret False
        }
      })))"

text \<open>A plan that takes part in phase 3; a failed plan loses its mark and counts as an error.\<close>

definition active :: "pkg_plan \<Rightarrow> bool" where
  "active p \<longleftrightarrow> \<not> p_installed p \<and> p_extracted p"

fun stage_all :: "env \<Rightarrow> request \<Rightarrow> nat list \<Rightarrow> pkg_plan list \<Rightarrow> nat \<Rightarrow> (pkg_plan list \<times> nat) io" where
  "stage_all env rq [] plans errors = ret (plans, errors)"
| "stage_all env rq (i # order) plans errors =
     (if \<not> active (plans ! i) then stage_all env rq order plans errors
      else do {
        ok \<leftarrow> stage_package env rq (plans ! i);
        if ok then stage_all env rq order plans errors
        else stage_all env rq order (plans[i := (plans ! i) \<lparr>p_extracted := False\<rparr>]) (Suc errors)
      })"

definition hook_package :: "env \<Rightarrow> request \<Rightarrow> pkg_plan \<Rightarrow> bool io" where
  "hook_package env rq p = do {
     ok \<leftarrow> run_package_hook env (p_install_dir p) (q_root rq) ''install'';
     if ok then ret True
     else do { _ \<leftarrow> remove_pkg_impl env (q_root rq) (p_install_name p) False; ret False }
   }"

fun hook_all :: "env \<Rightarrow> request \<Rightarrow> nat list \<Rightarrow> pkg_plan list \<Rightarrow> nat \<Rightarrow> nat io" where
  "hook_all env rq [] plans errors = ret errors"
| "hook_all env rq (i # order) plans errors =
     (if \<not> active (plans ! i) then hook_all env rq order plans errors
      else do {
        ok \<leftarrow> hook_package env rq (plans ! i);
        hook_all env rq order plans (if ok then errors else Suc errors)
      })"

definition install_packages :: "env \<Rightarrow> request \<Rightarrow> nat list \<Rightarrow> pkg_plan list \<Rightarrow> bool io" where
  "install_packages env rq order plans = do {
     staged \<leftarrow> stage_all env rq order plans 0;
     if snd staged > 0 then ret False
     else and_then (refresh_dynamic_linker_cache env (q_root rq)) (do {
       errors \<leftarrow> hook_all env rq order (fst staged) 0;
       if errors > 0 then ret False else refresh_dynamic_linker_cache env (q_root rq)
     })
   }"

definition download_packages :: "env \<Rightarrow> string \<Rightarrow> pkg_plan list \<Rightarrow> bool io" where
  "download_packages env download_output plans =
     all_io (\<lambda>p. copy_archive_to_dir env (p_archive_path p) download_output) plans"

section \<open>The whole transaction\<close>

text \<open>The exit code; \<open>fuel\<close> bounds the turns of phase 1, running out of it counts as no exit.\<close>

definition finish_install :: "env \<Rightarrow> request \<Rightarrow> pkg_plan list \<Rightarrow> int io" where
  "finish_install env rq plans = do {
     extracted \<leftarrow> extract_all env (q_tmpdir rq) 0 plans;
     (case extracted of
        None \<Rightarrow> ret 1
      | Some plans' \<Rightarrow>
          (case install_order plans' of
             None \<Rightarrow> ret 1
           | Some order \<Rightarrow> do {
               ok \<leftarrow> and_then (install_packages env rq order plans')
                      (if q_update_kernel rq then configure_kernel_update_boot env (q_root rq) else ret True);
               ret (if ok then 0 else 1)
             }))
   }"

definition after_collect :: "env \<Rightarrow> request \<Rightarrow> string \<Rightarrow> pkg_plan list \<Rightarrow> string list \<Rightarrow> int io" where
  "after_collect env rq download_output plans missing =
     (if missing \<noteq> [] then ret 1
      else if q_is_download rq then do {
        ok \<leftarrow> download_packages env download_output plans;
        ret (if ok then 0 else 1)
      }
      else
        let names = map p_install_name (filter (\<lambda>p. \<not> p_installed p) plans) in
        if names = [] then ret 0
        else do {
          yes \<leftarrow> (if q_assume_yes rq then ret True else ask_install_confirmation env names);
          if \<not> yes then ret 0 else finish_install env rq plans
        })"

definition transaction :: "nat \<Rightarrow> env \<Rightarrow> request \<Rightarrow> string \<Rightarrow> int option io" where
  "transaction fuel env rq download_output = do {
     queue \<leftarrow> initial_queue env rq;
     c \<leftarrow> collect_plans fuel env rq queue 0 [] [];
     (case c of
        CollectOutOfFuel \<Rightarrow> ret None
      | CollectFailed \<Rightarrow> ret (Some 1)
      | Collected plans missing \<Rightarrow> do {
          rc \<leftarrow> after_collect env rq download_output plans missing;
          ret (Some rc)
        })
   }"

section \<open>Lemmas: phase 1\<close>

definition fits_target :: "request \<Rightarrow> pkg_plan \<Rightarrow> bool" where
  "fits_target rq p \<longleftrightarrow>
     p_pkg_id p = q_os_id rq \<and> p_pkg_version p = expected_version rq
     \<and> is_safe_id (p_pkg_id p) \<and> is_safe_version (p_pkg_version p) \<and> is_safe_version (p_pkg_ver p)"

definition metadata_seen :: "env \<Rightarrow> request \<Rightarrow> pkg_plan \<Rightarrow> bool" where
  "metadata_seen env rq p \<longleftrightarrow>
     (\<exists>h. result (read_pkg_metadata_from_archive env (q_tmpdir rq) (p_archive_path p)) h =
        Some (p_pkg_ver p, p_pkg_id p, p_pkg_version p, p_deps p))"

lemma make_plan_Planned:
  assumes "result (make_plan env rq selector pkg_name archive_path (pv, pid, v, deps) install_name) h = Planned p"
  shows "p_selector p = selector \<and> p_archive_path p = archive_path \<and> p_pkg_ver p = pv
    \<and> p_pkg_id p = pid \<and> p_pkg_version p = v \<and> p_deps p = deps"
  using assms unfolding make_plan_def by (auto simp: Let_def split: find_result.splits if_splits)

lemma plan_package_Planned:
  assumes "result (plan_package env rq selector) h = Planned p"
  shows "p_selector p = selector \<and> fits_target rq p \<and> metadata_seen env rq p"
proof -
  obtain pkg_name archive_path m install_name h1 h2 where
    meta: "result (read_pkg_metadata_from_archive env (q_tmpdir rq) archive_path) h1 = Some m"
    and acc: "acceptable rq m"
    and plan: "result (make_plan env rq selector pkg_name archive_path m install_name) h2 = Planned p"
    using assms unfolding plan_package_def
    by (auto simp: Let_def split: option.splits if_splits prod.splits)
  obtain pv pid v deps where m: "m = (pv, pid, v, deps)" by (cases m)
  from make_plan_Planned [OF plan [unfolded m]] meta acc show ?thesis
    unfolding m by (auto simp: fits_target_def acceptable_def metadata_seen_def)
qed

lemma enqueue_fold:
  "\<exists>new. foldl (\<lambda>q dep. if wanted_dep plan dep then add_name q dep else q) queue deps = queue @ new
     \<and> distinct new \<and> set new \<inter> set queue = {} \<and> set new \<subseteq> set deps
     \<and> {d \<in> set deps. wanted_dep plan d} \<subseteq> set queue \<union> set new"
proof (induction deps arbitrary: queue)
  case (Cons d deps)
  show ?case
  proof (cases "wanted_dep plan d \<and> d \<notin> set queue")
    case True
    from Cons.IH [of "queue @ [d]"] obtain new where
      "foldl (\<lambda>q dep. if wanted_dep plan dep then add_name q dep else q) (queue @ [d]) deps = (queue @ [d]) @ new"
      "distinct new" "set new \<inter> set (queue @ [d]) = {}" "set new \<subseteq> set deps"
      "{d \<in> set deps. wanted_dep plan d} \<subseteq> set (queue @ [d]) \<union> set new" by blast
    with True show ?thesis
      by (intro exI [of _ "d # new"]) (auto simp: add_name_def)
  next
    case False
    then have step: "(if wanted_dep plan d then add_name queue d else queue) = queue"
      by (auto simp: add_name_def)
    from Cons.IH [of queue] obtain new where
      "foldl (\<lambda>q dep. if wanted_dep plan dep then add_name q dep else q) queue deps = queue @ new"
      "distinct new" "set new \<inter> set queue = {}" "set new \<subseteq> set deps"
      "{d \<in> set deps. wanted_dep plan d} \<subseteq> set queue \<union> set new" by blast
    with False step show ?thesis
      by (intro exI [of _ new]) auto
  qed
qed simp

lemma enqueue_deps_spec:
  obtains new where "enqueue_deps rq plan queue = queue @ new" "distinct new"
    "set new \<inter> set queue = {}" "set new \<subseteq> set (p_deps plan)"
    "include_deps rq \<Longrightarrow> {d \<in> set (p_deps plan). wanted_dep plan d} \<subseteq> set queue \<union> set new"
proof (cases "include_deps rq")
  case True
  with enqueue_fold [of plan queue "p_deps plan"] that show ?thesis
    by (auto simp: enqueue_deps_def)
next
  case False
  with that [of "[]"] show ?thesis by (simp add: enqueue_deps_def)
qed

text \<open>One turn that plans a package keeps the number of turns that can still follow below the fuel.\<close>

lemma enqueue_measure:
  assumes "finite U" and "set (p_deps plan) \<subseteq> U" and "idx < length queue"
  shows "length (enqueue_deps rq plan queue) - Suc idx + card (U - set (enqueue_deps rq plan queue))
    < length queue - idx + card (U - set queue)"
proof -
  obtain new where new: "enqueue_deps rq plan queue = queue @ new" "distinct new"
    "set new \<inter> set queue = {}" "set new \<subseteq> set (p_deps plan)"
    by (rule enqueue_deps_spec)
  have "set new \<subseteq> U - set queue"
    using new(3,4) assms(2) by blast
  then have "card (U - set queue - set new) = card (U - set queue) - length new"
    "length new \<le> card (U - set queue)"
    using new(2) assms(1) by (simp_all add: card_Diff_subset distinct_card card_mono flip: distinct_card)
  moreover have "U - set (queue @ new) = U - set queue - set new" by auto
  ultimately show ?thesis
    unfolding new(1) using assms(3) by simp
qed

definition deps_universe :: "env \<Rightarrow> request \<Rightarrow> string set \<Rightarrow> bool" where
  "deps_universe env rq U \<longleftrightarrow> finite U \<and>
     (\<forall>h archive pv pid v deps.
        result (read_pkg_metadata_from_archive env (q_tmpdir rq) archive) h = Some (pv, pid, v, deps)
        \<longrightarrow> set deps \<subseteq> U)"

lemma collect_plans_fuel:
  assumes "deps_universe env rq U"
  shows "length queue - idx + card (U - set queue) < fuel \<Longrightarrow>
    result (collect_plans fuel env rq queue idx plans missing) h \<noteq> CollectOutOfFuel"
proof (induction fuel arbitrary: queue idx plans missing h)
  case (Suc fuel)
  show ?case
  proof (cases "idx < length queue")
    case True
    have next_turn: "length queue - Suc idx + card (U - set queue) < fuel"
      using Suc.prems True by linarith
    have planned: "length (enqueue_deps rq plan queue) - Suc idx
        + card (U - set (enqueue_deps rq plan queue)) < fuel" if "metadata_seen env rq plan" for plan
      using enqueue_measure [of U plan idx queue rq] assms that True Suc.prems
      by (fastforce simp: deps_universe_def metadata_seen_def)
    show ?thesis
      using True Suc.IH [OF next_turn] Suc.IH [OF planned] plan_package_Planned [of env rq "queue ! idx"]
      by (auto split: plan_step.splits)
  qed simp
qed simp

text \<open>An element of the queue that the loop has dealt with.\<close>

definition handled :: "env \<Rightarrow> request \<Rightarrow> pkg_plan list \<Rightarrow> string list \<Rightarrow> string \<Rightarrow> bool" where
  "handled env rq plans missing sel \<longleftrightarrow>
     sel \<in> p_selector ` set plans \<or> sel \<in> set missing \<or> (\<exists>h. result (already_present env rq sel) h)"

definition collect_inv ::
  "env \<Rightarrow> request \<Rightarrow> string list \<Rightarrow> nat \<Rightarrow> pkg_plan list \<Rightarrow> string list \<Rightarrow> bool" where
  "collect_inv env rq queue idx plans missing \<longleftrightarrow>
     idx \<le> length queue \<and> (\<forall>k < idx. handled env rq plans missing (queue ! k))
     \<and> (\<forall>p \<in> set plans. fits_target rq p
          \<and> (include_deps rq \<longrightarrow> {d \<in> set (p_deps p). wanted_dep p d} \<subseteq> set queue))"

lemma collect_inv_next:
  assumes "collect_inv env rq queue idx plans missing" and "idx < length queue"
    and "set plans \<subseteq> set plans'" "set missing \<subseteq> set missing'"
    and "handled env rq plans' missing' (queue ! idx)"
    and "\<And>p. p \<in> set plans' \<Longrightarrow> p \<in> set plans \<or> fits_target rq p \<and>
          (include_deps rq \<longrightarrow> {d \<in> set (p_deps p). wanted_dep p d} \<subseteq> set (queue @ new))"
  shows "collect_inv env rq (queue @ new) (Suc idx) plans' missing'"
  using assms unfolding collect_inv_def
  by (fastforce simp: handled_def nth_append less_Suc_eq)

lemma find_plan_by_selector_Some:
  "find_plan_by_selector plans sel = Some i \<Longrightarrow> sel \<in> p_selector ` set plans"
  using find_index_Some [of "\<lambda>p. p_selector p = sel" plans i]
  by (force simp: find_plan_by_selector_def image_iff dest: nth_mem)

lemma collect_plans_inv:
  assumes "collect_inv env rq queue idx plans missing"
    and "result (collect_plans fuel env rq queue idx plans missing) h = Collected plans' missing'"
  shows "\<exists>queue'. prefix queue queue' \<and> collect_inv env rq queue' (length queue') plans' missing'"
  using assms
proof (induction fuel arbitrary: queue idx plans missing h)
  case (Suc fuel)
  show ?case
  proof (cases "idx < length queue")
    case False
    with Suc.prems show ?thesis by (auto simp: collect_inv_def intro!: exI [of _ queue])
  next
    case True
    note next_inv = collect_inv_next [OF Suc.prems(1) True, where new = "[]", simplified]
    let ?sel = "queue ! idx"
    let ?h1 = "after (already_present env rq ?sel) h"
    consider (planned) i where "find_plan_by_selector plans ?sel = Some i"
      | (present) "find_plan_by_selector plans ?sel = None" "result (already_present env rq ?sel) h"
      | (absent) "find_plan_by_selector plans ?sel = None" "\<not> result (already_present env rq ?sel) h"
      by (cases "find_plan_by_selector plans ?sel") auto
    then show ?thesis
    proof cases
      case planned
      then have "handled env rq plans missing ?sel"
        by (auto simp: handled_def dest: find_plan_by_selector_Some)
      then have "collect_inv env rq queue (Suc idx) plans missing" by (intro next_inv) auto
      from Suc.IH [OF this] Suc.prems(2) True planned show ?thesis by auto
    next
      case present
      then have "handled env rq plans missing ?sel" by (auto simp: handled_def)
      then have "collect_inv env rq queue (Suc idx) plans missing" by (intro next_inv) auto
      from Suc.IH [OF this] Suc.prems(2) True present show ?thesis by auto
    next
      case absent
      show ?thesis
      proof (cases "result (plan_package env rq ?sel) ?h1")
        case Abort
        with Suc.prems(2) True absent show ?thesis by simp
      next
        case MissingDep
        have "handled env rq plans (missing @ [?sel]) ?sel" by (simp add: handled_def)
        then have "collect_inv env rq queue (Suc idx) plans (missing @ [?sel])" by (intro next_inv) auto
        from Suc.IH [OF this] Suc.prems(2) True absent MissingDep show ?thesis by auto
      next
        case (Planned p)
        note p = plan_package_Planned [OF Planned]
        obtain new where new: "enqueue_deps rq p queue = queue @ new"
          "include_deps rq \<Longrightarrow> {d \<in> set (p_deps p). wanted_dep p d} \<subseteq> set queue \<union> set new"
          by (rule enqueue_deps_spec) blast
        have "collect_inv env rq (queue @ new) (Suc idx) (plans @ [p]) missing"
          using p new(2) by (intro collect_inv_next [OF Suc.prems(1) True]) (auto simp: handled_def)
        from Suc.IH [OF this] Suc.prems(2) True absent Planned new(1) obtain queue' where
          "prefix (queue @ new) queue'" "collect_inv env rq queue' (length queue') plans' missing'"
          by auto
        then show ?thesis by (blast dest: append_prefixD)
      qed
    qed
  qed
qed simp

lemma collect_plans_closed:
  assumes "result (collect_plans fuel env rq queue 0 [] []) h = Collected plans missing"
  shows "\<exists>queue'. prefix queue queue' \<and> collect_inv env rq queue' (length queue') plans missing"
  by (rule collect_plans_inv [OF _ assms]) (simp add: collect_inv_def)

section \<open>Lemmas: phase 3\<close>

definition is_install_hook :: "event \<Rightarrow> bool" where
  "is_install_hook e \<longleftrightarrow> (\<exists>p r. e = Run [''/bin/sh'', p, r, ''install''])"

fun no_run :: "event \<Rightarrow> bool" where
  "no_run (Run argv) = False"
| "no_run _ = True"

lemma no_run_not_hook: "no_run e \<Longrightarrow> \<not> is_install_hook e"
  by (auto simp: is_install_hook_def)

lemma emits_no_run_files:
  "emits no_run (ensure_dir_recursive env path mode)"
  "emits no_run (ensure_parent_dir env path mode)"
  "emits no_run (install_tmp env tmp content mode dst)"
  by (auto intro!: emits_ensure_dir_recursive emits_ensure_parent_dir emits_intros simp: install_tmp_def)

lemma emits_no_run_copy:
  "emits no_run (copy_file_contents env src dst mode)"
  "emits no_run (copy_symlink_entry env src dst)"
  unfolding copy_file_contents_def copy_symlink_entry_def
  by (intro emits_intros emits_no_run_files; simp)+

lemma emits_no_run_copy_tree: "emits no_run (copy_tree fuel env base rel root)"
proof (induction fuel arbitrary: rel)
  case (Suc fuel)
  show ?case
    unfolding copy_tree.simps copy_entry_def copy_regular_def
    by (intro emits_intros emits_case_file_kind emits_no_run_files emits_no_run_copy Suc.IH; simp)
qed (simp add: emits_ret)

lemma emits_walk_io: "(\<And>x acc. emits P (f x acc)) \<Longrightarrow> emits P (walk_io f xs acc)"
  by (induction xs arbitrary: acc) (auto intro!: emits_intros)

lemma emits_add_manifest_entries: "emits P (add_manifest_entries fuel env base rel root acc)"
proof (induction fuel arbitrary: rel acc)
  case (Suc fuel)
  show ?case
    unfolding add_manifest_entries.simps manifest_step_def manifest_leaf_def manifest_dir_def
    by (intro emits_intros emits_walk_io emits_case_file_kind Suc.IH)
qed (simp add: emits_ret)

lemma emits_no_run_write_manifest: "emits no_run (write_manifest env dir root name)"
  unfolding write_manifest_def
  by (intro emits_intros emits_no_run_files emits_add_manifest_entries; simp)

lemma emits_no_run_save_remove_hook: "emits no_run (save_remove_hook env dir root name)"
  unfolding save_remove_hook_def
  by (intro emits_intros emits_no_run_files emits_no_run_copy; simp)

lemma removal_not_install_hook: "removal_event root pkg fs ds e \<Longrightarrow> \<not> is_install_hook e"
  by (cases e) (auto simp: is_install_hook_def)

lemma emits_stage_package:
  "emits (\<lambda>e. \<not> is_install_hook e) (stage_package env rq p)"
proof -
  have quiet: "emits (\<lambda>e. \<not> is_install_hook e) m" if "emits no_run m" for m :: "'a io"
    using that no_run_not_hook by (rule emits_mono)
  have removal: "emits (\<lambda>e. \<not> is_install_hook e) (remove_pkg_impl env root pkg b)" for root pkg b
    using emits_remove_pkg_impl removal_not_install_hook by (rule emits_mono)
  show ?thesis
    unfolding stage_package_def remove_old_version_def
    by (intro emits_intros removal quiet emits_no_run_copy_tree emits_no_run_write_manifest
        emits_no_run_save_remove_hook)
qed

lemma emits_stage_all:
  "emits (\<lambda>e. \<not> is_install_hook e) (stage_all env rq order plans errors)"
  by (induction order arbitrary: plans errors) (auto intro!: emits_intros emits_stage_package)

text \<open>The second half of phase 3 runs programs and may roll back, but copies nothing.\<close>

fun run_or_remove :: "event \<Rightarrow> bool" where
  "run_or_remove (Run argv) = True"
| "run_or_remove (Unlink p) = True"
| "run_or_remove (Rmdir p) = True"
| "run_or_remove _ = False"

lemma removal_run_or_remove: "removal_event root pkg fs ds e \<Longrightarrow> run_or_remove e"
  by (cases e) auto

lemma emits_refresh: "emits run_or_remove (refresh_dynamic_linker_cache env root)"
  unfolding refresh_dynamic_linker_cache_def by (intro emits_intros; simp)

lemma emits_hook_all: "emits run_or_remove (hook_all env rq order plans errors)"
proof -
  have "emits run_or_remove (remove_pkg_impl env root pkg b)" for root pkg b
    using emits_remove_pkg_impl removal_run_or_remove by (rule emits_mono)
  then have "emits run_or_remove (hook_package env rq p)" for p
    unfolding hook_package_def run_package_hook_def by (intro emits_intros; simp)
  then show ?thesis
    by (induction order arbitrary: errors) (auto intro!: emits_intros)
qed

lemma install_packages_split:
  "\<exists>a b. after (install_packages env rq order plans) h = h @ a @ b
     \<and> list_all (\<lambda>e. \<not> is_install_hook e) a \<and> list_all run_or_remove b
     \<and> (0 < snd (result (stage_all env rq order plans 0) h) \<longrightarrow> b = [])"
proof -
  let ?stage = "stage_all env rq order plans 0"
  let ?rest = "\<lambda>plans'. and_then (refresh_dynamic_linker_cache env (q_root rq)) (do {
       errors \<leftarrow> hook_all env rq order plans' 0;
       if errors > 0 then ret False else refresh_dynamic_linker_cache env (q_root rq)
     })"
  obtain a where a: "after ?stage h = h @ a" "list_all (\<lambda>e. \<not> is_install_hook e) a"
    using emits_after [OF emits_stage_all] by blast
  have "emits run_or_remove (?rest plans')" for plans'
    by (intro emits_intros emits_refresh emits_hook_all)
  then obtain b where b: "after (?rest (fst (result ?stage h))) (h @ a) = (h @ a) @ b" "list_all run_or_remove b"
    using emits_after by blast
  show ?thesis
  proof (cases "0 < snd (result ?stage h)")
    case True
    with a show ?thesis
      by (intro exI [of _ a] exI [of _ "[]"]) (simp add: install_packages_def)
  next
    case False
    with a b show ?thesis
      unfolding install_packages_def after_bind a(1) after_if
      by (intro exI [of _ a] exI [of _ b]) simp
  qed
qed

text \<open>The install hooks that a trace runs.\<close>

definition hook_of :: "event \<Rightarrow> string option" where
  "hook_of e = (case e of Run argv \<Rightarrow>
      (case argv of [sh, p, r, act] \<Rightarrow> if sh = ''/bin/sh'' \<and> act = ''install'' then Some p else None | _ \<Rightarrow> None)
    | _ \<Rightarrow> None)"

definition hook_runs :: "history \<Rightarrow> string list" where
  "hook_runs t = List.map_filter hook_of t"

lemma hook_runs_simps [simp]: "hook_runs [] = []" "hook_runs (s @ t) = hook_runs s @ hook_runs t"
  by (simp_all add: hook_runs_def List.map_filter_def)

lemma hook_of_not_install: "\<not> is_install_hook e \<Longrightarrow> hook_of e = None"
  by (auto simp: hook_of_def is_install_hook_def split: event.splits list.splits)

lemma hook_runs_quiet: "list_all (\<lambda>e. \<not> is_install_hook e) t \<Longrightarrow> hook_runs t = []"
  by (induction t) (auto simp: hook_runs_def List.map_filter_simps hook_of_not_install)

definition hook_path :: "pkg_plan \<Rightarrow> string" where
  "hook_path p = p_install_dir p @ ''/install.sh''"

definition runs_only :: "string list \<Rightarrow> 'a io \<Rightarrow> bool" where
  "runs_only xs m \<longleftrightarrow> (\<forall>h. \<exists>t. after m h = h @ t \<and> subseq (hook_runs t) xs)"

lemma runs_only_quiet: "emits (\<lambda>e. \<not> is_install_hook e) m \<Longrightarrow> runs_only [] m"
  unfolding runs_only_def using emits_after hook_runs_quiet by (metis subseq_order.order_refl)

lemma runs_only_ret: "runs_only [] (ret x)"
  by (auto simp: runs_only_def)

lemma runs_only_bind:
  assumes "runs_only xs m" and "\<And>x. runs_only ys (f x)"
  shows "runs_only (xs @ ys) (State_Monad.bind m f)"
  unfolding runs_only_def
proof
  fix h
  obtain t where t: "after m h = h @ t" "subseq (hook_runs t) xs"
    using assms(1) by (auto simp: runs_only_def)
  obtain u where u: "after (f (result m h)) (h @ t) = (h @ t) @ u" "subseq (hook_runs u) ys"
    using assms(2) unfolding runs_only_def by meson
  show "\<exists>t. after (State_Monad.bind m f) h = h @ t \<and> subseq (hook_runs t) (xs @ ys)"
    using t u by (intro exI [of _ "t @ u"]) (simp add: list_emb_append_mono)
qed

lemma runs_only_mono: "runs_only xs m \<Longrightarrow> subseq xs ys \<Longrightarrow> runs_only ys m"
  unfolding runs_only_def using subseq_order.order_trans by metis

lemma runs_only_hook_package: "runs_only [hook_path p] (hook_package env rq p)"
proof -
  have hook: "runs_only [hook_path p] (run_package_hook env (p_install_dir p) (q_root rq) ''install'')"
    unfolding runs_only_def run_package_hook_def run_hook_def run_cmd_def
    by (auto simp: fits_def hook_path_def hook_runs_def hook_of_def List.map_filter_simps
        split: sum.split option.split)
  have "emits (\<lambda>e. \<not> is_install_hook e) (remove_pkg_impl env root pkg b)" for root pkg b
    using emits_remove_pkg_impl removal_not_install_hook by (rule emits_mono)
  then have "runs_only [] (if ok then ret True else
      State_Monad.bind (remove_pkg_impl env (q_root rq) (p_install_name p) False) (\<lambda>_. ret False))" for ok
    by (intro runs_only_quiet emits_intros)
  from runs_only_bind [OF hook this] show ?thesis
    unfolding hook_package_def by simp
qed

lemma runs_only_hook_all:
  "runs_only (map (\<lambda>i. hook_path (plans ! i)) order) (hook_all env rq order plans errors)"
proof (induction order arbitrary: errors)
  case (Cons i order)
  let ?hooks = "map (\<lambda>i. hook_path (plans ! i)) order"
  have "runs_only ([hook_path (plans ! i)] @ ?hooks) (State_Monad.bind (hook_package env rq (plans ! i))
      (\<lambda>ok. hook_all env rq order plans (if ok then errors else Suc errors)))"
    by (rule runs_only_bind [OF runs_only_hook_package Cons.IH])
  moreover have "runs_only (hook_path (plans ! i) # ?hooks) (hook_all env rq order plans errors)"
    using Cons.IH by (rule runs_only_mono) (auto intro: list_emb_Cons)
  ultimately show ?case by simp
qed (simp add: runs_only_ret)

lemma stage_all_paths:
  "map hook_path (fst (result (stage_all env rq order plans errors) h)) = map hook_path plans"
proof (induction order arbitrary: plans errors h)
  case (Cons i order)
  have "map hook_path (plans[i := (plans ! i) \<lparr>p_extracted := False\<rparr>]) = map hook_path plans"
    by (cases "i < length plans") (simp_all add: map_update hook_path_def list_update_same_conv list_update_beyond)
  with Cons show ?case by simp
qed simp

lemma runs_only_install_packages:
  assumes "\<And>i. i \<in> set order \<Longrightarrow> i < length plans"
  shows "\<exists>t. after (install_packages env rq order plans) h = h @ t
    \<and> subseq (hook_runs t) (map (\<lambda>i. hook_path (plans ! i)) order)"
proof -
  let ?stage = "stage_all env rq order plans 0"
  define plans' where "plans' = fst (result ?stage h)"
  have paths: "map hook_path plans' = map hook_path plans"
    unfolding plans'_def by (rule stage_all_paths)
  then have hooks: "map (\<lambda>i. hook_path (plans' ! i)) order = map (\<lambda>i. hook_path (plans ! i)) order"
    using assms by (metis (no_types, lifting) length_map map_cong nth_map)
  have refresh: "runs_only [] (refresh_dynamic_linker_cache env root)" for root
    unfolding refresh_dynamic_linker_cache_def
    by (intro runs_only_quiet emits_intros) (simp add: is_install_hook_def)
  let ?hooks = "do { errors \<leftarrow> hook_all env rq order plans' 0;
       if errors > 0 then ret False else refresh_dynamic_linker_cache env (q_root rq) }"
  have "runs_only (map (\<lambda>i. hook_path (plans' ! i)) order @ []) ?hooks"
    by (rule runs_only_bind [OF runs_only_hook_all]) (simp add: refresh runs_only_ret)
  then have tail: "runs_only ([] @ map (\<lambda>i. hook_path (plans ! i)) order)
      (and_then (refresh_dynamic_linker_cache env (q_root rq)) ?hooks)"
    unfolding and_then_def hooks append_Nil2
    by (intro runs_only_bind [OF refresh]) (auto intro: runs_only_mono [OF runs_only_ret])
  obtain a where a: "after ?stage h = h @ a" "hook_runs a = []"
    using emits_after [OF emits_stage_all] hook_runs_quiet by metis
  obtain b where b: "after (and_then (refresh_dynamic_linker_cache env (q_root rq)) ?hooks) (h @ a) = (h @ a) @ b"
    "subseq (hook_runs b) (map (\<lambda>i. hook_path (plans ! i)) order)"
    using tail unfolding runs_only_def by (metis append_Nil)
  show ?thesis
    unfolding install_packages_def after_bind a(1) after_if plans'_def [symmetric]
    by (cases "0 < snd (result ?stage h)") (use a b in \<open>auto intro: exI [of _ a] exI [of _ "a @ b"]\<close>)
qed

section \<open>Properties\<close>

text \<open>
  C11. Phase 1 ends: when the dependency lists of the archives mention only names of a finite set,
  the loop over the queue stops after at most one turn for each initial element and each such name.
\<close>

theorem phase1_terminates:
  assumes "deps_universe env rq U" and "length queue + card U < fuel"
  shows "result (collect_plans fuel env rq queue 0 [] []) h \<noteq> CollectOutOfFuel"
proof (rule collect_plans_fuel [OF assms(1)])
  have "card (U - set queue) \<le> card U"
    using assms(1) by (simp add: deps_universe_def card_mono)
  with assms(2) show "length queue - 0 + card (U - set queue) < fuel" by simp
qed

definition sample_request :: request where
  "sample_request =
     \<lparr>q_root = ''/mnt'', q_tmpdir = ''/tmp/t'', q_local_only = False, q_is_update = False,
      q_is_download = False, q_with_deps = False, q_no_deps = False, q_update_kernel = False,
      q_assume_yes = True, q_os_id = ''adavalinux'', q_os_version = ''1'', q_expected_version = [],
      q_initial_selector = ''a-1''\<rparr>"

lemma sample_universe: "deps_universe (listing_env []) sample_request {}"
  by (simp add: deps_universe_def read_pkg_metadata_from_archive_def find_tar_entry_with_suffix_def
      make_tmp_file_def sample_request_def listing_env_def bind_some_def fits_def)

theorem phase1_terminates_witness:
  "result (collect_plans 2 (listing_env []) sample_request [''a-1''] 0 [] []) [] \<noteq> CollectOutOfFuel"
  by (rule phase1_terminates [OF sample_universe]) simp


definition archive_env :: env where
  "archive_env = (listing_env [])
     \<lparr>e_access := \<lambda>h p m. p = ''a-1.syspckg'', e_mkstemp := \<lambda>h t. Some t,
      e_open := \<lambda>h p. Some (''a/syspckg-info'' @ [LF] @ ''PKG_VERSION=1'' @ [LF] @ ''ID=adavalinux'' @ [LF] @ ''VERSION=1'' @ [LF])\<rparr>"

definition archive_plan :: pkg_plan where
  "archive_plan =
     \<lparr>p_selector = ''a-1'', p_pkg_name = ''a-1'', p_archive_path = ''a-1.syspckg'',
      p_install_name = ''a-1'', p_pkg_id = ''adavalinux'', p_pkg_version = ''1'', p_pkg_ver = ''1'',
      p_extract_dir = [], p_install_dir = [], p_installed_name = [], p_deps = [],
      p_installed = False, p_extracted = False\<rparr>"

lemma archive_collected:
  "result (collect_plans 2 archive_env sample_request [''a-1''] 0 [] []) [] = Collected [archive_plan] []"
  by code_simp


text \<open>
  Every payload is staged before any install hook runs: the trace of phase 3 splits into a part
  without install hooks and a part that only runs programs and removes files, and the second part
  is empty when staging reported an error.
\<close>

theorem staging_before_hooks:
  "\<exists>a b. after (install_packages env rq order plans) h = h @ a @ b
     \<and> list_all (\<lambda>e. \<not> is_install_hook e) a \<and> list_all run_or_remove b
     \<and> (snd (result (stage_all env rq order plans 0) h) = 0 \<or> b = [])"
  using install_packages_split [of env rq order plans h] by auto

text \<open>
  C3. Install hooks run in dependency order: the hooks that phase 3 runs follow the order that was
  computed for the plans, in which every package comes after the packages it depends on.
\<close>

theorem hooks_in_dependency_order:
  assumes "install_order plans = Some order"
  shows "\<exists>t. after (install_packages env rq order plans) h = h @ t
    \<and> subseq (hook_runs t) (map (\<lambda>i. hook_path (plans ! i)) order) \<and> dep_first plans order"
  using runs_only_install_packages [OF io.order_bound [OF assms]] io.order_dep_first [OF assms] by blast

theorem hooks_in_dependency_order_witness:
  "\<exists>t. after (install_packages (listing_env []) sample_request [2, 1, 0] sample_plans) [] = [] @ t
    \<and> subseq (hook_runs t) (map (\<lambda>i. hook_path (sample_plans ! i)) [2, 1, 0]) \<and> dep_first sample_plans [2, 1, 0]"
  by (rule hooks_in_dependency_order) (simp add: install_order_def sample_order)

end
