(* ===== verification/Cli.thy ===== *)
theory Cli
  imports Transaction
begin

text \<open>
  The command line of \<^verbatim>\<open>tools/syspckg-old/main.c\<close>: the option loop of \<^verbatim>\<open>main\<close>, the checks before
  anything is done, and the dispatch to the commands list, install, update, remove and download.

  The variable \<^verbatim>\<open>update_packager\<close> of the source is never set, so its branches do not appear. What
  \<^verbatim>\<open>main\<close> prints is not modelled; its exit code and everything it does to the system is.
\<close>

section \<open>Options\<close>

record options =
  o_root :: string
  o_allow_root :: bool
  o_local_only :: bool
  o_assume_yes :: bool
  o_dry_run :: bool
  o_update_all :: bool
  o_update_system :: bool
  o_update_kernel :: bool
  o_update_pkg_arg :: "string option"
  o_with_deps :: bool
  o_no_deps :: bool
  o_download_output :: string
  o_install_pkgs :: "string list"

datatype cli_error =
    MissingRoot | WithDepsMisplaced | NoDepsMisplaced | MissingOutput | LocalMisplaced
  | YesMisplaced | PackagerRemoved | SecondUpdatePackage | UnknownOption string

definition default_options :: options where
  "default_options =
     \<lparr>o_root = ''/'', o_allow_root = False, o_local_only = False, o_assume_yes = False,
      o_dry_run = False, o_update_all = False, o_update_system = False, o_update_kernel = False,
      o_update_pkg_arg = None, o_with_deps = False, o_no_deps = False, o_download_output = ''.'',
      o_install_pkgs = []\<rparr>"

definition initial_options :: "string list \<Rightarrow> options" where
  "initial_options argv =
     (if argv ! 1 = ''install'' then default_options \<lparr>o_install_pkgs := [argv ! 2]\<rparr> else default_options)"

text \<open>
  One turn of the loop: \<open>next\<close> is the following argument, and the flag of the result says that it
  was taken as a value. The options that only \<^verbatim>\<open>update\<close> knows come after those of every command.
\<close>

definition parse_update_option :: "string \<Rightarrow> options \<Rightarrow> cli_error + options" where
  "parse_update_option arg opts =
     (if arg = ''--dry-run'' then Inr (opts \<lparr>o_dry_run := True\<rparr>)
      else if arg = ''--all'' then Inr (opts \<lparr>o_update_all := True\<rparr>)
      else if arg = ''--system'' then Inr (opts \<lparr>o_update_system := True\<rparr>)
      else if arg = ''--kernel'' then Inr (opts \<lparr>o_update_kernel := True\<rparr>)
      else if arg = ''--packager'' then Inl PackagerRemoved
      else if prefix ''-'' arg then Inl (UnknownOption arg)
      else if o_update_pkg_arg opts \<noteq> None then Inl SecondUpdatePackage
      else Inr (opts \<lparr>o_update_pkg_arg := Some arg\<rparr>))"

definition parse_option ::
  "string \<Rightarrow> string \<Rightarrow> string option \<Rightarrow> options \<Rightarrow> cli_error + options \<times> bool" where
  "parse_option cmd arg next opts =
     (if arg = ''--root'' then
        (case next of None \<Rightarrow> Inl MissingRoot | Some v \<Rightarrow> Inr (opts \<lparr>o_root := v\<rparr>, True))
      else if arg = ''--allow-root'' then Inr (opts \<lparr>o_allow_root := True\<rparr>, False)
      else if arg = ''--with-deps'' then
        (if cmd = ''install'' \<or> cmd = ''download'' then Inl WithDepsMisplaced
         else Inr (opts \<lparr>o_with_deps := True\<rparr>, False))
      else if arg = ''--no-deps'' then
        (if cmd \<noteq> ''install'' \<and> cmd \<noteq> ''download'' then Inl NoDepsMisplaced
         else Inr (opts \<lparr>o_no_deps := True\<rparr>, False))
      else if cmd = ''download'' \<and> arg = ''--output'' then
        (case next of None \<Rightarrow> Inl MissingOutput | Some v \<Rightarrow> Inr (opts \<lparr>o_download_output := v\<rparr>, True))
      else if arg = ''-local'' \<or> arg = ''--local'' then
        (if cmd = ''update'' then Inl LocalMisplaced else Inr (opts \<lparr>o_local_only := True\<rparr>, False))
      else if arg = ''-y'' \<or> arg = ''--yes'' then
        (if cmd = ''list'' then Inl YesMisplaced else Inr (opts \<lparr>o_assume_yes := True\<rparr>, False))
      else if cmd = ''update'' then map_sum id (\<lambda>opts'. (opts', False)) (parse_update_option arg opts)
      else if cmd = ''install'' \<and> \<not> prefix ''-'' arg
        then Inr (opts \<lparr>o_install_pkgs := o_install_pkgs opts @ [arg]\<rparr>, False)
      else Inl (UnknownOption arg))"

function parse_options :: "string \<Rightarrow> string list \<Rightarrow> options \<Rightarrow> cli_error + options" where
  "parse_options cmd [] opts = Inr opts"
| "parse_options cmd (arg # args) opts =
     (case parse_option cmd arg (case args of [] \<Rightarrow> None | v # _ \<Rightarrow> Some v) opts of
        Inl e \<Rightarrow> Inl e
      | Inr (opts', taken) \<Rightarrow> parse_options cmd (if taken then tl args else args) opts')"
  by pat_completeness auto
termination
  by (relation "measure (\<lambda>(cmd, args, opts). length args)") auto

definition commands :: "string list" where
  "commands = [''list'', ''update'', ''download'', ''install'', ''remove'']"

text \<open>The arguments of a call: an error is a usage message and exit code 1.\<close>

definition parse_args :: "string list \<Rightarrow> (string \<times> options) option" where
  "parse_args argv =
     (if length argv < 2 \<or> argv ! 1 \<notin> set commands then None
      else let cmd = argv ! 1; bare = (cmd = ''list'' \<or> cmd = ''update'') in
        if \<not> bare \<and> length argv < 3 then None
        else case parse_options cmd (drop (if bare then 2 else 3) argv) (initial_options argv) of
          Inl e \<Rightarrow> None
        | Inr opts \<Rightarrow> Some (cmd, opts))"

section \<open>Checks\<close>

definition options_admitted :: "env \<Rightarrow> string \<Rightarrow> options \<Rightarrow> bool io" where
  "options_admitted env cmd opts =
     (if o_with_deps opts \<and> o_no_deps opts then ret False
      else do {
        out_ok \<leftarrow> (if cmd = ''download'' then do {
                     st \<leftarrow> stat env (o_download_output opts);
                     ret (case st of Inl e \<Rightarrow> False | Inr s \<Rightarrow> st_kind s = S_DIR)
                   } else ret True);
        if \<not> out_ok then ret False
        else if cmd = ''remove'' \<and> o_local_only opts then ret False
        else if cmd \<noteq> ''download'' \<and> o_root opts = ''/'' \<and> \<not> o_allow_root opts
          then is_adavalinux_root env (o_root opts)
        else ret True
      })"

section \<open>Commands\<close>

text \<open>Several packages: the program calls itself once for each, and goes on after a failure.\<close>

definition child_argv :: "string \<Rightarrow> options \<Rightarrow> string \<Rightarrow> string list" where
  "child_argv self opts pkg =
     [self, ''install'', pkg, ''--root'', o_root opts]
       @ (if o_allow_root opts then [''--allow-root''] else [])
       @ (if o_local_only opts then [''-local''] else [])
       @ (if o_assume_yes opts then [''-y''] else [])"

definition update_child_argv :: "string \<Rightarrow> options \<Rightarrow> string \<Rightarrow> string list" where
  "update_child_argv self opts url =
     [self, ''update'', url, ''--root'', o_root opts, ''--allow-root'', ''-y'']"

fun run_children :: "env \<Rightarrow> string list list \<Rightarrow> int io" where
  "run_children env [] = ret 0"
| "run_children env (argv # argvs) = do {
     ok \<leftarrow> run_cmd env argv;
     rc \<leftarrow> run_children env argvs;
     ret (if ok then rc else 1)
   }"

definition list_command :: "env \<Rightarrow> options \<Rightarrow> int io" where
  "list_command env opts = do {
     names \<leftarrow> (if o_local_only opts then list_local_installed_packages env (o_root opts)
              else list_remote_packages env (o_root opts));
     ret (if names = None then 1 else 0)
   }"

text \<open>
  The target of an update: an exit code, or the selector, the version of the system it is for
  (empty for the running one) and whether a kernel was found to be up to date.
\<close>

definition mode_count :: "options \<Rightarrow> nat" where
  "mode_count opts = of_bool (o_update_all opts) + of_bool (o_update_system opts)
     + of_bool (o_update_kernel opts) + of_bool (o_update_pkg_arg opts \<noteq> None)"

definition select_update :: "env \<Rightarrow> options \<Rightarrow> (int + string \<times> string \<times> bool) io" where
  "select_update env opts =
     (if o_update_system opts then do {
        r \<leftarrow> resolve_latest_system_update env (o_root opts) PATH_MAX 64;
        ret (case r of UpdateError \<Rightarrow> Inl 1 | UpToDate _ _ \<Rightarrow> Inl 0
             | UpdateAvailable url remote _ \<Rightarrow> Inr (url, remote, False))
      }
      else if o_update_kernel opts then do {
        r \<leftarrow> resolve_latest_kernel_update env (o_root opts) PATH_MAX 64 64;
        ret (case r of UpdateError \<Rightarrow> Inl 1 | UpToDate _ _ \<Rightarrow> Inr ([], [], True)
             | UpdateAvailable url _ _ \<Rightarrow> Inr (url, [], False))
      }
      else case o_update_pkg_arg opts of
        None \<Rightarrow> ret (Inr ([], [], False))
      | Some arg \<Rightarrow> ret (case fits PATH_MAX arg of None \<Rightarrow> Inl 1 | Some sel \<Rightarrow> Inr (sel, [], False)))"

definition update_command :: "env \<Rightarrow> string \<Rightarrow> options \<Rightarrow> (int + string \<times> string) io" where
  "update_command env self opts =
     (if mode_count opts \<noteq> 1 then ret (Inl 1)
      else do {
        selected \<leftarrow> select_update env opts;
        (case selected of
           Inl rc \<Rightarrow> ret (Inl rc)
         | Inr (selector, expected, up_to_date) \<Rightarrow>
             if o_dry_run opts then
               (if o_update_all opts then do {
                  urls \<leftarrow> check_all_updates_from_manifest env (o_root opts);
                  ret (Inl (if urls = None then 1 else 0))
                } else ret (Inl 0))
             else if up_to_date then ret (Inl 0)
             else if o_update_all opts then do {
               urls \<leftarrow> check_all_updates_from_manifest env (o_root opts);
               (case urls of
                  None \<Rightarrow> ret (Inl 1)
                | Some us \<Rightarrow> do {
                    rc \<leftarrow> run_children env (map (update_child_argv self opts) us);
                    ret (Inl rc)
                  })
             }
             else ret (Inr (selector, expected)))
      })"

definition remove_target :: "env \<Rightarrow> options \<Rightarrow> string \<Rightarrow> string \<Rightarrow> string io" where
  "remove_target env opts arg pkg_name =
     (if CHR ''/'' \<notin> set arg \<and> \<not> has_suffix arg ''.syspckg'' \<and> \<not> selector_has_explicit_version arg
      then do {
        found \<leftarrow> resolve_latest_installed env (o_root opts) arg PATH_MAX;
        ret (case found of Some name \<Rightarrow> name | None \<Rightarrow> pkg_name)
      } else ret pkg_name)"

definition remove_tree :: "env \<Rightarrow> options \<Rightarrow> string \<Rightarrow> bool io" where
  "remove_tree env opts name = do {
     t \<leftarrow> mkdtemp env ''/tmp/syspckg-remove-XXXXXX'';
     with_some t (\<lambda>tmpdir. do {
       ok \<leftarrow> remove_with_deps env (o_root opts) name tmpdir (o_local_only opts);
       _ \<leftarrow> run_cmd env [''rm'', ''-rf'', tmpdir];
       ret ok
     })
   }"

definition remove_command :: "env \<Rightarrow> options \<Rightarrow> string \<Rightarrow> string \<Rightarrow> int io" where
  "remove_command env opts arg pkg_name = do {
     name \<leftarrow> remove_target env opts arg pkg_name;
     yes \<leftarrow> (if o_assume_yes opts then ret True else ask_remove_confirmation env name);
     if \<not> yes then ret 0
     else do {
       ok \<leftarrow> and_then (if o_with_deps opts then remove_tree env opts name else remove_pkg env (o_root opts) name)
              (refresh_dynamic_linker_cache env (o_root opts));
       ret (if ok then 0 else 1)
     }
   }"

text \<open>
  Install, update and download share the transaction. Leaving \<^verbatim>\<open>main\<close> runs the exit handler that
  removes the temporary directory.
\<close>

definition request_of ::
  "string \<Rightarrow> options \<Rightarrow> string \<Rightarrow> string \<Rightarrow> string \<Rightarrow> string \<Rightarrow> string \<Rightarrow> string \<Rightarrow> request" where
  "request_of cmd opts pkg_arg pkg_name expected tmpdir os_id os_version =
     \<lparr>q_root = o_root opts, q_tmpdir = tmpdir, q_local_only = o_local_only opts,
      q_is_update = (cmd = ''update''), q_is_download = (cmd = ''download''),
      q_with_deps = o_with_deps opts, q_no_deps = o_no_deps opts,
      q_update_kernel = o_update_kernel opts, q_assume_yes = o_assume_yes opts,
      q_os_id = os_id, q_os_version = os_version, q_expected_version = expected,
      q_initial_selector =
        trunc PATH_MAX (if CHR ''/'' \<in> set pkg_arg \<or> has_suffix pkg_arg ''.syspckg'' then pkg_arg else pkg_name)\<rparr>"

definition start_transaction ::
  "nat \<Rightarrow> env \<Rightarrow> string \<Rightarrow> options \<Rightarrow> string \<Rightarrow> string \<Rightarrow> string \<Rightarrow> string \<Rightarrow> int option io" where
  "start_transaction fuel env cmd opts pkg_arg pkg_name expected tmpdir = do {
     os_id \<leftarrow> get_os_id env (o_root opts) 64;
     (case os_id of
        None \<Rightarrow> ret (Some 1)
      | Some oid \<Rightarrow> do {
          os_version \<leftarrow> get_os_version env (o_root opts) 64;
          (case os_version of
             None \<Rightarrow> ret (Some 1)
           | Some version \<Rightarrow>
               transaction fuel env (request_of cmd opts pkg_arg pkg_name expected tmpdir oid version)
                 (o_download_output opts))
        })
   }"

definition install_command ::
  "nat \<Rightarrow> env \<Rightarrow> string \<Rightarrow> options \<Rightarrow> string \<Rightarrow> string \<Rightarrow> string \<Rightarrow> int option io" where
  "install_command fuel env cmd opts pkg_arg pkg_name expected = do {
     t \<leftarrow> mkdtemp env ''/tmp/syspckg-XXXXXX'';
     (case t of
        None \<Rightarrow> ret (Some 1)
      | Some tmpdir \<Rightarrow> do {
          rc \<leftarrow> start_transaction fuel env cmd opts pkg_arg pkg_name expected tmpdir;
          (case rc of
             None \<Rightarrow> ret None
           | Some code \<Rightarrow> do { _ \<leftarrow> cleanup_tmpdir env tmpdir; ret (Some code) })
        })
   }"

definition package_command ::
  "nat \<Rightarrow> env \<Rightarrow> string \<Rightarrow> options \<Rightarrow> string \<Rightarrow> string \<Rightarrow> int option io" where
  "package_command fuel env cmd opts pkg_arg expected =
     (case get_pkg_base pkg_arg PATH_MAX of
        None \<Rightarrow> ret (Some 1)
      | Some pkg_name \<Rightarrow>
          if cmd = ''remove'' then do {
            rc \<leftarrow> remove_command env opts pkg_arg pkg_name;
            ret (Some rc)
          }
          else install_command fuel env cmd opts pkg_arg pkg_name expected)"

definition dispatch :: "nat \<Rightarrow> env \<Rightarrow> string list \<Rightarrow> string \<Rightarrow> options \<Rightarrow> int option io" where
  "dispatch fuel env argv cmd opts =
     (if cmd = ''install'' \<and> length (o_install_pkgs opts) > 1 then do {
        rc \<leftarrow> run_children env (map (child_argv (argv ! 0) opts) (o_install_pkgs opts));
        ret (Some rc)
      }
      else if cmd = ''list'' then do { rc \<leftarrow> list_command env opts; ret (Some rc) }
      else if cmd = ''update'' then do {
        target \<leftarrow> update_command env (argv ! 0) opts;
        (case target of
           Inl rc \<Rightarrow> ret (Some rc)
         | Inr (selector, expected) \<Rightarrow> package_command fuel env cmd opts selector expected)
      }
      else package_command fuel env cmd opts (argv ! 2) [])"

definition main :: "nat \<Rightarrow> env \<Rightarrow> string list \<Rightarrow> int option io" where
  "main fuel env argv =
     (case parse_args argv of
        None \<Rightarrow> ret (Some 1)
      | Some (cmd, opts) \<Rightarrow> do {
          ok \<leftarrow> options_admitted env cmd opts;
          if ok then dispatch fuel env argv cmd opts else ret (Some 1)
        })"

section \<open>Lemmas: the option loop\<close>

text \<open>What the loop keeps: every option is one that the command knows.\<close>

definition options_wf :: "string \<Rightarrow> options \<Rightarrow> bool" where
  "options_wf cmd opts \<longleftrightarrow>
     (o_with_deps opts \<longrightarrow> cmd \<in> {''list'', ''update'', ''remove''})
     \<and> (o_no_deps opts \<longrightarrow> cmd \<in> {''install'', ''download''})
     \<and> (o_local_only opts \<longrightarrow> cmd \<noteq> ''update'')
     \<and> (o_assume_yes opts \<longrightarrow> cmd \<noteq> ''list'')
     \<and> (o_dry_run opts \<or> mode_count opts \<noteq> 0 \<longrightarrow> cmd = ''update'')
     \<and> (o_download_output opts \<noteq> ''.'' \<longrightarrow> cmd = ''download'')
     \<and> (o_install_pkgs opts \<noteq> [] \<longleftrightarrow> cmd = ''install'')"

lemma parse_update_option_wf:
  assumes "parse_update_option arg opts = Inr opts'" and "options_wf ''update'' opts"
  shows "options_wf ''update'' opts'"
  using assms unfolding parse_update_option_def
  by (auto simp: options_wf_def split: if_splits)

text \<open>The same for one option, as a property of the result that the branches are checked against.\<close>

definition keeps_wf :: "string \<Rightarrow> cli_error + options \<times> bool \<Rightarrow> bool" where
  "keeps_wf cmd r \<longleftrightarrow> (\<forall>opts taken. r = Inr (opts, taken) \<longrightarrow> options_wf cmd opts)"

lemma keeps_wf_if:
  "(b \<Longrightarrow> keeps_wf cmd r) \<Longrightarrow> (\<not> b \<Longrightarrow> keeps_wf cmd r') \<Longrightarrow> keeps_wf cmd (if b then r else r')"
  by simp

lemma keeps_wf_error: "keeps_wf cmd (Inl e)"
  by (simp add: keeps_wf_def)

lemma keeps_wf_value:
  "(\<And>v. options_wf cmd (f v)) \<Longrightarrow>
    keeps_wf cmd (case next of None \<Rightarrow> Inl e | Some v \<Rightarrow> Inr (f v, True))"
  by (simp add: keeps_wf_def split: option.split)

lemma keeps_wf_flag: "options_wf cmd opts \<Longrightarrow> keeps_wf cmd (Inr (opts, False))"
  by (simp add: keeps_wf_def)

lemma keeps_wf_update:
  assumes "cmd = ''update''" and "options_wf cmd opts"
  shows "keeps_wf cmd (map_sum id (\<lambda>opts'. (opts', False)) (parse_update_option arg opts))"
  using assms parse_update_option_wf [of arg opts]
  by (cases "parse_update_option arg opts") (auto simp: keeps_wf_def)

lemmas keeps_wf_rules = keeps_wf_if keeps_wf_error keeps_wf_value keeps_wf_flag keeps_wf_update

lemma mode_count_0:
  "mode_count opts = 0 \<longleftrightarrow> \<not> o_update_all opts \<and> \<not> o_update_system opts
     \<and> \<not> o_update_kernel opts \<and> o_update_pkg_arg opts = None"
  by (simp add: mode_count_def)

lemma parse_option_wf:
  assumes "options_wf cmd opts" and "cmd \<in> set commands"
  shows "keeps_wf cmd (parse_option cmd arg next opts)"
  unfolding parse_option_def
  by (intro keeps_wf_rules)
     (use assms in \<open>simp_all add: options_wf_def mode_count_0 commands_def\<close>)

lemma parse_options_wf:
  "parse_options cmd args opts = Inr opts' \<Longrightarrow> options_wf cmd opts \<Longrightarrow> cmd \<in> set commands \<Longrightarrow>
    options_wf cmd opts'"
proof (induction cmd args opts rule: parse_options.induct)
  case (2 cmd arg args opts)
  from "2.prems"(1) obtain opts1 taken where
    step: "parse_option cmd arg (case args of [] \<Rightarrow> None | v # _ \<Rightarrow> Some v) opts = Inr (opts1, taken)"
    and rest: "parse_options cmd (if taken then tl args else args) opts1 = Inr opts'"
    by (auto split: sum.splits prod.splits)
  show ?case
    by (rule "2.IH" [OF step refl rest _ "2.prems"(3)])
       (use parse_option_wf [OF "2.prems"(2,3), unfolded keeps_wf_def] step in blast)
qed simp

lemma initial_options_wf: "options_wf (argv ! 1) (initial_options argv)"
  by (simp add: options_wf_def initial_options_def default_options_def mode_count_def)

section \<open>Lemmas: what the commands do\<close>

text \<open>The only thing a query of the package index leaves in the history is the download of a listing.\<close>

fun fetches :: "event \<Rightarrow> bool" where
  "fetches (Popen cmd) \<longleftrightarrow> prefix ''wget -qO- '' cmd"
| "fetches _ \<longleftrightarrow> False"

lemma emits_fetch_tokens: "emits fetches (collect_remote_tokens env url suf)"
  unfolding collect_remote_tokens_def by (intro emits_intros) auto

lemma emits_resolve_updates:
  "emits fetches (resolve_latest_system_update env root a b)"
  "emits fetches (resolve_latest_kernel_update env root a b c)"
  unfolding resolve_latest_system_update_def resolve_latest_kernel_update_def
    select_latest_prefixed_pkg_def latest_boot_version_def Let_def
  by (intro emits_intros emits_fetch_tokens)+

lemma emits_check_all_updates: "emits fetches (check_all_updates_from_manifest env root)"
  unfolding check_all_updates_from_manifest_def collect_installed_update_packages_def
  by (intro emits_intros emits_fetch_tokens)

lemma emits_select_update: "emits fetches (select_update env opts)"
  unfolding select_update_def by (intro emits_intros emits_resolve_updates)

lemma emits_update_command_dry_run:
  assumes "o_dry_run opts"
  shows "emits fetches (update_command env self opts)"
  unfolding update_command_def
  by (intro emits_intros emits_select_update emits_check_all_updates) (use assms in auto)

lemma update_command_dry_run_exits:
  "o_dry_run opts \<Longrightarrow> \<exists>rc. result (update_command env self opts) h = Inl rc"
  by (simp add: update_command_def split: sum.split)

lemma after_options_admitted [simp]: "after (options_admitted env cmd opts) h = h"
  by (simp add: options_admitted_def is_adavalinux_root_def split: option.split)

lemma result_mkdtemp [simp]: "result (mkdtemp env t) h = e_mkstemp env h t"
  by (simp add: result_def mkdtemp_def split: option.split)

lemma after_mkdtemp:
  "after (mkdtemp env t) h = (case e_mkstemp env h t of None \<Rightarrow> h | Some p \<Rightarrow> h @ [Mkdtemp p])"
  by (simp add: after_def mkdtemp_def split: option.split)

lemma parse_child_options:
  "parse_options ''install'' (drop 3 (child_argv self opts pkg)) (default_options \<lparr>o_install_pkgs := [pkg]\<rparr>) =
     Inr (default_options \<lparr>o_root := o_root opts, o_allow_root := o_allow_root opts,
       o_local_only := o_local_only opts, o_assume_yes := o_assume_yes opts, o_install_pkgs := [pkg]\<rparr>)"
  by (cases "o_allow_root opts"; cases "o_local_only opts"; cases "o_assume_yes opts")
     (simp_all add: child_argv_def parse_option_def default_options_def)

section \<open>Properties\<close>


definition sample_call :: "string list" where
  "sample_call = [''syspckg'', ''update'', ''--dry-run'', ''--all'']"

definition sample_options :: options where
  "sample_options = default_options \<lparr>o_dry_run := True, o_update_all := True\<rparr>"

lemma parse_sample_call: "parse_args sample_call = Some (''update'', sample_options)"
  by (simp add: sample_call_def sample_options_def parse_args_def commands_def parse_option_def
      parse_update_option_def initial_options_def default_options_def)


text \<open>
  On a system that is not AdavaLinux nothing is done to the running system unless the user
  allows it: with the root directory as target and without \<^verbatim>\<open>--allow-root\<close> every command but a
  download exits with 1 and leaves no trace.
\<close>

theorem host_root_refused:
  assumes "parse_args argv = Some (cmd, opts)" and "cmd \<noteq> ''download''"
    and "o_root opts = ''/''" and "\<not> o_allow_root opts"
    and "\<not> result (is_adavalinux_root env ''/'') h"
  shows "run_state (main fuel env argv) h = (Some 1, h)"
proof -
  have "\<not> result (options_admitted env cmd opts) h"
    using assms(2-5) by (simp add: options_admitted_def)
  with assms(1) show ?thesis by (simp add: run_state_result_after main_def)
qed

theorem host_root_refused_witness:
  "run_state (main 5 (listing_env ''ID=debian'') sample_call) [] = (Some 1, [])"
proof (rule host_root_refused [OF parse_sample_call])
  have "fgets_lines 255 ''ID=debian'' = [''ID=debian'']" by code_simp
  moreover have "\<not> id_lines [''ID=debian'']" by code_simp
  moreover have "fits PATH_MAX ''//etc/os-release'' = Some ''//etc/os-release''" by code_simp
  ultimately show "\<not> result (is_adavalinux_root (listing_env ''ID=debian'') ''/'') []"
    by (simp add: is_adavalinux_root_def listing_env_def)
qed (simp_all add: sample_options_def default_options_def)

text \<open>
  C37. A dry run changes nothing: whatever it is asked about, the only thing
  \<^verbatim>\<open>update --dry-run\<close> does to the system is to download listings of the package index.
\<close>

theorem dry_run_only_queries:
  assumes "parse_args argv = Some (''update'', opts)" and "o_dry_run opts"
  shows "\<exists>t. after (main fuel env argv) h = h @ t \<and> list_all fetches t"
proof -
  obtain rc where "result (update_command env (argv ! 0) opts) h = Inl rc"
    using update_command_dry_run_exits [OF assms(2)] by blast
  then have "after (main fuel env argv) h = h
      \<or> after (main fuel env argv) h = after (update_command env (argv ! 0) opts) h"
    using assms(1) by (simp add: main_def dispatch_def)
  with emits_after [OF emits_update_command_dry_run [OF assms(2)]] show ?thesis
    by (metis append_Nil2 list.pred_inject(1))
qed

theorem dry_run_only_queries_witness:
  "\<exists>t. after (main 5 (listing_env ''ID=adavalinux'') sample_call) [] = [] @ t \<and> list_all fetches t"
  by (rule dry_run_only_queries [OF parse_sample_call]) (simp add: sample_options_def)

text \<open>
  C38. The calls the program makes of itself when it is given several packages are understood as
  meant, but for one option: each child gets its package, the root, \<^verbatim>\<open>--allow-root\<close>, \<^verbatim>\<open>-local\<close>
  and \<^verbatim>\<open>-y\<close>, and \<^verbatim>\<open>--no-deps\<close> is lost.
\<close>

theorem child_call_round_trip:
  "parse_args (child_argv self opts pkg) =
     Some (''install'', default_options \<lparr>o_root := o_root opts, o_allow_root := o_allow_root opts,
       o_local_only := o_local_only opts, o_assume_yes := o_assume_yes opts, o_install_pkgs := [pkg],
       o_no_deps := False\<rparr>)"
proof -
  have "child_argv self opts pkg ! 1 = ''install''" "child_argv self opts pkg ! 2 = pkg"
    "\<not> length (child_argv self opts pkg) < 3"
    by (simp_all add: child_argv_def)
  then show ?thesis
    using parse_child_options [of self opts pkg]
    by (simp add: parse_args_def initial_options_def commands_def default_options_def)
qed

text \<open>
  The temporary directory never outlives the program: whenever an installation, update or
  download ends, with success or not, the last thing that happened is its removal.
\<close>

theorem install_removes_tmpdir:
  assumes "e_mkstemp env h ''/tmp/syspckg-XXXXXX'' = Some tmpdir" and "tmpdir \<noteq> []"
    and "result (install_command fuel env cmd opts pkg_arg pkg_name expected) h = Some rc"
  shows "last (after (install_command fuel env cmd opts pkg_arg pkg_name expected) h) =
    Run [''rm'', ''-rf'', tmpdir]"
  using assms
  by (auto simp: install_command_def after_mkdtemp cleanup_tmpdir_def run_cmd_def split: option.splits)

theorem install_removes_tmpdir_witness:
  "last (after (install_command 5 ((listing_env []) \<lparr>e_mkstemp := \<lambda>h t. Some ''/tmp/syspckg-a1B2c3''\<rparr>)
     ''install'' default_options ''nano'' ''nano'' []) []) = Run [''rm'', ''-rf'', ''/tmp/syspckg-a1B2c3'']"
proof (rule install_removes_tmpdir [where rc = 1])
  let ?env = "(listing_env []) \<lparr>e_mkstemp := \<lambda>h t. Some ''/tmp/syspckg-a1B2c3''\<rparr>"
  have "result (get_os_id ?env ''/'' 64) h = None" for h
    by (simp add: get_os_id_def os_release_lookup_def read_id_from_file_def read_key_from_file_def
        listing_env_def fits_def fgets_lines.simps)
  then show "result (install_command 5 ?env ''install'' default_options ''nano'' ''nano'' []) [] = Some 1"
    by (simp add: install_command_def start_transaction_def default_options_def after_mkdtemp)
qed simp_all



end
