(* ===== verification/InstallerSys.thy ===== *)
theory InstallerSys
  imports World InstallerHelpers
begin

text \<open>
  The system layer of the installer, \<^verbatim>\<open>tools/installer/sys.c\<close>: running programs with their output
  copied to the log, the scan for disks, and the table of mounts. The callback \<^verbatim>\<open>log_fn\<close> is the
  event \<^const>\<open>Log\<close>; what the display does with a line is modelled in the theory of the wizard.
\<close>

section \<open>Log lines\<close>

definition log_line :: "string \<Rightarrow> unit io" where
  "log_line text = emit (Log (trunc 512 text))"

definition shown_arg :: "string \<Rightarrow> string" where
  "shown_arg a =
     (if CHR '' '' \<in> set a \<or> HT \<in> set a then '' '' @ [SQ] @ a @ [SQ] else '' '' @ a)"

text \<open>\<open>pos\<close> is the length \<^verbatim>\<open>snprintf\<close> wanted, which exceeds the buffer after a cut.\<close>

fun log_command_loop :: "string \<Rightarrow> nat \<Rightarrow> string list \<Rightarrow> string" where
  "log_command_loop buf pos [] = buf"
| "log_command_loop buf pos (a # argv) =
     (if pos + 1 < 512
      then log_command_loop (append_at 512 buf (shown_arg a)) (pos + length (shown_arg a)) argv
      else buf)"

definition log_command :: "string list \<Rightarrow> unit io" where
  "log_command argv = emit (Log (log_command_loop ''$'' 1 argv))"

text \<open>
  The loop of \<^verbatim>\<open>strip_ansi\<close>: \<open>room\<close> is the number of characters the destination can still take,
  \<open>esc\<close> the state of the scanner (0 outside, 1 after the escape character, 2 inside a sequence).
\<close>

fun strip_loop :: "nat \<Rightarrow> nat \<Rightarrow> string \<Rightarrow> string" where
  "strip_loop room esc [] = []"
| "strip_loop room esc (c # src) =
     (if room = 0 then []
      else if esc = 0 \<and> c = ESC then strip_loop room 1 src
      else if esc = 1 then strip_loop room (if c = CHR ''['' then 2 else 0) src
      else if esc = 2 then strip_loop room (if CHR ''@'' \<le> c \<and> c \<le> CHR ''~'' then 0 else 2) src
      else c # strip_loop (room - 1) esc src)"

definition strip_ansi :: "nat \<Rightarrow> string \<Rightarrow> string" where
  "strip_ansi dst_size src = strip_loop (dst_size - 1) 0 src"

definition emit_process_line :: "string \<Rightarrow> unit io" where
  "emit_process_line line =
     (if line = [] then ret ()
      else let clean = strip_ansi 512 line in
        if clean \<noteq> [] then log_line clean else ret ())"

section \<open>Running programs\<close>

text \<open>
  The lines that the reading loop of \<^verbatim>\<open>installer_run_command\<close> cuts the output into. Where the
  output is split between two calls of \<^verbatim>\<open>read\<close> does not matter, since the loop goes by characters.
\<close>

fun output_lines :: "string \<Rightarrow> string \<Rightarrow> string list" where
  "output_lines line [] = (if line \<noteq> [] then [line] else [])"
| "output_lines line (c # rest) =
     (if c = CR then output_lines line rest
      else if c = LF then line # output_lines [] rest
      else if length line + 1 < 512 then output_lines (line @ [c]) rest
      else line # output_lines [] rest)"

definition emit_output :: "string \<Rightarrow> unit io" where
  "emit_output out = each_io (\<lambda>line. emit_process_line (cstr line)) (output_lines [] out)"

fun wait_status_to_result :: "wait_status \<Rightarrow> nat" where
  "wait_status_to_result (Exited n) = n"
| "wait_status_to_result (Signaled s) = 128 + s"
| "wait_status_to_result NotRun = 1"

definition installer_run_command :: "env \<Rightarrow> string list \<Rightarrow> nat io" where
  "installer_run_command env argv =
     (if argv = [] then ret 1
      else do {
        _ \<leftarrow> log_command argv;
        r \<leftarrow> exec_cmd env argv;
        (case r of
           PipeFailed msg \<Rightarrow> do { _ \<leftarrow> log_line (''pipe failed: '' @ msg); ret 1 }
         | ForkFailed msg \<Rightarrow> do { _ \<leftarrow> log_line (''fork failed: '' @ msg); ret 1 }
         | WaitFailed out \<Rightarrow> do { _ \<leftarrow> emit_output out; ret 1 }
         | Ran out status \<Rightarrow> do {
             _ \<leftarrow> emit_output out;
             let rc = wait_status_to_result status;
             _ \<leftarrow> log_line (''command exit: '' @ dec rc);
             ret rc
           })
      })"

definition installer_run_shell :: "env \<Rightarrow> string \<Rightarrow> nat io" where
  "installer_run_shell env command = installer_run_command env [''sh'', ''-c'', command]"

section \<open>Files and devices\<close>

definition installer_read_first_line :: "env \<Rightarrow> string \<Rightarrow> nat \<Rightarrow> string option io" where
  "installer_read_first_line env path out_size =
     (if out_size = 0 then ret None
      else do {
        f \<leftarrow> open_file env path;
        ret (case f of None \<Rightarrow> None
             | Some content \<Rightarrow>
                 (case fgets_lines (out_size - 1) content of [] \<Rightarrow> None | line # _ \<Rightarrow> Some (chomp line)))
      })"

definition installer_write_file :: "env \<Rightarrow> string \<Rightarrow> string \<Rightarrow> bool io" where
  "installer_write_file env path content = succeeds env (WriteFile path content)"

definition installer_is_block_device :: "env \<Rightarrow> string \<Rightarrow> bool io" where
  "installer_is_block_device env path = do {
     st \<leftarrow> stat env path;
     ret (case st of Inl e \<Rightarrow> False | Inr s \<Rightarrow> st_kind s = S_BLK)
   }"

text \<open>The tokens that repeated calls of \<^verbatim>\<open>strtok\<close> with one separator give; none is empty.\<close>

fun strtok :: "char \<Rightarrow> string \<Rightarrow> string \<Rightarrow> string list" where
  "strtok sep cur [] = (if cur = [] then [] else [cur])"
| "strtok sep cur (c # s) =
     (if c = sep then (if cur = [] then strtok sep [] s else cur # strtok sep [] s)
      else strtok sep (cur @ [c]) s)"

fun any_io :: "('a \<Rightarrow> bool io) \<Rightarrow> 'a list \<Rightarrow> bool io" where
  "any_io f [] = ret False"
| "any_io f (x # xs) = do { found \<leftarrow> f x; if found then ret True else any_io f xs }"

definition installer_command_exists :: "env \<Rightarrow> string \<Rightarrow> bool io" where
  "installer_command_exists env name =
     (if CHR ''/'' \<in> set name then access env name X_OK
      else
        let path = (case e_getenv env ''PATH'' of None \<Rightarrow> ''/bin:/sbin:/usr/bin:/usr/sbin'' | Some p \<Rightarrow> p) in
        any_io (\<lambda>tok. access env (trunc 512 (tok @ ''/'' @ name)) X_OK) (strtok (CHR '':'') [] path))"

text \<open>\<^verbatim>\<open>strtoull(s, NULL, 10)\<close>: a minus sign negates modulo \<open>2 ^ 64\<close>, the value saturates.\<close>

definition strtoull10 :: "string \<Rightarrow> nat" where
  "strtoull10 s =
     (let t = dropWhile isspace s;
          neg = (t \<noteq> [] \<and> hd t = CHR ''-'');
          u = (if t \<noteq> [] \<and> (hd t = CHR ''-'' \<or> hd t = CHR ''+'') then tl t else t);
          v = nat (digits_value (takeWhile isdigit u))
      in if v \<ge> 2 ^ 64 then 2 ^ 64 - 1 else if neg then (2 ^ 64 - v) mod 2 ^ 64 else v)"

definition device_of :: "string \<Rightarrow> string" where
  "device_of name = ''/dev/'' @ take 48 name"

definition describe_device :: "env \<Rightarrow> string \<Rightarrow> InstallerDisk io" where
  "describe_device env name = do {
     size \<leftarrow> installer_read_first_line env (''/sys/block/'' @ take 48 name @ ''/size'') 128;
     model \<leftarrow> installer_read_first_line env (''/sys/block/'' @ take 48 name @ ''/device/model'') 128;
     ret \<lparr>d_path = trunc 64 (device_of name),
          d_model = (case model of None \<Rightarrow> ''Block device'' | Some m \<Rightarrow> if m = [] then ''Block device'' else m),
          d_mib = (case size of None \<Rightarrow> 0 | Some line \<Rightarrow> strtoull10 line div 2048)\<rparr>
   }"

fun scan_entries ::
  "env \<Rightarrow> (string option \<Rightarrow> bool) \<Rightarrow> nat \<Rightarrow> string list \<Rightarrow> InstallerDisk list \<Rightarrow> InstallerDisk list io" where
  "scan_entries env flt max_devices [] devices = ret devices"
| "scan_entries env flt max_devices (name # names) devices =
     (if name \<noteq> [] \<and> hd name = CHR ''.'' then scan_entries env flt max_devices names devices
      else if length name > 48 then scan_entries env flt max_devices names devices
      else if \<not> flt (Some (device_of name)) then scan_entries env flt max_devices names devices
      else do {
        blk \<leftarrow> installer_is_block_device env (device_of name);
        if \<not> blk \<or> length devices \<ge> max_devices then scan_entries env flt max_devices names devices
        else do {
          d \<leftarrow> describe_device env name;
          scan_entries env flt max_devices names (devices @ [d])
        }
      })"

definition scan_block_devices ::
  "env \<Rightarrow> nat \<Rightarrow> (string option \<Rightarrow> bool) \<Rightarrow> InstallerDisk list option io" where
  "scan_block_devices env max_devices flt = do {
     dir \<leftarrow> opendir env ''/sys/block'';
     (case dir of None \<Rightarrow> ret None
      | Some names \<Rightarrow> do { ds \<leftarrow> scan_entries env flt max_devices names []; ret (Some ds) })
   }"

definition installer_scan_disks :: "env \<Rightarrow> nat \<Rightarrow> InstallerDisk list option io" where
  "installer_scan_disks env max_disks = scan_block_devices env max_disks installer_supported_disk"

definition installer_scan_install_media :: "env \<Rightarrow> nat \<Rightarrow> InstallerDisk list option io" where
  "installer_scan_install_media env max_media =
     scan_block_devices env max_media installer_supported_install_media"

section \<open>The table of mounts\<close>

text \<open>
  \<^verbatim>\<open>fscanf(f, "%127s %127s %*s %*s %*d %*d\n", src, mnt)\<close>. A directive that does not match ends
  the call where it is; the call returns 2 as soon as \<^verbatim>\<open>src\<close> and \<^verbatim>\<open>mnt\<close> are read.
\<close>

definition skip_space :: "string \<Rightarrow> string" where
  "skip_space s = dropWhile isspace s"

definition scan_word :: "nat \<Rightarrow> string \<Rightarrow> string \<times> string" where
  "scan_word width s =
     (let t = skip_space s; w = take width (takeWhile (\<lambda>c. \<not> isspace c) t) in (w, drop (length w) t))"

definition skip_word :: "string \<Rightarrow> bool \<times> string" where
  "skip_word s = (let t = skip_space s in
     (t \<noteq> [], dropWhile (\<lambda>c. \<not> isspace c) t))"

definition skip_number :: "string \<Rightarrow> bool \<times> string" where
  "skip_number s =
     (let t = skip_space s;
          u = (if t \<noteq> [] \<and> (hd t = CHR ''-'' \<or> hd t = CHR ''+'') then tl t else t)
      in (u \<noteq> [] \<and> isdigit (hd u), dropWhile isdigit u))"

fun skip_fields :: "(string \<Rightarrow> bool \<times> string) list \<Rightarrow> string \<Rightarrow> string" where
  "skip_fields [] s = skip_space s"
| "skip_fields (f # fs) s = (let (ok, r) = f s in if ok then skip_fields fs r else r)"

definition scan_mount :: "string \<Rightarrow> ((string \<times> string) \<times> string) option" where
  "scan_mount s =
     (let (src, r) = scan_word 127 s; (mnt, r') = scan_word 127 r in
      if src = [] \<or> mnt = [] then None
      else Some ((src, mnt), skip_fields [skip_word, skip_word, skip_number, skip_number] r'))"

lemma length_skip_space [simp]: "length (skip_space s) \<le> length s"
  by (simp add: skip_space_def length_dropWhile_le)

lemma scan_word_length:
  assumes "scan_word width s = (w, r)"
  shows "length w + length r \<le> length s"
proof -
  let ?w = "take width (takeWhile (\<lambda>c. \<not> isspace c) (skip_space s))"
  have "length ?w \<le> length (skip_space s)"
    by (simp add: length_takeWhile_le min.coboundedI1)
  moreover have "w = ?w" "r = drop (length ?w) (skip_space s)"
    using assms by (auto simp: scan_word_def Let_def simp del: length_take)
  ultimately show ?thesis
    using length_skip_space [of s] by (simp del: length_take length_skip_space)
qed

lemma skip_word_length: "length (snd (skip_word s)) \<le> length s"
  unfolding skip_word_def Let_def using length_skip_space [of s]
  by (metis length_dropWhile_le order_trans snd_conv)

lemma skip_number_length: "length (snd (skip_number s)) \<le> length s"
proof -
  have "length (dropWhile isdigit u) \<le> length s" if "length u \<le> length (skip_space s)" for u
    using that length_dropWhile_le [of isdigit u] length_skip_space [of s] by linarith
  then show ?thesis by (simp add: skip_number_def Let_def)
qed

lemma skip_fields_length:
  assumes "\<And>f t. f \<in> set fs \<Longrightarrow> length (snd (f t)) \<le> length t"
  shows "length (skip_fields fs s) \<le> length s"
  using assms
proof (induction fs arbitrary: s)
  case (Cons f fs)
  obtain ok r where f: "f s = (ok, r)" by (cases "f s")
  from Cons.prems [of f s] f have "length r \<le> length s" by simp
  moreover have "length (skip_fields fs r) \<le> length r" using Cons by simp
  ultimately show ?case by (simp add: f)
qed simp

lemma scan_mount_length: "scan_mount s = Some (e, r) \<Longrightarrow> length r < length s"
proof -
  assume *: "scan_mount s = Some (e, r)"
  obtain src r1 where w1: "scan_word 127 s = (src, r1)" by (cases "scan_word 127 s")
  obtain mnt r2 where w2: "scan_word 127 r1 = (mnt, r2)" by (cases "scan_word 127 r1")
  from * have ne: "src \<noteq> []"
    and r: "r = skip_fields [skip_word, skip_word, skip_number, skip_number] r2"
    by (auto simp: scan_mount_def w1 w2 split: if_splits)
  have "length r \<le> length r2"
    unfolding r by (rule skip_fields_length) (auto simp: skip_word_length skip_number_length)
  with scan_word_length [OF w1] scan_word_length [OF w2] ne show ?thesis
    by (cases src) simp_all
qed

text \<open>The entries that the loop over the file sees.\<close>

function mount_table :: "string \<Rightarrow> (string \<times> string) list" where
  "mount_table s = (case scan_mount s of None \<Rightarrow> [] | Some (e, r) \<Rightarrow> e # mount_table r)"
  by pat_completeness auto
termination
  by (relation "measure length") (auto dest: scan_mount_length)

declare mount_table.simps [simp del]

definition installer_safe_umount :: "env \<Rightarrow> string \<Rightarrow> unit io" where
  "installer_safe_umount env mountpoint = do {
     f \<leftarrow> open_file env ''/proc/mounts'';
     if (case f of None \<Rightarrow> False
         | Some content \<Rightarrow> list_ex (\<lambda>(src, mnt). mnt = mountpoint) (mount_table content))
     then do { _ \<leftarrow> installer_run_command env [''umount'', mountpoint]; ret () }
     else ret ()
   }"

section \<open>Lemmas\<close>

subsection \<open>Mounts\<close>

definition mount_word :: "string \<Rightarrow> bool" where
  "mount_word w \<longleftrightarrow> w \<noteq> [] \<and> list_all (\<lambda>c. \<not> isspace c) w"

fun mount_line :: "string \<times> string \<times> string \<times> string \<Rightarrow> string" where
  "mount_line (src, mnt, fs, opts) =
     src @ '' '' @ mnt @ '' '' @ fs @ '' '' @ opts @ '' 0 0'' @ [LF]"

lemma isspace_SP [simp]: "isspace (CHR '' '')" "isspace LF" "\<not> isspace (CHR ''0'')" "isdigit (CHR ''0'')"
  "\<not> isdigit (CHR '' '')" "\<not> isdigit LF"
  by (simp_all add: ctype_defs less_eq_char_def)

lemma skip_space_space [simp]: "isspace c \<Longrightarrow> skip_space (c # s) = skip_space s"
  by (simp add: skip_space_def)

lemma skip_space_word [simp]: "mount_word w \<Longrightarrow> skip_space (w @ s) = w @ s"
  by (cases w) (simp_all add: mount_word_def skip_space_def)

lemma skip_space_idem [simp]: "skip_space (skip_space s) = skip_space s"
  by (simp add: skip_space_def)

lemma takeWhile_word:
  "mount_word w \<Longrightarrow> isspace c \<Longrightarrow> takeWhile (\<lambda>c. \<not> isspace c) (w @ c # s) = w"
  "mount_word w \<Longrightarrow> isspace c \<Longrightarrow> dropWhile (\<lambda>c. \<not> isspace c) (w @ c # s) = c # s"
  by (simp_all add: mount_word_def list_all_iff takeWhile_append2 dropWhile_append2)

lemma scan_word_word:
  "mount_word w \<Longrightarrow> isspace c \<Longrightarrow> length w \<le> n \<Longrightarrow> scan_word n (w @ c # s) = (w, c # s)"
  by (simp add: scan_word_def takeWhile_word)

lemma scan_word_space [simp]:
  "isspace c \<Longrightarrow> scan_word n (c # s) = scan_word n s" "scan_word n (skip_space s) = scan_word n s"
  by (simp_all add: scan_word_def)

lemma skip_word_space [simp]: "isspace c \<Longrightarrow> skip_word (c # s) = skip_word s"
  by (simp add: skip_word_def)

lemma skip_word_word:
  "mount_word w \<Longrightarrow> isspace c \<Longrightarrow> skip_word (w @ c # s) = (True, c # s)"
  by (simp add: skip_word_def takeWhile_word)

lemma skip_number_zero:
  "isspace c \<Longrightarrow> \<not> isdigit c \<Longrightarrow> skip_number (CHR '' '' # CHR ''0'' # c # s) = (True, c # s)"
  by (simp add: skip_number_def skip_space_def)

lemma scan_mount_line:
  assumes "mount_word src" "mount_word mnt" "mount_word fs" "mount_word opts"
    and "length src \<le> 127" "length mnt \<le> 127"
  shows "scan_mount (mount_line (src, mnt, fs, opts) @ rest) = Some ((src, mnt), skip_space rest)"
proof -
  have ne: "src \<noteq> []" "mnt \<noteq> []" using assms(1,2) by (auto simp: mount_word_def)
  have "skip_fields [skip_word, skip_word, skip_number, skip_number]
      (CHR '' '' # fs @ CHR '' '' # opts @ CHR '' '' # CHR ''0'' # CHR '' '' # CHR ''0'' # LF # rest) =
      skip_space rest"
    by (simp add: skip_word_word assms skip_number_zero)
  with ne show ?thesis by (simp add: scan_mount_def scan_word_word assms)
qed

lemma mount_table_skip_space: "mount_table (skip_space s) = mount_table s"
  by (subst (1 2) mount_table.simps) (simp add: scan_mount_def)

subsection \<open>Escape sequences\<close>

text \<open>Terminal output as it is written: text, and control sequences with their parameters.\<close>

datatype chunk = Text string | Csi string char

fun chunk_ok :: "chunk \<Rightarrow> bool" where
  "chunk_ok (Text t) \<longleftrightarrow> ESC \<notin> set t"
| "chunk_ok (Csi ps c) \<longleftrightarrow>
     list_all (\<lambda>p. \<not> (CHR ''@'' \<le> p \<and> p \<le> CHR ''~'')) ps \<and> CHR ''@'' \<le> c \<and> c \<le> CHR ''~''"

fun render :: "chunk \<Rightarrow> string" where
  "render (Text t) = t"
| "render (Csi ps c) = [ESC, CHR ''[''] @ ps @ [c]"

fun plain :: "chunk \<Rightarrow> string" where
  "plain (Text t) = t"
| "plain (Csi ps c) = []"

lemma strip_loop_full [simp]: "strip_loop 0 esc s = []"
  by (cases s) simp_all

lemma strip_loop_text:
  "ESC \<notin> set t \<Longrightarrow> strip_loop room 0 (t @ s) = take room t @ strip_loop (room - length t) 0 s"
  by (induction t arbitrary: room) (auto simp: take_Cons')

lemma strip_loop_params:
  "list_all (\<lambda>p. \<not> (CHR ''@'' \<le> p \<and> p \<le> CHR ''~'')) ps \<Longrightarrow> CHR ''@'' \<le> c \<Longrightarrow> c \<le> CHR ''~'' \<Longrightarrow>
    strip_loop room 2 (ps @ c # s) = strip_loop room 0 s"
  by (cases "room = 0"; induction ps) auto

lemma strip_loop_chunks:
  "list_all chunk_ok cs \<Longrightarrow> strip_loop room 0 (concat (map render cs)) = take room (concat (map plain cs))"
proof (induction cs arbitrary: room)
  case (Cons c cs)
  show ?case
  proof (cases c)
    case (Text t)
    with Cons show ?thesis by (simp add: strip_loop_text)
  next
    case (Csi ps f)
    with Cons show ?thesis by (cases "room = 0") (simp_all add: strip_loop_params)
  qed
qed simp

lemma strip_loop_no_esc: "esc \<le> 2 \<Longrightarrow> ESC \<notin> set (strip_loop room esc s)"
  by (induction room esc s rule: strip_loop.induct) auto

subsection \<open>The scan for disks\<close>

definition usable_device :: "env \<Rightarrow> history \<Rightarrow> (string option \<Rightarrow> bool) \<Rightarrow> InstallerDisk \<Rightarrow> bool" where
  "usable_device env h flt d \<longleftrightarrow>
     flt (Some (d_path d)) \<and> result (installer_is_block_device env (d_path d)) h"

lemma after_device_queries [simp]:
  "after (installer_is_block_device env path) h = h"
  "after (installer_read_first_line env path n) h = h"
  "after (describe_device env name) h = h"
  by (simp_all add: installer_is_block_device_def installer_read_first_line_def describe_device_def)

lemma describe_device_path [simp]:
  "length name \<le> 48 \<Longrightarrow> d_path (result (describe_device env name) h) = device_of name"
  by (simp add: describe_device_def device_of_def trunc_def)

lemma scan_entries_sound:
  assumes "length devices \<le> max_devices" and "list_all (usable_device env h flt) devices"
  shows "length (result (scan_entries env flt max_devices names devices) h) \<le> max_devices
    \<and> list_all (usable_device env h flt) (result (scan_entries env flt max_devices names devices) h)
    \<and> after (scan_entries env flt max_devices names devices) h = h"
  using assms
proof (induction names arbitrary: devices)
  case (Cons name names)
  note skip = Cons.IH [OF Cons.prems]
  show ?case
  proof (cases "length name \<le> 48 \<and> flt (Some (device_of name))
      \<and> result (installer_is_block_device env (device_of name)) h \<and> length devices < max_devices")
    case True
    then have "usable_device env h flt (result (describe_device env name) h)"
      by (simp add: usable_device_def)
    with True Cons.IH [of "devices @ [result (describe_device env name) h]"] Cons.prems skip
    show ?thesis by (cases name) simp_all
  next
    case False
    with skip show ?thesis by (auto simp: not_less not_le)
  qed
qed simp

subsection \<open>The echo of a command\<close>

lemma log_command_loop_spec:
  "length buf < 512 \<Longrightarrow>
    log_command_loop buf (length buf) argv = trunc 512 (buf @ concat (map shown_arg argv))"
proof (induction argv arbitrary: buf)
  case (Cons a argv)
  have full: "log_command_loop buf' pos argv = buf'" if "512 \<le> pos + 1" for buf' pos
    using that by (cases argv) simp_all
  consider "length buf = 511" | "length buf < 511" "length (buf @ shown_arg a) < 512"
    | "length buf < 511" "512 \<le> length (buf @ shown_arg a)"
    using Cons.prems by linarith
  then show ?case
  proof cases
    case 2
    with Cons.IH [of "buf @ shown_arg a"] show ?thesis
      by (simp add: append_at_def trunc_def)
  next
    case 3
    with Cons.prems show ?thesis
      by (simp add: full append_at_def trunc_def)
  qed (simp add: trunc_def)
qed (simp add: trunc_def)

section \<open>Properties\<close>

text \<open>
  What the log shows of a program's output is its text: from a line made of text and terminal
  control sequences exactly the sequences disappear, and the rest is cut to the buffer.
\<close>

theorem strip_ansi_keeps_text:
  assumes "list_all chunk_ok cs"
  shows "strip_ansi n (concat (map render cs)) = trunc n (concat (map plain cs))"
  using strip_loop_chunks [OF assms] by (simp add: strip_ansi_def trunc_def)

theorem strip_ansi_keeps_text_witness:
  "strip_ansi 512 (concat (map render [Csi ''1;31'' (CHR ''m''), Text ''ERR'', Csi [] (CHR ''m'')])) =
     trunc 512 (concat (map plain [Csi ''1;31'' (CHR ''m''), Text ''ERR'', Csi [] (CHR ''m'')]))"
  by (rule strip_ansi_keeps_text) code_simp

text \<open>
  The reader of \<^verbatim>\<open>/proc/mounts\<close> finds every mount: on a table in the kernel's format, with
  devices and mount points of at most 127 characters, it sees each line with its device and mount
  point, in order.
\<close>

theorem mount_table_round_trip:
  assumes "list_all (\<lambda>(src, mnt, fs, opts). mount_word src \<and> mount_word mnt \<and> mount_word fs
      \<and> mount_word opts \<and> length src \<le> 127 \<and> length mnt \<le> 127) es"
  shows "mount_table (concat (map mount_line es)) = map (\<lambda>(src, mnt, fs, opts). (src, mnt)) es"
  using assms
proof (induction es)
  case Nil
  show ?case by (simp add: mount_table.simps scan_mount_def scan_word_def skip_space_def)
next
  case (Cons e es)
  then show ?case
    by (cases e) (simp add: mount_table.simps [of "_ @ _"] scan_mount_line mount_table_skip_space
        del: mount_line.simps)
qed

theorem mount_table_round_trip_witness:
  "mount_table (concat (map mount_line
     [(''/dev/sda1'', ''/'', ''ext4'', ''rw''), (''proc'', ''/proc'', ''proc'', ''rw,nosuid'')])) =
   map (\<lambda>(src, mnt, fs, opts). (src, mnt))
     [(''/dev/sda1'', ''/'', ''ext4'', ''rw''), (''proc'', ''/proc'', ''proc'', ''rw,nosuid'')]"
  by (rule mount_table_round_trip) code_simp

text \<open>
  Every disk the installer offers is one it may use: the scan returns at most as many devices
  as asked for, each is a block device with a supported name, and scanning changes nothing.
\<close>

theorem scan_disks_sound:
  assumes "result (installer_scan_disks env max_disks) h = Some ds"
  shows "length ds \<le> max_disks \<and> list_all (usable_device env h installer_supported_disk) ds
    \<and> after (installer_scan_disks env max_disks) h = h"
proof -
  obtain names where dir: "e_opendir env h ''/sys/block'' = Some names"
    and ds: "ds = result (scan_entries env installer_supported_disk max_disks names []) h"
    using assms by (auto simp: installer_scan_disks_def scan_block_devices_def split: option.splits)
  with scan_entries_sound [of "[]" max_disks env h installer_supported_disk names] show ?thesis
    by (simp add: installer_scan_disks_def scan_block_devices_def)
qed

definition disk_env :: env where
  "disk_env = (listing_env []) \<lparr>e_opendir := \<lambda>h p. Some [''.'', ''sda'', ''loop0''],
     e_stat := \<lambda>h p. Inr \<lparr>st_kind = S_BLK, st_mode = 0\<rparr>\<rparr>"

theorem scan_disks_sound_witness:
  "length [\<lparr>d_path = ''/dev/sda'', d_model = ''Block device'', d_mib = 0\<rparr>] \<le> 32
    \<and> list_all (usable_device disk_env [] installer_supported_disk)
        [\<lparr>d_path = ''/dev/sda'', d_model = ''Block device'', d_mib = 0\<rparr>]
    \<and> after (installer_scan_disks disk_env 32) [] = []"
proof (rule scan_disks_sound)
  have "installer_supported_disk (Some ''/dev/sda'')" "\<not> installer_supported_disk (Some ''/dev/loop0'')"
    by code_simp+
  then show "result (installer_scan_disks disk_env 32) [] =
      Some [\<lparr>d_path = ''/dev/sda'', d_model = ''Block device'', d_mib = 0\<rparr>]"
    by (simp add: installer_scan_disks_def scan_block_devices_def disk_env_def listing_env_def
        device_of_def installer_is_block_device_def describe_device_def installer_read_first_line_def
        fgets_lines.simps trunc_def)
qed

text \<open>
  The echo of a command in the log is the command: filling the buffer argument by argument
  gives what cutting the whole line once to the buffer would give.
\<close>

theorem log_command_equivalent:
  "log_command argv = emit (Log (trunc 512 (''$'' @ concat (map shown_arg argv))))"
  using log_command_loop_spec [of "''$''" argv] by (simp add: log_command_def)

text \<open>
  A line of output longer than the buffer loses a character at every place where it is cut:
  the character that finds the buffer full is dropped and not put at the start of the next line.
\<close>

theorem output_lines_drops:
  assumes "length line = 511" and "set line \<inter> {CR, LF} = {}" and "c \<noteq> CR" and "c \<noteq> LF"
  shows "output_lines [] (line @ c # rest) = line # output_lines [] rest"
proof -
  have "output_lines acc (l @ c # rest) = (acc @ l) # output_lines [] rest"
    if "length (acc @ l) = 511" "set l \<inter> {CR, LF} = {}" for acc l
    using that
  proof (induction l arbitrary: acc)
    case (Cons x l)
    from Cons.IH [of "acc @ [x]"] Cons.prems show ?case by auto
  qed (use assms(3,4) in simp)
  from this [of "[]" line] assms(1,2) show ?thesis by simp
qed

theorem output_lines_drops_witness:
  "output_lines [] (replicate 511 (CHR ''a'') @ CHR ''b'' # ''cd'') =
     replicate 511 (CHR ''a'') # output_lines [] ''cd''"
  by (rule output_lines_drops) simp_all

end
