(* ===== verification/InstallerRun.thy ===== *)
theory InstallerRun
  imports InstallerSys
begin

text \<open>
  The installation itself, \<^verbatim>\<open>tools/installer/install.c\<close>: finding and mounting the media, the checks
  that the target is not the disk the installer runs from, partitioning, formatting, copying the
  system, the accounts and the boot loader. A function that returns 0 or an error yields a
  \<^typ>\<open>bool\<close>, \<^const>\<open>True\<close> for 0.
\<close>

abbreviation ROOT_MNT :: string where "ROOT_MNT \<equiv> ''/mnt/root''"
abbreviation INSTALL_MNT :: string where "INSTALL_MNT \<equiv> ''/mnt/install''"
abbreviation INSTALLER_LOG_PATH :: string where "INSTALLER_LOG_PATH \<equiv> ''/tmp/adavalinux-installer.log''"

section \<open>Logging and running\<close>

definition emit_log :: "string \<Rightarrow> unit io" where
  "emit_log text = emit (Log (trunc 1024 text))"

definition emit_log_errno :: "env \<Rightarrow> string \<Rightarrow> unit io" where
  "emit_log_errno env text = do { msg \<leftarrow> query (e_strerror env); emit_log (text @ '': '' @ msg) }"

definition step :: "int \<Rightarrow> string \<Rightarrow> unit io" where
  "step percent label = emit (Progress percent label)"

text \<open>A message in front of a failing return.\<close>

definition fail_with :: "string \<Rightarrow> bool io" where
  "fail_with text = do { _ \<leftarrow> emit_log text; ret False }"

definition checked :: "nat io \<Rightarrow> bool io" where
  "checked m = do {
     rc \<leftarrow> m;
     if rc \<noteq> 0 then fail_with (''command failed with exit code '' @ dec rc) else ret True
   }"

definition run_checked :: "env \<Rightarrow> string list \<Rightarrow> bool io" where
  "run_checked env argv = checked (installer_run_command env argv)"

definition shell_checked :: "env \<Rightarrow> string \<Rightarrow> bool io" where
  "shell_checked env cmd = checked (installer_run_shell env cmd)"

definition run_built :: "env \<Rightarrow> string option \<Rightarrow> bool io" where
  "run_built env cmd = with_some cmd (shell_checked env)"

definition capture_command :: "env \<Rightarrow> string list \<Rightarrow> nat \<Rightarrow> string option io" where
  "capture_command env argv out_size =
     (if out_size = 0 then ret None
      else do {
        r \<leftarrow> capture_cmd env argv;
        ret (case r of
               Ran out status \<Rightarrow>
                 if status = Exited 0 then Some (chomp (cstr (take (out_size - 1) out))) else None
             | _ \<Rightarrow> None)
      })"

definition captured_by :: "env \<Rightarrow> string list \<Rightarrow> nat \<Rightarrow> string option io" where
  "captured_by env argv out_size = do {
     present \<leftarrow> installer_command_exists env (argv ! 0);
     if \<not> present then ret None
     else do {
       out \<leftarrow> capture_command env argv out_size;
       ret (if out = Some [] then None else out)
     }
   }"

definition hash_password :: "env \<Rightarrow> string \<Rightarrow> nat \<Rightarrow> string option io" where
  "hash_password env password out_size = do {
     h \<leftarrow> captured_by env [''mkpasswd'', ''-m'', ''sha-512'', password] out_size;
     (case h of Some _ \<Rightarrow> ret h
      | None \<Rightarrow> captured_by env [''openssl'', ''passwd'', ''-6'', password] out_size)
   }"

section \<open>Mounts and media\<close>

definition mount_dev_at :: "env \<Rightarrow> string \<Rightarrow> nat \<Rightarrow> string option io" where
  "mount_dev_at env mountpoint out_size = do {
     f \<leftarrow> open_file env ''/proc/mounts'';
     ret (if out_size = 0 then None
          else case f of None \<Rightarrow> None
          | Some content \<Rightarrow>
              (case List.find (\<lambda>(src, mnt). mnt = mountpoint) (mount_table content) of
                 None \<Rightarrow> None
               | Some (src, mnt) \<Rightarrow> Some (trunc out_size src)))
   }"

abbreviation MEDIA_MARK :: string where "MEDIA_MARK \<equiv> ''/mnt/install/boot/initramfs-installer.gz''"

definition try_mount_install_media :: "env \<Rightarrow> string \<Rightarrow> nat \<Rightarrow> string option io" where
  "try_mount_install_media env device media_dev_size = do {
     _ \<leftarrow> installer_safe_umount env INSTALL_MNT;
     ok \<leftarrow> run_checked env [''mount'', ''-o'', ''ro'', device, INSTALL_MNT];
     if \<not> ok then ret None
     else do {
       found \<leftarrow> access env MEDIA_MARK F_OK;
       if found then ret (Some (trunc media_dev_size device))
       else do { _ \<leftarrow> installer_safe_umount env INSTALL_MNT; ret None }
     }
   }"

text \<open>A loop that stops at the first turn that finds something.\<close>

fun first_io :: "('a \<Rightarrow> 'b option io) \<Rightarrow> 'a list \<Rightarrow> 'b option io" where
  "first_io f [] = ret None"
| "first_io f (x # xs) = do {
     r \<leftarrow> f x;
     (case r of Some y \<Rightarrow> ret (Some y) | None \<Rightarrow> first_io f xs)
   }"

definition media_partition :: "env \<Rightarrow> string \<Rightarrow> string \<Rightarrow> string \<Rightarrow> bool io" where
  "media_partition env disk sys_path name =
     (if prefix ''.'' name then ret False
      else with_some (fits PATH_MAX (''/dev/'' @ name)) (\<lambda>candidate.
        if \<not> installer_partition_belongs_to_disk (Some disk) (Some candidate) then ret False
        else with_some (fits PATH_MAX (sys_path @ ''/'' @ name @ ''/partition'')) (\<lambda>marker.
          and_then (access env marker F_OK) (installer_is_block_device env candidate))))"

definition mount_selected_disk_partition :: "env \<Rightarrow> string \<Rightarrow> nat \<Rightarrow> string option io" where
  "mount_selected_disk_partition env disk media_dev_size =
     (case fits PATH_MAX (''/sys/class/block/'' @ drop 5 disk) of
        None \<Rightarrow> ret None
      | Some sys_path \<Rightarrow>
          bind_some (opendir env sys_path) (first_io (\<lambda>name. do {
            candidate \<leftarrow> media_partition env disk sys_path name;
            if candidate then try_mount_install_media env (''/dev/'' @ name) media_dev_size
            else ret None
          })))"

definition parent_disk :: "string option \<Rightarrow> nat \<Rightarrow> string option" where
  "parent_disk dev out_size =
     (case dev of None \<Rightarrow> None
      | Some d \<Rightarrow>
          if out_size = 0 \<or> prefix ''/dev/sr'' d then None
          else let out = trunc out_size d in
            if strstr out ''/dev/nvme'' = Some 0 \<or> strstr out ''/dev/mmcblk'' = Some 0 then
              (case strrchr out (CHR ''p'') of
                 Some i \<Rightarrow>
                   if Suc i < length out \<and> isdigit (out ! Suc i) then Some (take i out) else Some out
               | None \<Rightarrow> Some out)
            else Some (rev (dropWhile isdigit (rev out))))"

definition mount_ro :: "string \<Rightarrow> string list" where
  "mount_ro dev = [''mount'', ''-o'', ''ro'', dev, INSTALL_MNT]"

text \<open>The common end of the two ways to mount a device that was not chosen in the dialogs.\<close>

definition mounted_media :: "env \<Rightarrow> string \<Rightarrow> bool \<Rightarrow> string option io" where
  "mounted_media env media_dev ok =
     (if \<not> ok then ret None
      else do {
        found \<leftarrow> access env MEDIA_MARK F_OK;
        if found then ret (Some media_dev)
        else do { _ \<leftarrow> installer_safe_umount env INSTALL_MNT; ret None }
      })"

definition selected_media :: "env \<Rightarrow> string \<Rightarrow> nat \<Rightarrow> string option io" where
  "selected_media env media media_dev_size = do {
     blk \<leftarrow> installer_is_block_device env media;
     if \<not> blk then do {
       _ \<leftarrow> emit_log (''Selected installer media is not a block device: '' @ media);
       ret None
     }
     else do {
       _ \<leftarrow> emit_log (''Using selected installer media: '' @ media);
       part \<leftarrow> (if installer_supported_disk (Some media)
               then mount_selected_disk_partition env media media_dev_size else ret None);
       (case part of Some _ \<Rightarrow> ret part
        | None \<Rightarrow> do {
            whole \<leftarrow> try_mount_install_media env media media_dev_size;
            (case whole of Some _ \<Rightarrow> ret whole
             | None \<Rightarrow> do {
                 _ \<leftarrow> emit_log (''Selected installer media does not contain AdavaLinux files: '' @ media);
                 ret None
               })
          })
     }
   }"

definition named_media :: "env \<Rightarrow> string \<Rightarrow> nat \<Rightarrow> string option io" where
  "named_media env env_media media_dev_size = do {
     blk \<leftarrow> installer_is_block_device env env_media;
     if \<not> blk then do {
       _ \<leftarrow> emit_log (''Installer media is not a block device: '' @ env_media);
       ret None
     }
     else do {
       ok \<leftarrow> run_checked env (mount_ro env_media);
       mounted_media env (trunc media_dev_size env_media) ok
     }
   }"

definition scanned_media :: "env \<Rightarrow> nat \<Rightarrow> string option io" where
  "scanned_media env media_dev_size = do {
     media \<leftarrow> installer_scan_install_media env 32;
     (case media of
        None \<Rightarrow> do { _ \<leftarrow> emit_log ''Failed to scan installer media''; ret None }
      | Some ds \<Rightarrow> do {
          found \<leftarrow> first_io (\<lambda>d. do {
              rc \<leftarrow> installer_run_command env (mount_ro (d_path d));
              mounted_media env (trunc media_dev_size (take 63 (d_path d))) (rc = 0)
            }) ds;
          (case found of Some _ \<Rightarrow> ret found
           | None \<Rightarrow> do {
               _ \<leftarrow> emit_log ''Installer media not found. Set INSTALL_MEDIA=/dev/...'';
               ret None
             })
        })
   }"

definition detect_media :: "env \<Rightarrow> InstallerConfig \<Rightarrow> nat \<Rightarrow> string option io" where
  "detect_media env cfg media_dev_size =
     (if c_install_media cfg \<noteq> [] then selected_media env (c_install_media cfg) media_dev_size
      else do {
        dev \<leftarrow> mount_dev_at env INSTALL_MNT media_dev_size;
        found \<leftarrow> (if dev = None then ret False else access env MEDIA_MARK F_OK);
        if found then ret dev
        else do {
          _ \<leftarrow> installer_safe_umount env INSTALL_MNT;
          (case e_getenv env ''INSTALL_MEDIA'' of
             None \<Rightarrow> scanned_media env media_dev_size
           | Some m \<Rightarrow>
               if m \<noteq> [] \<and> m \<noteq> ''auto'' then named_media env m media_dev_size
               else scanned_media env media_dev_size)
        }
      })"

section \<open>GRUB, the resolver and the partitions\<close>

definition find_first_glob :: "env \<Rightarrow> string \<Rightarrow> nat \<Rightarrow> string option io" where
  "find_first_glob env pattern out_size = do {
     paths \<leftarrow> glob env pattern;
     ret (case paths of [] \<Rightarrow> None | p # _ \<Rightarrow> Some (trunc out_size p))
   }"

definition grub_bases :: "string list" where
  "grub_bases =
     [''/boot/grub2'', ''/boot/grub'', ''/usr/lib/grub'', ''/usr/lib64/grub'', ''/lib/grub'', ''/lib64/grub'',
      ROOT_MNT @ ''/boot/grub2'', ROOT_MNT @ ''/boot/grub'', ROOT_MNT @ ''/usr/lib/grub'',
      ROOT_MNT @ ''/usr/lib64/grub'', ROOT_MNT @ ''/lib/grub'', ROOT_MNT @ ''/lib64/grub'',
      INSTALL_MNT @ ''/usr/lib/grub'', INSTALL_MNT @ ''/usr/lib64/grub'', INSTALL_MNT @ ''/lib/grub'',
      INSTALL_MNT @ ''/lib64/grub'', INSTALL_MNT @ ''/packages'', INSTALL_MNT @ ''/syspckg'']"

definition grub_dir_at :: "env \<Rightarrow> string \<Rightarrow> nat \<Rightarrow> string \<Rightarrow> string option io" where
  "grub_dir_at env platform out_size base =
     (case (fits PATH_MAX (base @ ''/'' @ platform),
            fits PATH_MAX (base @ ''/'' @ platform @ ''/modinfo.sh''),
            fits PATH_MAX (base @ ''/'' @ platform @ ''/kernel.img'')) of
        (Some cand, Some modinfo, Some kernel_img) \<Rightarrow> do {
          ok \<leftarrow> and_then (access env modinfo F_OK) (access env kernel_img F_OK);
          ret (if ok then Some (trunc out_size cand) else None)
        }
      | _ \<Rightarrow> ret None)"

definition grub_find_command :: string where
  "grub_find_command =
     ''find /boot /usr /usr/lib64 /lib /lib64 '' @ ROOT_MNT @ '' '' @ INSTALL_MNT @ '' '' @ [CHR 0x5C] @
     ''( -name modinfo.sh -o -name kernel.img -o -name normal.mod '' @ [CHR 0x5C] @ '') 2>/dev/null''"

definition resolve_grub_platform_dir :: "env \<Rightarrow> string \<Rightarrow> nat \<Rightarrow> string option io" where
  "resolve_grub_platform_dir env platform out_size = do {
     dir \<leftarrow> first_io (grub_dir_at env platform out_size) grub_bases;
     (case dir of
        Some d \<Rightarrow> do {
          _ \<leftarrow> emit_log (''Using GRUB '' @ platform @ '' directory: '' @ d);
          ret dir
        }
      | None \<Rightarrow> do {
          _ \<leftarrow> emit_log (''GRUB '' @ platform @ '' install modules not found; available GRUB files:'');
          _ \<leftarrow> installer_run_shell env grub_find_command;
          ret None
        })
   }"

definition resolver_fallback :: string where
  "resolver_fallback =
     ''nameserver 10.0.2.3'' @ [LF] @ ''nameserver 1.1.1.1'' @ [LF] @ ''nameserver 8.8.8.8'' @ [LF] @
     ''options timeout:2 attempts:2 rotate'' @ [LF]"

definition sync_target_resolver :: "env \<Rightarrow> bool io" where
  "sync_target_resolver env = do {
     src \<leftarrow> open_file env ''/etc/resolv.conf'';
     let used = (case src of None \<Rightarrow> [] | Some content \<Rightarrow> take 4095 content);
     _ \<leftarrow> (if used = [] then emit_log ''Live resolver unavailable; using installer DNS fallback'' else ret ());
     let buffer = (if used = [] then resolver_fallback else cstr used);
     and_then (shell_checked env (''mkdir -p '' @ ROOT_MNT @ ''/etc'')) (do {
       ok \<leftarrow> installer_write_file env (ROOT_MNT @ ''/etc/resolv.conf'') buffer;
       if \<not> ok then do {
         _ \<leftarrow> emit_log_errno env ''Failed to write target /etc/resolv.conf'';
         ret False
       }
       else do {
         _ \<leftarrow> emit_log ''Target DNS resolver synchronized from live installer'';
         ret True
       }
     })
   }"

definition install_grub_pkg :: "env \<Rightarrow> string \<Rightarrow> string option \<Rightarrow> bool io" where
  "install_grub_pkg env pkg target_root =
     (let target_install = (target_root \<noteq> None \<and> target_root \<noteq> Some []) in do {
        _ \<leftarrow> emit_log (''Installing RPM package '' @ [SQ] @ pkg @ [SQ] @ '' with SystemPackager 1.0'' @
               (if target_install then '' in target root'' else []));
        run_checked env
          (case target_root of
             Some root \<Rightarrow>
               if target_install then installer_build_syspckg_root_install_argv pkg root
               else installer_build_syspckg_install_argv pkg
           | None \<Rightarrow> installer_build_syspckg_install_argv pkg)
      })"

fun wait_attempts :: "nat \<Rightarrow> env \<Rightarrow> string \<Rightarrow> string \<Rightarrow> bool io" where
  "wait_attempts 0 env root_part efi_part = fail_with ''Partition devices did not appear after fdisk''"
| "wait_attempts (Suc n) env root_part efi_part = do {
     root_ok \<leftarrow> installer_is_block_device env root_part;
     efi_ok \<leftarrow> (if efi_part = [] then ret True else installer_is_block_device env efi_part);
     if root_ok \<and> efi_ok then ret True
     else do {
       _ \<leftarrow> emit_log (''Waiting for partition devices: root='' @ root_part @
              (if root_ok then '' ready'' else '' missing'') @ '' efi='' @
              (if efi_part \<noteq> [] then efi_part else ''-'') @
              (if efi_ok then '' ready'' else '' missing''));
       _ \<leftarrow> installer_run_command env [''mdev'', ''-s''];
       _ \<leftarrow> emit (Usleep 1000000);
       wait_attempts n env root_part efi_part
     }
   }"

text \<open>A null or empty \<^verbatim>\<open>efi_part\<close> counts as absent.\<close>

definition wait_for_partitions :: "env \<Rightarrow> string \<Rightarrow> string \<Rightarrow> bool io" where
  "wait_for_partitions = wait_attempts 10"

section \<open>Accounts\<close>

text \<open>The lines of the file that are kept, and the new record at the end.\<close>

definition upsert_content :: "string option \<Rightarrow> string \<Rightarrow> string \<Rightarrow> string" where
  "upsert_content content name record =
     (case content of None \<Rightarrow> []
      | Some c \<Rightarrow> concat (filter (\<lambda>line. \<not> prefix (name @ '':'') line) (fgets_lines 2047 c)))
     @ record"

text \<open>
  A file that cannot be opened is taken for missing when \<^verbatim>\<open>stat\<close> says so. The temporary file is
  created first, and removed again whenever a later step fails.
\<close>

definition upsert_colon_record :: "env \<Rightarrow> string \<Rightarrow> string \<Rightarrow> string \<Rightarrow> bool io" where
  "upsert_colon_record env path name record =
     (if name = [] \<or> CHR '':'' \<in> set name then ret False
      else with_some (fits PATH_MAX (path @ ''.adava-new'')) (\<lambda>tmp_path.
        and_then (succeeds env (WriteFile tmp_path [])) (do {
          inp \<leftarrow> open_file env path;
          st \<leftarrow> stat env path;
          ok \<leftarrow> (if inp = None \<and> st \<noteq> Inl ENOENT then ret False
                else and_then (succeeds env (Fill tmp_path (upsert_content inp name record)))
                       (succeeds env (Rename tmp_path path)));
          if ok then ret True
          else do { _ \<leftarrow> effect env (Unlink tmp_path); ret False }
        })))"

definition upsert_or_log :: "env \<Rightarrow> string \<Rightarrow> string \<Rightarrow> string \<Rightarrow> string \<Rightarrow> bool io" where
  "upsert_or_log env what path name record = do {
     ok \<leftarrow> upsert_colon_record env path name (trunc 1024 record);
     if ok then ret True
     else do { _ \<leftarrow> emit_log_errno env (''Failed to update '' @ what); ret False }
   }"

definition securetty_text :: string where
  "securetty_text = concat (map (\<lambda>t. t @ [LF])
     [''console'', ''tty1'', ''tty2'', ''tty3'', ''tty4'', ''tty5'', ''tty6'', ''ttyS0''])"

definition write_home :: "env \<Rightarrow> InstallerConfig \<Rightarrow> bool io" where
  "write_home env cfg =
     (let path = trunc 256 (ROOT_MNT @ ''/home/'' @ c_username cfg) in
      and_then (run_checked env [''mkdir'', ''-p'', ROOT_MNT @ ''/root'', path])
      (and_then (run_checked env [''chown'', ''1000:1000'', path])
      (and_then (run_checked env [''chmod'', ''700'', path])
        (run_checked env [''chmod'', ''700'', ROOT_MNT @ ''/root'']))))"

definition write_records :: "env \<Rightarrow> InstallerConfig \<Rightarrow> string \<Rightarrow> string \<Rightarrow> nat \<Rightarrow> bool io" where
  "write_records env cfg user_hash root_hash day =
     (let user = c_username cfg;
          shadow_tail = '':'' @ dec day @ '':0:99999:7:::'' @ [LF] in
      and_then (upsert_or_log env ''root passwd entry'' (ROOT_MNT @ ''/etc/passwd'') ''root''
        (''root:x:0:0:root:/root:/bin/sh'' @ [LF]))
      (and_then (upsert_or_log env ''user passwd entry'' (ROOT_MNT @ ''/etc/passwd'') user
        (user @ '':x:1000:1000:'' @ user @ '':/home/'' @ user @ '':/bin/sh'' @ [LF]))
      (and_then (upsert_or_log env ''root shadow entry'' (ROOT_MNT @ ''/etc/shadow'') ''root''
        (''root:'' @ root_hash @ shadow_tail))
      (and_then (upsert_or_log env ''user shadow entry'' (ROOT_MNT @ ''/etc/shadow'') user
        (user @ '':'' @ user_hash @ shadow_tail))
      (and_then (upsert_or_log env ''root group entry'' (ROOT_MNT @ ''/etc/group'') ''root''
        (''root:x:0:'' @ [LF]))
        (upsert_or_log env ''user group entry'' (ROOT_MNT @ ''/etc/group'') user
          (user @ '':x:1000:'' @ [LF])))))))"

definition write_host_files :: "env \<Rightarrow> InstallerConfig \<Rightarrow> bool io" where
  "write_host_files env cfg = do {
     ok \<leftarrow> installer_write_file env (ROOT_MNT @ ''/etc/securetty'') securetty_text;
     if \<not> ok then do { _ \<leftarrow> emit_log_errno env ''Failed to write /etc/securetty''; ret False }
     else
       and_then (installer_write_file env (ROOT_MNT @ ''/etc/hostname'') (trunc 1024 (c_hostname cfg @ [LF])))
         (installer_write_file env (ROOT_MNT @ ''/etc/hosts'')
           (trunc 1024 (''127.0.0.1 localhost'' @ [LF] @ ''127.0.1.1 '' @ c_hostname cfg @ [LF])))
   }"

definition write_user_files :: "env \<Rightarrow> InstallerConfig \<Rightarrow> bool io" where
  "write_user_files env cfg = do {
     now \<leftarrow> time_now env;
     user_hash \<leftarrow> hash_password env (c_password cfg) 256;
     root_hash \<leftarrow> (if user_hash = None then ret None else hash_password env (c_root_password cfg) 256);
     (case (user_hash, root_hash) of
        (Some u, Some r) \<Rightarrow>
          and_then (write_home env cfg)
          (and_then (write_records env cfg u r (now div 86400))
          (and_then (write_host_files env cfg) (do {
             _ \<leftarrow> installer_run_command env [''chmod'', ''644'', ROOT_MNT @ ''/etc/passwd'', ROOT_MNT @ ''/etc/group''];
             _ \<leftarrow> installer_run_command env [''chmod'', ''600'', ROOT_MNT @ ''/etc/shadow''];
             _ \<leftarrow> installer_run_command env [''chmod'', ''644'', ROOT_MNT @ ''/etc/securetty''];
             _ \<leftarrow> emit_log ''Root and user credentials written after RPM transactions'';
             ret True
           })))
      | _ \<Rightarrow> fail_with ''Cannot hash passwords; need mkpasswd or openssl'')
   }"

definition find_kernel :: "env \<Rightarrow> nat \<Rightarrow> string option io" where
  "find_kernel env kernel_name_size = do {
     named \<leftarrow> (case e_getenv env ''K_VERSION'' of
        None \<Rightarrow> ret None
      | Some k \<Rightarrow>
          if k = [] then ret None
          else first_io (\<lambda>name. do {
            found \<leftarrow> access env (trunc 256 (INSTALL_MNT @ ''/boot/'' @ name)) F_OK;
            ret (if found then Some (trunc kernel_name_size name) else None)
          }) [''vmlinuz-'' @ k, ''vmlinuz-'' @ k @ ''.gz'']);
     (case named of Some _ \<Rightarrow> ret named
      | None \<Rightarrow>
          bind_some (find_first_glob env (INSTALL_MNT @ ''/boot/vmlinuz-*'') 256) (\<lambda>found.
            ret (Some (trunc kernel_name_size (take 120
              (case strrchr found (CHR ''/'') of Some i \<Rightarrow> drop (Suc i) found | None \<Rightarrow> found))))))
   }"

section \<open>The installation\<close>

text \<open>Commands whose result is ignored, and unmounting in order.\<close>

definition run_ignored :: "env \<Rightarrow> string list \<Rightarrow> unit io" where
  "run_ignored env argv = do { _ \<leftarrow> installer_run_command env argv; ret () }"

definition umount_all :: "env \<Rightarrow> string list \<Rightarrow> unit io" where
  "umount_all env = each_io (installer_safe_umount env)"

definition target_part :: "InstallerConfig \<Rightarrow> string option" where
  "target_part cfg =
     installer_partition_path (Some (c_disk cfg)) (if c_boot_mode cfg = INSTALLER_BOOT_UEFI then 2 else 1) 64"

definition efi_part :: "InstallerConfig \<Rightarrow> string option" where
  "efi_part cfg =
     (if c_boot_mode cfg = INSTALLER_BOOT_UEFI then installer_partition_path (Some (c_disk cfg)) 1 64
      else Some [])"

definition prepare_devices :: "env \<Rightarrow> InstallerConfig \<Rightarrow> bool io" where
  "prepare_devices env cfg = do {
     _ \<leftarrow> step 2 ''Preparing devices'';
     _ \<leftarrow> run_ignored env [''mount'', ''-t'', ''devtmpfs'', ''devtmpfs'', ''/dev''];
     _ \<leftarrow> run_ignored env [''mdev'', ''-s''];
     _ \<leftarrow> umount_all env [ROOT_MNT @ ''/boot/efi'', ROOT_MNT @ ''/sys'', ROOT_MNT @ ''/proc'',
            ROOT_MNT @ ''/dev'', ROOT_MNT, INSTALL_MNT];
     blk \<leftarrow> installer_is_block_device env (c_disk cfg);
     if blk \<and> installer_supported_disk (Some (c_disk cfg)) then ret True
     else fail_with (''Target disk is not supported: '' @ c_disk cfg)
   }"

definition mount_media :: "env \<Rightarrow> InstallerConfig \<Rightarrow> string option io" where
  "mount_media env cfg = do {
     _ \<leftarrow> step 10 ''Mounting installer media'';
     ok \<leftarrow> run_checked env [''mkdir'', ''-p'', INSTALL_MNT, ROOT_MNT];
     if ok then detect_media env cfg 64 else ret None
   }"

text \<open>The three refusals: the media, its disk and the disk of the running system.\<close>

definition erase_allowed :: "env \<Rightarrow> InstallerConfig \<Rightarrow> string \<Rightarrow> bool io" where
  "erase_allowed env cfg media_dev =
     (if media_dev = c_disk cfg then fail_with (''Refusing to erase installer media: '' @ c_disk cfg)
      else if parent_disk (Some media_dev) 64 = Some (c_disk cfg)
        then fail_with ''Refusing to erase the physical disk that contains installer media''
      else do {
        root_src \<leftarrow> mount_dev_at env ''/'' 128;
        if (case root_src of None \<Rightarrow> False
            | Some src \<Rightarrow> prefix ''/dev/'' src \<and> parent_disk (Some src) 128 = Some (c_disk cfg))
        then fail_with (''Refusing to erase current root disk: '' @ c_disk cfg)
        else ret True
      })"

definition update_system :: "env \<Rightarrow> string \<Rightarrow> bool io" where
  "update_system env part = do {
     _ \<leftarrow> step 24 ''Mounting target'';
     and_then (wait_for_partitions env part [])
     (and_then (run_checked env [''mount'', ''-t'', ''ext4'', part, ROOT_MNT]) (do {
        _ \<leftarrow> step 50 ''Updating installed system'';
        ok \<leftarrow> run_checked env [''syspckg'', ''update'', ''--all'', ''--root'', ROOT_MNT, ''--allow-root'', ''-y''];
        if \<not> ok then do { _ \<leftarrow> installer_safe_umount env ROOT_MNT; ret False }
        else do {
          kept \<leftarrow> run_built env (installer_build_grub_compat_config_command (Some ROOT_MNT) 1024);
          if \<not> kept then fail_with ''Failed to preserve final GRUB config after grub2-install''
          else do {
            _ \<leftarrow> emit_log ''Final GRUB config synchronized for grub2 and grub prefixes'';
            _ \<leftarrow> step 98 ''Syncing and unmounting'';
            _ \<leftarrow> run_ignored env [''sync''];
            _ \<leftarrow> umount_all env [ROOT_MNT, INSTALL_MNT];
            _ \<leftarrow> step 100 ''Done'';
            _ \<leftarrow> emit_log (''Done. Updated installed system on '' @ part @ ''.'');
            ret True
          }
        }
      }))
   }"

definition grub_packages :: "InstallerConfig \<Rightarrow> string list" where
  "grub_packages cfg =
     (if c_boot_mode cfg = INSTALLER_BOOT_UEFI then [''grub2-efi-x64'', ''grub2-efi-x64-modules'']
      else [''grub2-pc''])"

definition install_tools :: "env \<Rightarrow> InstallerConfig \<Rightarrow> bool io" where
  "install_tools env cfg =
     and_then
       (if c_action cfg = INSTALLER_ACTION_INSTALL then do {
          _ \<leftarrow> step 18 ''Installing GRUB package'';
          all_io (\<lambda>pkg. install_grub_pkg env pkg None) (grub_packages cfg)
        } else ret True)
       (do {
          _ \<leftarrow> step 23 ''Installing e2fsprogs package'';
          install_grub_pkg env ''e2fsprogs'' None
        })"

text \<open>The script, and the pipe to \<^verbatim>\<open>fdisk\<close> in what is left of the buffer.\<close>

definition fdisk_command :: "InstallerConfig \<Rightarrow> string option" where
  "fdisk_command cfg =
     map_option (\<lambda>script. append_at 1024 script ('' | fdisk '' @ quoted (c_disk cfg)))
       (installer_build_fdisk_script (c_boot_mode cfg) (Some (c_part_size cfg)) (Some (c_disk cfg)) 1024)"

definition partition_disk :: "env \<Rightarrow> InstallerConfig \<Rightarrow> string \<Rightarrow> string \<Rightarrow> bool io" where
  "partition_disk env cfg part efi = do {
     _ \<leftarrow> step 28 ''Partitioning disk'';
     (case fdisk_command cfg of
        None \<Rightarrow> fail_with ''Failed to build fdisk command''
      | Some cmd \<Rightarrow>
          and_then (shell_checked env cmd) (do {
            _ \<leftarrow> run_ignored env [''sync''];
            _ \<leftarrow> run_ignored env [''blockdev'', ''--rereadpt'', c_disk cfg];
            _ \<leftarrow> run_ignored env [''partprobe'', c_disk cfg];
            _ \<leftarrow> run_ignored env [''mdev'', ''-s''];
            and_then (wait_for_partitions env part efi) (do {
              _ \<leftarrow> run_ignored env [''fdisk'', ''-l'', c_disk cfg];
              ret True
            })
          }))
   }"

definition format_partitions :: "env \<Rightarrow> InstallerConfig \<Rightarrow> string \<Rightarrow> string \<Rightarrow> bool io" where
  "format_partitions env cfg part efi = do {
     _ \<leftarrow> step 38 ''Formatting partitions'';
     and_then
       (if c_boot_mode cfg = INSTALLER_BOOT_UEFI
        then run_checked env [''mkfs.vfat'', ''-F'', ''32'', efi] else ret True)
       (do {
          rc \<leftarrow> installer_run_command env [''mkfs.ext4'', ''-F'', ''-E'', ''nodiscard'', part];
          and_then (if rc = 0 then ret True else run_checked env [''mkfs.ext4'', ''-F'', part]) (do {
            fsck \<leftarrow> installer_command_exists env ''fsck.ext4'';
            _ \<leftarrow> (if fsck then run_ignored env [''fsck.ext4'', ''-f'', ''-y'', part] else ret ());
            ret True
          })
        })
   }"

definition finish_format :: "env \<Rightarrow> bool io" where
  "finish_format env = do {
     _ \<leftarrow> step 98 ''Syncing'';
     _ \<leftarrow> run_ignored env [''sync''];
     _ \<leftarrow> installer_safe_umount env INSTALL_MNT;
     _ \<leftarrow> step 100 ''Done'';
     _ \<leftarrow> emit_log ''Done. Disk was partitioned and formatted.'';
     ret True
   }"

definition copy_memtest :: "env \<Rightarrow> string \<Rightarrow> string \<Rightarrow> bool io" where
  "copy_memtest env file label = do {
     present \<leftarrow> access env (INSTALL_MNT @ ''/boot/'' @ file) F_OK;
     if \<not> present then ret True
     else
       and_then (run_checked env [''cp'', INSTALL_MNT @ ''/boot/'' @ file, ROOT_MNT @ ''/boot/'' @ file])
         (do { _ \<leftarrow> emit_log (''Installed Memtest86+ '' @ label @ '' image''); ret True })
   }"

definition extract_root :: "env \<Rightarrow> string \<Rightarrow> bool io" where
  "extract_root env part = do {
     _ \<leftarrow> step 48 ''Mounting target'';
     and_then (run_checked env [''mount'', ''-t'', ''ext4'', part, ROOT_MNT]) (do {
       _ \<leftarrow> step 58 ''Extracting root filesystem'';
       and_then (shell_checked env
         (''rm -rf '' @ ROOT_MNT @ ''/* '' @ ROOT_MNT @ ''/.[!.]* '' @ ROOT_MNT @ ''/..?*''))
       (and_then (shell_checked env
         (''cd '' @ ROOT_MNT @ '' && gzip -dc '' @ INSTALL_MNT @ ''/boot/initramfs-installer.gz | cpio -idmv''))
       (and_then (run_built env (installer_build_syspckg_state_cleanup_command (Some ROOT_MNT) 1024)) (do {
          busybox \<leftarrow> access env (ROOT_MNT @ ''/bin/busybox'') X_OK;
          _ \<leftarrow> (if busybox
               then run_ignored env [ROOT_MNT @ ''/bin/busybox'', ''--install'', ''-s'', ROOT_MNT @ ''/bin'']
               else ret ());
          and_then (run_built env (installer_build_shutdown_links_command (Some ROOT_MNT) 1024))
          (and_then (run_checked env [''mkdir'', ''-p'', ROOT_MNT @ ''/boot''])
          (and_then (run_checked env
            [''cp'', INSTALL_MNT @ ''/boot/initramfs-disk.gz'', ROOT_MNT @ ''/boot/initramfs-disk.gz''])
          (and_then (copy_memtest env ''memtest86+.bin'' ''BIOS'')
            (copy_memtest env ''memtest86+x64.efi'' ''UEFI''))))
        })))
     })
   }"

definition install_target_packages :: "env \<Rightarrow> InstallerConfig \<Rightarrow> bool io" where
  "install_target_packages env cfg = do {
     _ \<leftarrow> step 72 ''Installing target GRUB package'';
     and_then (sync_target_resolver env)
     (and_then (all_io (\<lambda>pkg. install_grub_pkg env pkg (Some ROOT_MNT)) (grub_packages cfg)) (do {
        ok \<leftarrow> run_built env (installer_build_copy_grub_mkconfig_command (Some ROOT_MNT) 1024);
        if \<not> ok then fail_with ''Missing grub2-mkconfig in target root''
        else run_built env (installer_build_syspckg_state_cleanup_command (Some ROOT_MNT) 1024)
      }))
   }"

definition create_accounts :: "env \<Rightarrow> InstallerConfig \<Rightarrow> bool io" where
  "create_accounts env cfg = do {
     _ \<leftarrow> step 74 ''Creating user accounts'';
     write_user_files env cfg
   }"

definition copy_kernel :: "env \<Rightarrow> bool io" where
  "copy_kernel env = do {
     _ \<leftarrow> step 76 ''Copying kernel'';
     found \<leftarrow> find_kernel env 128;
     (case found of
        None \<Rightarrow> fail_with ''Kernel not found on installer media''
      | Some k \<Rightarrow>
          shell_checked env (trunc 1024
            (''cp '' @ quoted (INSTALL_MNT @ ''/boot/'' @ k) @ '' '' @ quoted (ROOT_MNT @ ''/boot/'' @ k) @
             '' && ln -sf '' @ quoted k @ '' '' @ quoted (ROOT_MNT @ ''/boot/vmlinuz''))))
   }"

definition write_default_grub_file :: "env \<Rightarrow> InstallerConfig \<Rightarrow> string \<Rightarrow> bool io" where
  "write_default_grub_file env cfg root_arg = do {
     ok \<leftarrow> with_some (installer_build_default_grub_config (Some root_arg) (c_acpi_mode cfg) 1024) (\<lambda>text.
       and_then (shell_checked env (''mkdir -p '' @ ROOT_MNT @ ''/etc/default''))
         (installer_write_file env (ROOT_MNT @ ''/etc/default/grub'') text));
     if ok then ret True
     else do { _ \<leftarrow> emit_log_errno env ''Failed to write /etc/default/grub''; ret False }
   }"

definition generate_grub_config :: "env \<Rightarrow> bool io" where
  "generate_grub_config env = do {
     ok \<leftarrow> and_then (run_built env (installer_build_disable_standard_grub_generators_command (Some ROOT_MNT) 1024))
          (and_then (run_built env (installer_build_prepare_grub_chroot_command (Some ROOT_MNT) 1024))
            (run_built env (installer_build_grub_mkconfig_command (Some ROOT_MNT) 1024)));
     if \<not> ok then do {
       _ \<leftarrow> emit_log ''Failed to run grub2-mkconfig'';
       _ \<leftarrow> umount_all env [ROOT_MNT @ ''/sys'', ROOT_MNT @ ''/proc'', ROOT_MNT @ ''/dev''];
       ret False
     }
     else do {
       compat \<leftarrow> run_built env (installer_build_grub_compat_config_command (Some ROOT_MNT) 1024);
       if \<not> compat then fail_with ''Failed to create GRUB compatibility config''
       else do {
         entry \<leftarrow> shell_checked env
           (''grep -q '' @ quoted ''^menuentry '' @ '' '' @ ROOT_MNT @ ''/boot/grub2/grub.cfg'');
         if \<not> entry then fail_with ''Generated GRUB config contains no AdavaLinux menuentry''
         else do {
           _ \<leftarrow> emit_log ''GRUB config ready in /boot/grub2/grub.cfg and /boot/grub/grub.cfg'';
           ret True
         }
       }
     }
   }"

definition write_boot_config :: "env \<Rightarrow> InstallerConfig \<Rightarrow> string \<Rightarrow> bool io" where
  "write_boot_config env cfg part = do {
     _ \<leftarrow> step 84 ''Writing bootloader config'';
     and_then (run_checked env [''mkdir'', ''-p'', ROOT_MNT @ ''/boot/grub2''])
       (case installer_build_root_arg (Some part) 192 of
          None \<Rightarrow> fail_with (''Failed to build root kernel argument for '' @ part)
        | Some root_arg \<Rightarrow> do {
            _ \<leftarrow> emit_log (''Using root kernel argument: '' @ root_arg);
            and_then (write_default_grub_file env cfg root_arg) (generate_grub_config env)
          })
   }"

definition install_bootloader_efi :: "env \<Rightarrow> string \<Rightarrow> bool io" where
  "install_bootloader_efi env efi =
     and_then (run_checked env [''mkdir'', ''-p'', ROOT_MNT @ ''/boot/efi''])
     (and_then (run_checked env [''mount'', ''-t'', ''vfat'', efi, ROOT_MNT @ ''/boot/efi'']) (do {
        dir \<leftarrow> resolve_grub_platform_dir env ''x86_64-efi'' PATH_MAX;
        with_some dir (\<lambda>grub_dir.
          and_then (run_checked env
            [''grub2-install'', trunc (PATH_MAX + 16) (''--directory='' @ grub_dir), ''--target=x86_64-efi'',
             ''--efi-directory='' @ ROOT_MNT @ ''/boot/efi'', ''--bootloader-id=AdavaLinux'', ''--removable'',
             ''--boot-directory='' @ ROOT_MNT @ ''/boot'']) (do {
            ok \<leftarrow> run_built env (installer_build_uefi_removable_fallback_command (Some ROOT_MNT) 1024);
            if ok then ret True
            else fail_with ''Failed to create UEFI removable fallback: EFI/BOOT/BOOTX64.EFI''
          }))
      }))"

definition install_bootloader_bios :: "env \<Rightarrow> InstallerConfig \<Rightarrow> bool io" where
  "install_bootloader_bios env cfg = do {
     dir \<leftarrow> resolve_grub_platform_dir env ''i386-pc'' PATH_MAX;
     with_some dir (\<lambda>grub_dir.
       and_then (run_checked env
         [''grub2-install'', trunc (PATH_MAX + 16) (''--directory='' @ grub_dir), ''--target=i386-pc'',
          ''--boot-directory='' @ ROOT_MNT @ ''/boot'', ''--force'', ''--recheck'', ''--no-floppy'',
          ''--compress=no'', ''--core-compress=none'', ''--no-rs-codes'', ''--disk-module=biosdisk'',
          ''--modules=biosdisk part_msdos ext2'', c_disk cfg]) (do {
         core \<leftarrow> or_else (access env (ROOT_MNT @ ''/boot/grub2/i386-pc/core.img'') F_OK)
                  (access env (ROOT_MNT @ ''/boot/grub/i386-pc/core.img'') F_OK);
         _ \<leftarrow> emit_log (if core then ''BIOS GRUB2 installation verified''
              else ''WARN: grub2-install returned success; no standalone core.img copy was found, continuing'');
         ret True
       }))
   }"

definition install_bootloader :: "env \<Rightarrow> InstallerConfig \<Rightarrow> string \<Rightarrow> bool io" where
  "install_bootloader env cfg efi = do {
     _ \<leftarrow> step 94 ''Installing bootloader'';
     if c_boot_mode cfg = INSTALLER_BOOT_UEFI then install_bootloader_efi env efi
     else install_bootloader_bios env cfg
   }"

definition finish_installation :: "env \<Rightarrow> bool io" where
  "finish_installation env = do {
     _ \<leftarrow> step 98 ''Syncing and unmounting'';
     log \<leftarrow> access env INSTALLER_LOG_PATH F_OK;
     _ \<leftarrow> (if log
          then do {
            _ \<leftarrow> shell_checked env (''mkdir -p '' @ ROOT_MNT @ ''/var/log && cp '' @ INSTALLER_LOG_PATH @ '' '' @
                   ROOT_MNT @ ''/var/log/adavalinux-installer.log'');
            ret ()
          } else ret ());
     _ \<leftarrow> run_ignored env [''sync''];
     _ \<leftarrow> umount_all env [ROOT_MNT @ ''/boot/efi'', ROOT_MNT @ ''/sys'', ROOT_MNT @ ''/proc'',
            ROOT_MNT @ ''/dev'', ROOT_MNT, INSTALL_MNT];
     _ \<leftarrow> step 100 ''Done'';
     _ \<leftarrow> emit_log ''Done. Detach ISO and reboot.'';
     ret True
   }"

definition install_system :: "env \<Rightarrow> InstallerConfig \<Rightarrow> string \<Rightarrow> string \<Rightarrow> bool io" where
  "install_system env cfg part efi =
     and_then (extract_root env part)
     (and_then (install_target_packages env cfg)
     (and_then (create_accounts env cfg)
     (and_then (copy_kernel env)
     (and_then (write_boot_config env cfg part)
     (and_then (install_bootloader env cfg efi) (finish_installation env))))))"

definition erase_and_install :: "env \<Rightarrow> InstallerConfig \<Rightarrow> string \<Rightarrow> string \<Rightarrow> bool io" where
  "erase_and_install env cfg part efi =
     and_then (install_tools env cfg)
     (and_then (partition_disk env cfg part efi)
     (and_then (format_partitions env cfg part efi)
       (if c_action cfg = INSTALLER_ACTION_FORMAT_ONLY then finish_format env
        else install_system env cfg part efi)))"

definition installer_run_install :: "env \<Rightarrow> InstallerConfig \<Rightarrow> bool io" where
  "installer_run_install env cfg =
     (if c_disk cfg = [] then ret False
      else case (target_part cfg, efi_part cfg) of
        (Some part, Some efi) \<Rightarrow>
          and_then (prepare_devices env cfg) (do {
            media \<leftarrow> mount_media env cfg;
            with_some media (\<lambda>media_dev.
              and_then (erase_allowed env cfg media_dev)
                (if c_action cfg = INSTALLER_ACTION_UPDATE then update_system env part
                 else erase_and_install env cfg part efi))
          })
      | _ \<Rightarrow> ret False)"

section \<open>Lemmas: what the parts emit\<close>

text \<open>The steps any part may take: writing to the log and asking the system.\<close>

definition quiet :: "(event \<Rightarrow> bool) \<Rightarrow> bool" where
  "quiet P \<longleftrightarrow> (\<forall>l. P (Log l))"

named_theorems quiet_intros "rules for parts that log"

lemma emits_log_line: "quiet P \<Longrightarrow> emits P (log_line text)"
  and emits_log_command: "quiet P \<Longrightarrow> emits P (log_command argv)"
  and emits_emit_log [quiet_intros]: "quiet P \<Longrightarrow> emits P (emit_log text)"
  by (simp_all add: log_line_def log_command_def emit_log_def emits_emit quiet_def)

lemma emits_emit_log_errno [quiet_intros]: "quiet P \<Longrightarrow> emits P (emit_log_errno env text)"
  and emits_fail_with [quiet_intros]: "quiet P \<Longrightarrow> emits P (fail_with text)"
  unfolding emit_log_errno_def fail_with_def by (intro emits_intros quiet_intros; assumption)+

lemma emits_emit_output: "quiet P \<Longrightarrow> emits P (emit_output out)"
  unfolding emit_output_def emit_process_line_def Let_def
  by (intro emits_intros emits_log_line; assumption)

lemma emits_case_exec_result:
  "(\<And>m. emits P (f m)) \<Longrightarrow> (\<And>m. emits P (g m)) \<Longrightarrow> (\<And>m. emits P (k m)) \<Longrightarrow> (\<And>m st. emits P (l m st)) \<Longrightarrow>
    emits P (case r of PipeFailed m \<Rightarrow> f m | ForkFailed m \<Rightarrow> g m | WaitFailed m \<Rightarrow> k m | Ran m st \<Rightarrow> l m st)"
  by (cases r) simp_all

lemma emits_installer_run_command [quiet_intros]:
  assumes "quiet P" and "argv \<noteq> [] \<Longrightarrow> P (Run argv)"
  shows "emits P (installer_run_command env argv)"
  unfolding installer_run_command_def Let_def
  by (intro emits_intros emits_case_exec_result emits_log_command emits_log_line emits_emit_output assms)

lemma emits_run_family [quiet_intros]:
  "quiet P \<Longrightarrow> P (Run [''sh'', ''-c'', cmd]) \<Longrightarrow> emits P (installer_run_shell env cmd)"
  "quiet P \<Longrightarrow> (argv \<noteq> [] \<Longrightarrow> P (Run argv)) \<Longrightarrow> emits P (run_checked env argv)"
  "quiet P \<Longrightarrow> P (Run [''sh'', ''-c'', cmd]) \<Longrightarrow> emits P (shell_checked env cmd)"
  "quiet P \<Longrightarrow> (argv \<noteq> [] \<Longrightarrow> P (Run argv)) \<Longrightarrow> emits P (run_ignored env argv)"
  unfolding installer_run_shell_def run_checked_def shell_checked_def run_ignored_def checked_def
  by (intro emits_intros quiet_intros; simp)+

lemma emits_run_built [quiet_intros]:
  "quiet P \<Longrightarrow> (\<And>c. cmd = Some c \<Longrightarrow> P (Run [''sh'', ''-c'', c])) \<Longrightarrow> emits P (run_built env cmd)"
  unfolding run_built_def by (intro emits_intros quiet_intros)

lemma emits_installer_safe_umount [quiet_intros]:
  "quiet P \<Longrightarrow> P (Run [''umount'', m]) \<Longrightarrow> emits P (installer_safe_umount env m)"
  unfolding installer_safe_umount_def by (intro emits_intros quiet_intros)

lemma emits_umount_all [quiet_intros]:
  "quiet P \<Longrightarrow> (\<And>m. P (Run [''umount'', m])) \<Longrightarrow> emits P (umount_all env ms)"
  unfolding umount_all_def by (intro emits_intros quiet_intros)

lemma emits_any_io [emits_intros]: "(\<And>x. emits P (f x)) \<Longrightarrow> emits P (any_io f xs)"
  and emits_first_io [emits_intros]: "(\<And>x. emits P (g x)) \<Longrightarrow> emits P (first_io g ys)"
  by (induction xs; auto intro!: emits_intros) (induction ys; auto intro!: emits_intros)

lemma emits_device_queries [emits_intros]:
  "emits P (installer_is_block_device env path)" "emits P (installer_command_exists env name)"
  "emits P (mount_dev_at env m n)" "emits P (media_partition env disk sys_path name)"
  unfolding installer_is_block_device_def installer_command_exists_def mount_dev_at_def
    media_partition_def Let_def
  by (intro emits_intros)+

lemma emits_scan_install_media [emits_intros]: "emits P (installer_scan_install_media env n)"
proof -
  have "after (installer_scan_install_media env n) h = h" for h
    using scan_entries_sound [of "[]" n env h installer_supported_install_media]
    by (simp add: installer_scan_install_media_def scan_block_devices_def split: option.split)
  then show ?thesis by (simp add: emits_def)
qed

lemma emits_step: "P (Progress p l) \<Longrightarrow> emits P (step p l)"
  unfolding step_def by (rule emits_emit)

text \<open>Programs by their name: what a part runs is described by the first word of the command.\<close>

definition may_run :: "string list \<Rightarrow> (event \<Rightarrow> bool) \<Rightarrow> bool" where
  "may_run progs P \<longleftrightarrow> (\<forall>prog args. prog \<in> set progs \<longrightarrow> P (Run (prog # args)))"

lemma may_runD: "may_run progs P \<Longrightarrow> prog \<in> set progs \<Longrightarrow> P (Run (prog # args))"
  by (simp add: may_run_def)

lemma emits_detect_media [quiet_intros]:
  assumes "quiet P" and "may_run [''mount'', ''umount''] P"
  shows "emits P (detect_media env cfg n)"
proof -
  have run: "P (Run (''mount'' # args))" "P (Run (''umount'' # args))" for args
    using assms(2) by (auto intro: may_runD)
  have mounted: "emits P (mounted_media env dev ok)" for dev ok
    unfolding mounted_media_def by (intro emits_intros quiet_intros assms run)
  have whole: "emits P (try_mount_install_media env dev n)" for dev
    unfolding try_mount_install_media_def by (intro emits_intros quiet_intros assms run)
  have part: "emits P (mount_selected_disk_partition env disk n)" for disk
    unfolding mount_selected_disk_partition_def by (intro emits_intros whole)
  have scanned: "emits P (scanned_media env n)"
    unfolding scanned_media_def mount_ro_def by (intro emits_intros quiet_intros mounted assms run)
  have named: "emits P (named_media env m n)" for m
    unfolding named_media_def mount_ro_def by (intro emits_intros quiet_intros mounted assms run)
  have selected: "emits P (selected_media env m n)" for m
    unfolding selected_media_def by (intro emits_intros quiet_intros part whole assms)
  show ?thesis
    unfolding detect_media_def by (intro emits_intros quiet_intros scanned named selected assms run)
qed

lemma emits_prepare_devices:
  assumes "quiet P" and "may_run [''mount'', ''umount'', ''mdev''] P" and "P (Progress 2 ''Preparing devices'')"
  shows "emits P (prepare_devices env cfg)"
  unfolding prepare_devices_def
  by (intro emits_intros quiet_intros emits_step assms) (auto intro: may_runD [OF assms(2)])

lemma emits_mount_media:
  assumes "quiet P" and "may_run [''mount'', ''umount'', ''mkdir''] P"
    and "P (Progress 10 ''Mounting installer media'')"
  shows "emits P (mount_media env cfg)"
proof -
  have "may_run [''mount'', ''umount''] P" using assms(2) by (simp add: may_run_def)
  then show ?thesis
    unfolding mount_media_def
    by (intro emits_intros quiet_intros emits_step assms) (auto intro: may_runD [OF assms(2)])
qed

lemma emits_erase_allowed: "quiet P \<Longrightarrow> emits P (erase_allowed env cfg media_dev)"
  unfolding erase_allowed_def by (intro emits_intros quiet_intros)

subsection \<open>Erasing\<close>

text \<open>The commands that destroy what is on a disk: \<^verbatim>\<open>fdisk\<close> with a script, and \<^verbatim>\<open>mkfs\<close>.\<close>

fun erases :: "event \<Rightarrow> bool" where
  "erases (Run argv) \<longleftrightarrow> argv \<noteq> [] \<and>
     (hd argv \<in> {''mkfs.vfat'', ''mkfs.ext4''}
      \<or> (\<exists>cmd. argv = [''sh'', ''-c'', cmd] \<and> sublist ''| fdisk '' cmd))"
| "erases _ \<longleftrightarrow> False"

definition keeps_data :: "event \<Rightarrow> bool" where
  "keeps_data e \<longleftrightarrow> \<not> erases e"

lemma keeps_data_simps [simp]:
  "quiet keeps_data" "keeps_data (Progress p l)" "keeps_data (Usleep n)"
  "prog \<notin> {''mkfs.vfat'', ''mkfs.ext4'', ''sh''} \<Longrightarrow> keeps_data (Run (prog # args))"
  "keeps_data (Run [''sh'', ''-c'', cmd]) \<longleftrightarrow> \<not> sublist ''| fdisk '' cmd"
  by (simp_all add: quiet_def keeps_data_def)

lemma may_run_keeps_data: "set progs \<inter> {''mkfs.vfat'', ''mkfs.ext4'', ''sh''} = {} \<Longrightarrow> may_run progs keeps_data"
  by (auto simp: may_run_def keeps_data_def)

definition safe_target :: "env \<Rightarrow> history \<Rightarrow> InstallerConfig \<Rightarrow> string \<Rightarrow> bool" where
  "safe_target env h cfg media_dev \<longleftrightarrow>
     installer_supported_disk (Some (c_disk cfg))
     \<and> media_dev \<noteq> c_disk cfg \<and> parent_disk (Some media_dev) 64 \<noteq> Some (c_disk cfg)
     \<and> (case result (mount_dev_at env ''/'' 128) h of None \<Rightarrow> True
        | Some src \<Rightarrow> \<not> prefix ''/dev/'' src \<or> parent_disk (Some src) 128 \<noteq> Some (c_disk cfg))"

lemma erase_allowed_safe:
  assumes "result (erase_allowed env cfg media_dev) h" and "installer_supported_disk (Some (c_disk cfg))"
  shows "safe_target env h cfg media_dev"
  using assms
  by (auto simp: erase_allowed_def safe_target_def fail_with_def mount_dev_at_def
      split: if_splits option.splits)

lemma prepare_devices_supported:
  "result (prepare_devices env cfg) h \<Longrightarrow> installer_supported_disk (Some (c_disk cfg))"
  by (simp add: prepare_devices_def fail_with_def split: if_splits)

lemma emits_prefix:
  assumes "emits P m" and "emits P k" shows "\<exists>t. after k (after m h) = h @ t \<and> list_all P t"
proof -
  obtain t where t: "after m h = h @ t" "list_all P t" using emits_after [OF assms(1)] by blast
  obtain u where "after k (after m h) = after m h @ u" "list_all P u"
    using emits_after [OF assms(2)] by blast
  with t show ?thesis by (intro exI [of _ "t @ u"]) simp
qed

lemma emits_before_erasing:
  "emits keeps_data (prepare_devices env cfg)" "emits keeps_data (mount_media env cfg)"
  "emits keeps_data (erase_allowed env cfg media_dev)"
  by (intro emits_prepare_devices emits_mount_media emits_erase_allowed may_run_keeps_data; simp)+

text \<open>The steps that the parts between two progress reports take.\<close>

definition work :: "(event \<Rightarrow> bool) \<Rightarrow> bool" where
  "work P \<longleftrightarrow> quiet P \<and> (\<forall>argv. P (Run argv)) \<and> (\<forall>n. P (Usleep n)) \<and> (\<forall>p c. P (WriteFile p c))
     \<and> (\<forall>p c. P (Fill p c)) \<and> (\<forall>p q. P (Rename p q)) \<and> (\<forall>p. P (Unlink p))"

lemma workD:
  assumes "work P"
  shows "quiet P" "P (Run argv)" "P (Usleep n)" "P (WriteFile p c)" "P (Fill p c)" "P (Rename p q)"
    "P (Unlink p)"
  using assms by (simp_all add: work_def)

named_theorems work_intros "rules for the parts between two progress reports"

lemma emits_installer_write_file: "P (WriteFile p c) \<Longrightarrow> emits P (installer_write_file env p c)"
  unfolding installer_write_file_def by (rule emits_succeeds)

lemma emits_captured_by: "P (Run argv) \<Longrightarrow> emits P (captured_by env argv n)"
  unfolding captured_by_def capture_command_def by (intro emits_intros)

lemma emits_hash_password:
  assumes "work P" shows "emits P (hash_password env pw n)"
  unfolding hash_password_def by (intro emits_intros emits_captured_by workD [OF assms] assms)

lemma emits_upsert:
  assumes "work P" shows "emits P (upsert_or_log env what path name record)"
  unfolding upsert_or_log_def upsert_colon_record_def
  by (intro emits_intros quiet_intros workD [OF assms] assms)

lemma emits_write_user_files [work_intros]:
  assumes "work P" shows "emits P (write_user_files env cfg)"
  unfolding write_user_files_def write_home_def write_records_def write_host_files_def Let_def
  by (intro emits_intros quiet_intros emits_hash_password emits_upsert emits_installer_write_file workD [OF assms] assms)

lemma emits_find_kernel [work_intros]: "emits P (find_kernel env n)"
  unfolding find_kernel_def find_first_glob_def by (intro emits_intros)

lemma emits_grub_dir_at: "emits P (grub_dir_at env platform n base)"
  unfolding grub_dir_at_def by (simp add: emits_intros split: option.split)

lemma emits_resolve_grub [work_intros]:
  assumes "work P" shows "emits P (resolve_grub_platform_dir env platform n)"
  unfolding resolve_grub_platform_dir_def
  by (intro emits_intros quiet_intros emits_grub_dir_at workD [OF assms] assms)

lemma emits_sync_target_resolver [work_intros]:
  assumes "work P" shows "emits P (sync_target_resolver env)"
  unfolding sync_target_resolver_def Let_def
  by (intro emits_intros quiet_intros emits_installer_write_file workD [OF assms] assms)

lemma emits_install_grub_pkg [work_intros]:
  assumes "work P" shows "emits P (install_grub_pkg env pkg root)"
  unfolding install_grub_pkg_def Let_def by (intro emits_intros quiet_intros workD [OF assms] assms)

lemma emits_copy_memtest [work_intros]:
  assumes "work P" shows "emits P (copy_memtest env file label)"
  unfolding copy_memtest_def by (intro emits_intros quiet_intros workD [OF assms] assms)

lemma emits_grub_config [work_intros]:
  assumes "work P" shows "emits P (write_default_grub_file env cfg root_arg)" and "emits P (generate_grub_config env)"
  unfolding write_default_grub_file_def generate_grub_config_def
  by (intro emits_intros quiet_intros emits_installer_write_file workD [OF assms] assms)+

lemma emits_bootloader [work_intros]:
  assumes "work P" shows "emits P (install_bootloader_efi env efi)" and "emits P (install_bootloader_bios env cfg)"
  unfolding install_bootloader_efi_def install_bootloader_bios_def
  by (intro emits_intros quiet_intros work_intros workD [OF assms] assms)+

lemma wait_attempts_emits:
  assumes "quiet P" and "may_run [''mdev''] P" and "\<And>n. P (Usleep n)"
  shows "emits P (wait_attempts n env part efi)"
proof (induction n)
  case (Suc n)
  show ?case
    unfolding wait_attempts.simps
    by (intro emits_intros quiet_intros assms Suc.IH) (auto intro: may_runD [OF assms(2)])
qed (simp add: emits_fail_with assms)

lemma compat_command_harmless:
  "installer_build_grub_compat_config_command (Some ROOT_MNT) 1024 = Some c \<Longrightarrow> \<not> sublist ''| fdisk '' c"
proof -
  have "(case installer_build_grub_compat_config_command (Some ROOT_MNT) 1024 of None \<Rightarrow> True
      | Some c \<Rightarrow> strstr c ''| fdisk '' = None)"
    by code_simp
  then show "installer_build_grub_compat_config_command (Some ROOT_MNT) 1024 = Some c \<Longrightarrow> \<not> sublist ''| fdisk '' c"
    by (simp add: strstr_None_iff_sublist)
qed

lemma emits_update_system: "emits keeps_data (update_system env part)"
proof -
  have wait: "emits keeps_data (wait_for_partitions env part efi)" for efi
    unfolding wait_for_partitions_def by (rule wait_attempts_emits) (simp_all add: may_run_keeps_data)
  show ?thesis
    unfolding update_system_def
    by (intro emits_intros quiet_intros wait emits_step) (simp_all add: compat_command_harmless)
qed

lemma erase_allowed_after:
  "result (erase_allowed env cfg media_dev) h \<Longrightarrow> after (erase_allowed env cfg media_dev) h = h"
  by (auto simp: erase_allowed_def fail_with_def mount_dev_at_def split: if_splits option.splits)

subsection \<open>Progress\<close>

definition progress_of :: "event list \<Rightarrow> int list" where
  "progress_of t = List.map_filter (\<lambda>e. case e of Progress p l \<Rightarrow> Some p | _ \<Rightarrow> None) t"

lemma progress_of_simps [simp]:
  "progress_of [] = []" "progress_of (t @ u) = progress_of t @ progress_of u"
  "progress_of (Progress p l # t) = p # progress_of t" "progress_of (Log l # t) = progress_of t"
  by (simp_all add: progress_of_def map_filter_def)

fun no_progress :: "event \<Rightarrow> bool" where
  "no_progress (Progress p l) = False"
| "no_progress _ = True"

lemma progress_of_none: "list_all no_progress t \<Longrightarrow> progress_of t = []"
proof (induction t)
  case (Cons e t)
  then show ?case by (cases e) (simp_all add: progress_of_def map_filter_def)
qed simp

lemma work_no_progress: "work no_progress"
  by (simp add: work_def quiet_def)

text \<open>
  \<open>climbs lo hi m\<close>: the reports of \<open>m\<close> increase, are above \<open>lo\<close> and at most \<open>hi\<close>;
  \<open>reaches lo m\<close>: they end with 100 when \<open>m\<close> succeeds and stay below it when \<open>m\<close> fails.
\<close>

definition rising :: "int \<Rightarrow> int \<Rightarrow> int list \<Rightarrow> bool" where
  "rising lo hi ps \<longleftrightarrow> sorted_wrt (<) (lo # ps) \<and> list_all (\<lambda>p. p \<le> hi) (lo # ps)"

lemma rising_append: "rising a b ps \<Longrightarrow> rising b c qs \<Longrightarrow> rising a c (ps @ qs)"
  by (auto simp: rising_def sorted_wrt_append list_all_iff intro: order_trans less_le_trans le_less_trans)

lemma rising_Nil: "a \<le> b \<Longrightarrow> rising a b []"
  by (simp add: rising_def)

lemma rising_le: "rising a b ps \<Longrightarrow> a \<le> b"
  by (simp add: rising_def)

definition climbs :: "int \<Rightarrow> int \<Rightarrow> 'a io \<Rightarrow> bool" where
  "climbs lo hi m \<longleftrightarrow> (\<forall>h. \<exists>t. after m h = h @ t \<and> rising lo hi (progress_of t))"

definition reaches :: "int \<Rightarrow> bool io \<Rightarrow> bool" where
  "reaches lo m \<longleftrightarrow> (\<forall>h. \<exists>t. after m h = h @ t \<and> rising lo 100 (progress_of t)
     \<and> (result m h \<longleftrightarrow> 100 \<in> set (progress_of t)))"

lemma climbs_obtain:
  assumes "climbs lo hi m"
  obtains t where "after m h = h @ t" "rising lo hi (progress_of t)"
  using assms unfolding climbs_def by blast

lemma reaches_obtain:
  assumes "reaches lo m"
  obtains t where "after m h = h @ t" "rising lo 100 (progress_of t)"
    "result m h \<longleftrightarrow> 100 \<in> set (progress_of t)"
  using assms unfolding reaches_def by blast

lemma climbs_quiet: "emits no_progress m \<Longrightarrow> climbs a a m"
  by (fastforce simp: climbs_def emits_def rising_Nil progress_of_none)

lemma climbs_step: "a < p \<Longrightarrow> climbs a p (step p l)"
  by (simp add: climbs_def step_def rising_def)

lemma climbs_weaken: "climbs a b m \<Longrightarrow> b \<le> c \<Longrightarrow> climbs a c m"
  unfolding climbs_def rising_def list_all_iff by (meson order_trans)

lemma climbs_bind:
  assumes "climbs a b m" and "\<And>x. climbs b c (f x)"
  shows "climbs a c (State_Monad.bind m f)"
  unfolding climbs_def
proof
  fix h
  obtain t where t: "after m h = h @ t" "rising a b (progress_of t)" using assms(1) by (rule climbs_obtain)
  obtain u where "after (f (result m h)) (h @ t) = (h @ t) @ u" "rising b c (progress_of u)"
    using assms(2) by (rule climbs_obtain)
  with t show "\<exists>t. after (State_Monad.bind m f) h = h @ t \<and> rising a c (progress_of t)"
    by (intro exI [of _ "t @ u"]) (simp add: rising_append)
qed

lemma climbs_and_then:
  assumes "climbs a b m" and "climbs b c k" shows "climbs a c (and_then m k)"
proof -
  have "climbs b c (ret False)"
    using assms(2) by (auto simp: climbs_def dest: rising_le intro: rising_Nil)
  with assms show ?thesis unfolding and_then_def by (intro climbs_bind [OF assms(1)]) simp
qed

lemma reaches_bind:
  assumes "climbs a b m" and "b < 100" and "\<And>x. reaches b (f x)"
  shows "reaches a (State_Monad.bind m f)"
  unfolding reaches_def
proof
  fix h
  obtain t where t: "after m h = h @ t" "rising a b (progress_of t)" using assms(1) by (rule climbs_obtain)
  obtain u where u: "after (f (result m h)) (h @ t) = (h @ t) @ u" "rising b 100 (progress_of u)"
      "result (f (result m h)) (h @ t) \<longleftrightarrow> 100 \<in> set (progress_of u)"
    using assms(3) by (rule reaches_obtain)
  have "100 \<notin> set (progress_of t)"
    using t(2) assms(2) by (auto simp: rising_def list_all_iff)
  with t u show "\<exists>t. after (State_Monad.bind m f) h = h @ t \<and> rising a 100 (progress_of t)
      \<and> (result (State_Monad.bind m f) h \<longleftrightarrow> 100 \<in> set (progress_of t))"
    by (intro exI [of _ "t @ u"]) (simp add: rising_append)
qed

lemma reaches_False: "a \<le> 100 \<Longrightarrow> reaches a (ret False)"
  by (simp add: reaches_def rising_Nil)

lemma reaches_and_then:
  assumes "climbs a b m" and "b < 100" and "reaches b k" shows "reaches a (and_then m k)"
  using assms unfolding and_then_def by (intro reaches_bind [OF assms(1,2)]) (simp add: reaches_False)

lemma reaches_fail_with: "a \<le> 100 \<Longrightarrow> reaches a (fail_with text)"
  by (simp add: reaches_def fail_with_def emit_log_def rising_Nil)

lemma reaches_done: "a < 100 \<Longrightarrow> reaches a (do { _ \<leftarrow> step 100 l; _ \<leftarrow> emit_log text; ret True })"
  by (simp add: reaches_def step_def emit_log_def rising_def)

lemma reaches_if: "(c \<Longrightarrow> reaches a m) \<Longrightarrow> (\<not> c \<Longrightarrow> reaches a n) \<Longrightarrow> reaches a (if c then m else n)"
  by simp

lemmas np = work_no_progress workD [OF work_no_progress]

lemmas emits_np = emits_intros quiet_intros work_intros emits_hash_password np

lemma may_run_no_progress: "may_run progs no_progress"
  by (simp add: may_run_def)

lemma emits_np_wait: "emits no_progress (wait_for_partitions env part efi)"
  unfolding wait_for_partitions_def by (rule wait_attempts_emits) (simp_all add: np may_run_no_progress)

lemma climbs_start:
  "climbs 0 2 (prepare_devices env cfg)" "climbs 2 10 (mount_media env cfg)"
  unfolding prepare_devices_def mount_media_def
  by (intro climbs_bind [OF climbs_step] climbs_quiet emits_np may_run_no_progress; simp)+

lemma climbs_erase_allowed: "climbs a a (erase_allowed env cfg media_dev)"
  by (intro climbs_quiet emits_erase_allowed np)

lemma climbs_install_tools: "climbs 10 23 (install_tools env cfg)"
proof -
  have "climbs 10 18 (if c_action cfg = INSTALLER_ACTION_INSTALL then do {
          _ \<leftarrow> step 18 ''Installing GRUB package'';
          all_io (\<lambda>pkg. install_grub_pkg env pkg None) (grub_packages cfg)
        } else ret True)"
    by (cases "c_action cfg = INSTALLER_ACTION_INSTALL")
       (simp_all add: climbs_weaken [OF climbs_quiet [OF emits_ret]]
         climbs_bind [OF climbs_step climbs_quiet] emits_np)
  moreover have "climbs 18 23 (do {
          _ \<leftarrow> step 23 ''Installing e2fsprogs package'';
          install_grub_pkg env ''e2fsprogs'' None })"
    by (intro climbs_bind [OF climbs_step] climbs_quiet emits_np; simp)
  ultimately show ?thesis unfolding install_tools_def by (rule climbs_and_then)
qed

lemma climbs_partition_disk: "climbs 23 28 (partition_disk env cfg part efi)"
  unfolding partition_disk_def
  by (intro climbs_bind [OF climbs_step] climbs_quiet emits_np emits_np_wait; simp)

lemma climbs_format_partitions: "climbs 28 38 (format_partitions env cfg part efi)"
  unfolding format_partitions_def
  by (intro climbs_bind [OF climbs_step] climbs_quiet emits_np; simp)

lemma climbs_extract_root: "climbs 38 58 (extract_root env part)"
  unfolding extract_root_def
  by (intro climbs_bind [OF climbs_step [of 38 48]] climbs_and_then [of 48 48 _ 58]
      climbs_bind [OF climbs_step [of 48 58]] climbs_quiet emits_np; simp)

lemma climbs_install_target_packages: "climbs 58 72 (install_target_packages env cfg)"
  unfolding install_target_packages_def
  by (intro climbs_bind [OF climbs_step] climbs_quiet emits_np; simp)

lemma climbs_accounts_and_kernel:
  "climbs 72 74 (create_accounts env cfg)" "climbs 74 76 (copy_kernel env)"
  unfolding create_accounts_def copy_kernel_def
  by (intro climbs_bind [OF climbs_step] climbs_quiet emits_np; simp)+

lemma climbs_boot:
  "climbs 76 84 (write_boot_config env cfg part)" "climbs 84 94 (install_bootloader env cfg efi)"
  unfolding write_boot_config_def install_bootloader_def
  by (intro climbs_bind [OF climbs_step] climbs_quiet emits_np; simp)+

lemma reaches_finish_format: "reaches 38 (finish_format env)"
  unfolding finish_format_def
  by (intro reaches_bind [OF climbs_step [of 38 98]] reaches_bind [OF climbs_quiet [of _ 98]]
      reaches_done emits_np; simp)

lemma reaches_finish_installation: "reaches 94 (finish_installation env)"
  unfolding finish_installation_def
  by (intro reaches_bind [OF climbs_step [of 94 98]] reaches_bind [OF climbs_quiet [of _ 98]]
      reaches_done emits_np; simp)

lemma reaches_install_system: "reaches 38 (install_system env cfg part efi)"
  unfolding install_system_def
  by (intro reaches_and_then [OF climbs_extract_root] reaches_and_then [OF climbs_install_target_packages]
      reaches_and_then [OF climbs_accounts_and_kernel(1)] reaches_and_then [OF climbs_accounts_and_kernel(2)]
      reaches_and_then [OF climbs_boot(1)] reaches_and_then [OF climbs_boot(2)]
      reaches_finish_installation; simp)

lemma reaches_erase_and_install: "reaches 10 (erase_and_install env cfg part efi)"
  unfolding erase_and_install_def
  by (intro reaches_and_then [OF climbs_install_tools] reaches_and_then [OF climbs_partition_disk]
      reaches_and_then [OF climbs_format_partitions] reaches_if reaches_finish_format
      reaches_install_system; simp)

lemma reaches_update_system: "reaches 10 (update_system env part)"
proof -
  have fail: "reaches 50 (State_Monad.bind (installer_safe_umount env ROOT_MNT) (\<lambda>_. ret False))"
    by (intro reaches_bind [OF climbs_quiet [of _ 50]] reaches_False emits_np) simp_all
  show ?thesis
    unfolding update_system_def
    by (intro reaches_bind [OF climbs_step [of 10 24]] reaches_and_then [OF climbs_quiet [of _ 24]]
        reaches_bind [OF climbs_step [of 24 50]] reaches_bind [OF climbs_quiet [of _ 50]]
        reaches_if fail reaches_fail_with reaches_bind [OF climbs_step [of 50 98]]
        reaches_bind [OF climbs_quiet [of _ 98]] reaches_done emits_np emits_np_wait; simp)
qed

lemma reaches_installer_run_install: "reaches 0 (installer_run_install env cfg)"
proof -
  have "reaches 10 (with_some media (\<lambda>media_dev. and_then (erase_allowed env cfg media_dev)
      (if c_action cfg = INSTALLER_ACTION_UPDATE then update_system env part
       else erase_and_install env cfg part efi)))" for media part efi
    unfolding with_some_def
    by (cases media) (simp_all add: reaches_False reaches_and_then [OF climbs_erase_allowed]
        reaches_update_system reaches_erase_and_install)
  then have "reaches 0 (and_then (prepare_devices env cfg) (State_Monad.bind (mount_media env cfg)
      (\<lambda>media. with_some media (\<lambda>media_dev. and_then (erase_allowed env cfg media_dev)
      (if c_action cfg = INSTALLER_ACTION_UPDATE then update_system env part
       else erase_and_install env cfg part efi)))))" for part efi
    by (intro reaches_and_then [OF climbs_start(1)] reaches_bind [OF climbs_start(2)]) simp_all
  then show ?thesis
    unfolding installer_run_install_def by (simp add: reaches_False split: option.split)
qed

text \<open>Up to the point where the target has been found safe nothing is erased.\<close>

lemma install_split:
  "\<exists>a b. after (installer_run_install env cfg) h = h @ a @ b \<and> list_all keeps_data a
     \<and> (b = [] \<or> (c_action cfg \<noteq> INSTALLER_ACTION_UPDATE
          \<and> (\<exists>media_dev. safe_target env (h @ a) cfg media_dev)))"
proof -
  let ?m1 = "prepare_devices env cfg" and ?m2 = "mount_media env cfg"
  let ?h1 = "after ?m1 h" let ?h2 = "after ?m2 ?h1"
  have harmless: "\<exists>a b. x = h @ a @ b \<and> list_all keeps_data a \<and> (b = [] \<or> Q a)"
    if "\<exists>t. x = h @ t \<and> list_all keeps_data t" for x Q
    using that by (metis append_Nil2)
  note pre = emits_before_erasing [of env cfg]
  show ?thesis
  proof (cases "c_disk cfg = [] \<or> target_part cfg = None \<or> efi_part cfg = None \<or> \<not> result ?m1 h
      \<or> result ?m2 ?h1 = None")
    case True
    then have "after (installer_run_install env cfg) h \<in> {h, ?h1, ?h2}"
      by (auto simp: installer_run_install_def split: option.split)
    moreover have "\<exists>t. ?h1 = h @ t \<and> list_all keeps_data t" "\<exists>t. ?h2 = h @ t \<and> list_all keeps_data t"
      "\<exists>t. h = h @ t \<and> list_all keeps_data t"
      using emits_after [OF pre(1)] emits_prefix [OF pre(1,2)] by auto
    ultimately show ?thesis by (intro harmless) (elim insertE emptyE; simp)
  next
    case False
    then obtain part efi media_dev where parts: "target_part cfg = Some part" "efi_part cfg = Some efi"
      and media: "result ?m2 ?h1 = Some media_dev" by auto
    let ?m3 = "erase_allowed env cfg media_dev"
    let ?rest = "if c_action cfg = INSTALLER_ACTION_UPDATE then update_system env part
      else erase_and_install env cfg part efi"
    have run: "after (installer_run_install env cfg) h =
        (if result ?m3 ?h2 then after ?rest ?h2 else after ?m3 ?h2)"
      using False parts media by (simp add: installer_run_install_def erase_allowed_after)
    obtain t where t: "?h2 = h @ t" "list_all keeps_data t"
      using emits_prefix [OF pre(1,2)] by blast
    show ?thesis
    proof (cases "result ?m3 ?h2 \<and> c_action cfg \<noteq> INSTALLER_ACTION_UPDATE")
      case True
      then have "safe_target env (h @ t) cfg media_dev"
        using erase_allowed_safe [of env cfg media_dev ?h2] prepare_devices_supported [of env cfg h] False t
        by simp
      moreover obtain u where "after ?rest ?h2 = ?h2 @ u"
        using True reaches_erase_and_install [of env cfg part efi] by (auto elim: reaches_obtain)
      ultimately show ?thesis using True run t by (intro exI [of _ t] exI [of _ u]) auto
    next
      case False
      then have "\<exists>u. after (installer_run_install env cfg) h = ?h2 @ u \<and> list_all keeps_data u"
        unfolding run using emits_after [OF pre(3)] emits_after [OF emits_update_system] by auto
      with t show ?thesis by (intro harmless) (metis append.assoc list_all_append)
    qed
  qed
qed

subsection \<open>Partitions and their disk\<close>

lemma short_name: "prefix pre name \<Longrightarrow> length name = Suc (length pre) \<Longrightarrow> name = pre @ [name ! length pre]"
  by (elim prefixE) (auto simp: length_Suc_conv [of _ 0, simplified])

lemma supported_disk_cases:
  assumes "installer_supported_disk (Some d)"
  obtains (short) pre c where "d = ''/dev/'' @ pre @ [c]" "pre \<in> {''sd'', ''vd'', ''xvd''}" "islower c"
  | (numbered) name where "d = ''/dev/'' @ name" "prefix ''nvme'' name \<or> prefix ''mmcblk'' name"
proof -
  obtain name where d: "d = ''/dev/'' @ name"
    using prefix_dev [OF supported_disk_dev [OF assms]] by blast
  have "(length name = 3 \<and> prefix ''sd'' name \<and> islower (name ! 2))
      \<or> (length name = 3 \<and> prefix ''vd'' name \<and> islower (name ! 2))
      \<or> (length name = 4 \<and> prefix ''xvd'' name \<and> islower (name ! 3))
      \<or> prefix ''nvme'' name \<or> prefix ''mmcblk'' name"
    using assms unfolding d by (simp add: installer_supported_disk_def Let_def split: if_splits)
  then consider "prefix ''nvme'' name \<or> prefix ''mmcblk'' name"
    | pre where "pre \<in> {''sd'', ''vd'', ''xvd''}" "prefix pre name" "length name = Suc (length pre)"
        "islower (name ! length pre)"
    by (elim disjE) force+
  then show ?thesis
  proof cases
    case 1
    with d show ?thesis by (rule numbered)
  next
    case (2 pre)
    with d short_name [OF 2(2,3)] show ?thesis using short by metis
  qed
qed

lemma islower_not_digit: "islower c \<Longrightarrow> \<not> isdigit c"
  by (auto simp: ctype_defs less_eq_char_def)

lemma belongs_suffix:
  assumes "installer_partition_belongs_to_disk (Some (''/dev/'' @ name)) (Some p)"
  obtains suf where "p = ''/dev/'' @ name @ suf" "installer_supported_disk (Some (''/dev/'' @ name))"
    "if prefix ''nvme'' name \<or> prefix ''mmcblk'' name
     then \<exists>ds. suf = CHR ''p'' # ds \<and> ds \<noteq> [] \<and> list_all isdigit ds
     else suf \<noteq> [] \<and> list_all isdigit suf"
proof -
  from assms have dev: "prefix ''/dev/'' p" and pre: "prefix name (drop 5 p)"
    and sup: "installer_supported_disk (Some (''/dev/'' @ name))"
    by (auto simp: installer_partition_belongs_to_disk_def Let_def split: if_splits)
  then obtain suf where p: "p = ''/dev/'' @ name @ suf"
    using prefix_dev [OF dev] by (metis prefix_def)
  have "if prefix ''nvme'' name \<or> prefix ''mmcblk'' name
     then \<exists>ds. suf = CHR ''p'' # ds \<and> ds \<noteq> [] \<and> list_all isdigit ds
     else suf \<noteq> [] \<and> list_all isdigit suf"
    using assms unfolding p
    by (cases suf) (auto simp: installer_partition_belongs_to_disk_def Let_def split: if_splits)
  with p sup show ?thesis by (rule that)
qed

lemma parent_disk_numbered:
  assumes "prefix ''nvme'' name \<or> prefix ''mmcblk'' name" and "ds \<noteq> []" and "list_all isdigit ds"
    and "length (''/dev/'' @ name @ CHR ''p'' # ds) < n"
  shows "parent_disk (Some (''/dev/'' @ name @ CHR ''p'' # ds)) n = Some (''/dev/'' @ name)"
proof -
  let ?p = "''/dev/'' @ name @ CHR ''p'' # ds"
  have "CHR ''p'' \<notin> set ds" using assms(3) by (auto simp: list_all_iff ctype_defs less_eq_char_def)
  then have "strrchr ?p (CHR ''p'') = Some (length (''/dev/'' @ name))"
    using strrchr_append_right [of "CHR ''p''" ds "''/dev/'' @ name"] by simp
  moreover have "trunc n ?p = ?p" using assms(4) by (simp add: trunc_def)
  moreover have "\<not> prefix ''/dev/sr'' ?p" "prefix ''/dev/nvme'' ?p \<or> prefix ''/dev/mmcblk'' ?p"
    using assms(1) by (auto simp: prefix_def)
  moreover have "isdigit (?p ! Suc (length (''/dev/'' @ name)))"
    using assms(2,3) by (cases ds) (simp_all add: nth_append)
  ultimately show ?thesis using assms(2,4)
    by (cases ds) (simp_all add: parent_disk_def Let_def strstr_0)
qed

lemma parent_disk_of_partition:
  assumes "installer_partition_belongs_to_disk (Some d) (Some p)" and "length p < n"
  shows "parent_disk (Some p) n = Some d"
proof -
  have "installer_supported_disk (Some d)"
    using assms(1) by (auto simp: installer_partition_belongs_to_disk_def split: if_splits)
  then show ?thesis
  proof (cases rule: supported_disk_cases)
    case (numbered name)
    from assms(1) [unfolded numbered(1)] obtain suf where p: "p = ''/dev/'' @ name @ suf"
      and suf: "if prefix ''nvme'' name \<or> prefix ''mmcblk'' name
        then \<exists>ds. suf = CHR ''p'' # ds \<and> ds \<noteq> [] \<and> list_all isdigit ds
        else suf \<noteq> [] \<and> list_all isdigit suf"
      by (rule belongs_suffix)
    then obtain ds where "suf = CHR ''p'' # ds" "ds \<noteq> []" "list_all isdigit ds"
      using numbered(2) by auto
    with p assms(2) numbered show ?thesis
      using parent_disk_numbered [OF numbered(2), of ds n] by simp
  next
    case (short pre c)
    from assms(1) [unfolded short(1)] obtain suf where p: "p = ''/dev/'' @ (pre @ [c]) @ suf"
      and "if prefix ''nvme'' (pre @ [c]) \<or> prefix ''mmcblk'' (pre @ [c])
        then \<exists>ds. suf = CHR ''p'' # ds \<and> ds \<noteq> [] \<and> list_all isdigit ds
        else suf \<noteq> [] \<and> list_all isdigit suf"
      by (rule belongs_suffix)
    then have suf: "list_all isdigit suf" using short(2) by auto
    have "dropWhile isdigit (rev p) = rev (''/dev/'' @ pre @ [c])"
      using suf islower_not_digit [OF short(3)] unfolding p
      by (simp add: dropWhile_append list_all_iff)
    then have "rev (dropWhile isdigit (rev p)) = d" unfolding short(1) by simp
    moreover have "\<not> prefix ''/dev/sr'' p" "\<not> prefix ''/dev/nvme'' p" "\<not> prefix ''/dev/mmcblk'' p"
      using short(2) unfolding p by auto
    moreover have "trunc n p = p" using assms(2) by (simp add: trunc_def)
    ultimately show ?thesis using assms(2) by (auto simp: parent_disk_def Let_def strstr_0)
  qed
qed

subsection \<open>Packages before accounts\<close>

text \<open>Packages are installed into the target with \<^verbatim>\<open>chroot\<close>; account files are put in place by a rename.\<close>

fun no_package :: "event \<Rightarrow> bool" where
  "no_package (Run argv) \<longleftrightarrow> argv = [] \<or> hd argv \<noteq> ''chroot''"
| "no_package _ \<longleftrightarrow> True"

fun no_rename :: "event \<Rightarrow> bool" where
  "no_rename (Rename p q) = False"
| "no_rename _ = True"

lemma quiet_orders [simp]: "quiet no_package" "quiet no_rename"
  by (simp_all add: quiet_def)

lemma emits_no_rename:
  "emits no_rename (extract_root env part)" "emits no_rename (install_target_packages env cfg)"
  unfolding extract_root_def install_target_packages_def copy_memtest_def sync_target_resolver_def
    install_grub_pkg_def Let_def
  by (intro emits_intros quiet_intros emits_step emits_installer_write_file; simp)+

lemma emits_no_package_accounts: "emits no_package (create_accounts env cfg)"
  unfolding create_accounts_def write_user_files_def write_home_def write_records_def write_host_files_def
    upsert_or_log_def upsert_colon_record_def hash_password_def Let_def
  by (intro emits_intros quiet_intros emits_step emits_installer_write_file emits_captured_by; simp)

lemma emits_no_package_boot:
  "emits no_package (copy_kernel env)" "emits no_package (write_boot_config env cfg part)"
  "emits no_package (install_bootloader env cfg efi)"
  unfolding copy_kernel_def write_boot_config_def write_default_grub_file_def generate_grub_config_def
    install_bootloader_def install_bootloader_efi_def install_bootloader_bios_def
    resolve_grub_platform_dir_def
  by (intro emits_intros quiet_intros emits_step emits_installer_write_file emits_find_kernel
      emits_grub_dir_at; simp)+

lemma emits_no_package_finish: "emits no_package (finish_installation env)"
  unfolding finish_installation_def by (intro emits_intros quiet_intros emits_step; simp)

lemma emits_no_package_rest:
  "emits no_package (and_then (create_accounts env cfg) (and_then (copy_kernel env)
     (and_then (write_boot_config env cfg part)
     (and_then (install_bootloader env cfg efi) (finish_installation env)))))"
  by (intro emits_and_then emits_no_package_accounts emits_no_package_boot emits_no_package_finish)

lemma and_then_split:
  assumes "emits P m" and "emits Q k"
  shows "\<exists>a b. after (and_then m k) h = h @ a @ b \<and> list_all P a \<and> list_all Q b"
proof -
  obtain a where a: "after m h = h @ a" "list_all P a" using emits_after [OF assms(1)] by blast
  obtain b where "after k (h @ a) = (h @ a) @ b" "list_all Q b" using emits_after [OF assms(2)] by blast
  with a show ?thesis
    by (cases "result m h") (auto intro: exI [of _ a] exI [of _ "[]"])
qed

lemma install_system_assoc:
  "install_system env cfg part efi =
     and_then (and_then (extract_root env part) (install_target_packages env cfg))
       (and_then (create_accounts env cfg) (and_then (copy_kernel env)
         (and_then (write_boot_config env cfg part)
         (and_then (install_bootloader env cfg efi) (finish_installation env)))))"
proof -
  have assoc: "and_then m (and_then k l) = and_then (and_then m k) l" for m k l :: "bool io"
    unfolding and_then_def by (simp add: State_Monad.bind_assoc if_distrib [of "\<lambda>m. State_Monad.bind m _"]
      cong: if_cong)
  show ?thesis unfolding install_system_def by (rule assoc)
qed

section \<open>Properties\<close>


text \<open>
  C33. The progress display never goes back and tells the truth about the end: the percentages
  reported by a run increase strictly within 1 and 100, and 100 is reported exactly when the run
  succeeds.
\<close>

theorem progress_truthful:
  "\<exists>t. after (installer_run_install env cfg) h = h @ t \<and> sorted_wrt (<) (progress_of t)
     \<and> set (progress_of t) \<subseteq> {1..100}
     \<and> (result (installer_run_install env cfg) h \<longleftrightarrow> 100 \<in> set (progress_of t))"
proof -
  obtain t where t: "after (installer_run_install env cfg) h = h @ t" "rising 0 100 (progress_of t)"
    "result (installer_run_install env cfg) h \<longleftrightarrow> 100 \<in> set (progress_of t)"
    by (rule reaches_obtain [OF reaches_installer_run_install])
  from t(2) have "sorted_wrt (<) (progress_of t)" "set (progress_of t) \<subseteq> {1..100}"
    by (auto simp: rising_def list_all_iff)
  with t show ?thesis by blast
qed

text \<open>
  A disk that holds the installation media on one of its partitions is never erased: the
  check of the target refuses it for both ways of naming partitions, and leaves only a log line.
\<close>

theorem media_disk_refused:
  assumes "installer_partition_belongs_to_disk (Some (c_disk cfg)) (Some media_dev)"
    and "length media_dev < 64"
  shows "\<not> result (erase_allowed env cfg media_dev) h"
  using parent_disk_of_partition [OF assms] by (simp add: erase_allowed_def fail_with_def)

definition sample_config :: InstallerConfig where
  "sample_config =
     \<lparr>c_install_media = [], c_disk = ''/dev/nvme0n1'', c_action = INSTALLER_ACTION_INSTALL,
      c_boot_mode = INSTALLER_BOOT_UEFI, c_acpi_mode = INSTALLER_ACPI_ON, c_part_size = [],
      c_username = ''adam'', c_password = ''x'', c_root_password = ''y'', c_hostname = ''adava''\<rparr>"

theorem media_disk_refused_witness:
  "\<not> result (erase_allowed (listing_env []) sample_config ''/dev/nvme0n1p1'') []"
proof (rule media_disk_refused)
  have "installer_partition_belongs_to_disk (Some ''/dev/nvme0n1'') (Some ''/dev/nvme0n1p1'')"
    by code_simp
  then show "installer_partition_belongs_to_disk (Some (c_disk sample_config)) (Some ''/dev/nvme0n1p1'')"
    by (simp add: sample_config_def)
qed simp

text \<open>
  Accounts are written after the last package transaction: in the trace of an installation
  nothing before the first account file is put in place is such a rename, and no package is
  installed into the target after it, so no package can overwrite the credentials.
\<close>

theorem accounts_after_packages:
  "\<exists>a b. after (install_system env cfg part efi) h = h @ a @ b \<and> list_all no_rename a
     \<and> list_all no_package b"
  unfolding install_system_assoc
  by (rule and_then_split [OF emits_and_then [OF emits_no_rename] emits_no_package_rest])

text \<open>
  Updating an account file keeps every other record: when \<^verbatim>\<open>upsert_colon_record\<close> succeeds on a
  file of complete lines, the file is replaced in one step by one that holds all records of other
  names in their order, followed by the new record as the only one of its name.
\<close>

theorem upsert_replaces_record:
  assumes "e_open env (h @ [WriteFile (path @ ''.adava-new'') []]) path = Some (concat (map (\<lambda>l. l @ [LF]) ls))"
    and "list_all (\<lambda>l. LF \<notin> set l \<and> NUL \<notin> set l \<and> length l < 2047) ls"
    and "result (upsert_colon_record env path name (r @ [LF])) h"
  shows "after (upsert_colon_record env path name (r @ [LF])) h = h @
    [WriteFile (path @ ''.adava-new'') [],
     Fill (path @ ''.adava-new'') (concat (map (\<lambda>l. l @ [LF])
       (filter (\<lambda>l. \<not> prefix (name @ '':'') (l @ [LF])) ls @ [r]))),
     Rename (path @ ''.adava-new'') path]"
proof -
  have "upsert_content (Some (concat (map (\<lambda>l. l @ [LF]) ls))) name (r @ [LF]) =
      concat (map (\<lambda>l. l @ [LF]) (filter (\<lambda>l. \<not> prefix (name @ '':'') (l @ [LF])) ls @ [r]))"
    using assms(2) fgets_lines_concat [of ls 2047]
    by (simp add: upsert_content_def list_all_iff filter_map o_def)
  with assms(1,3) show ?thesis
    by (auto simp: upsert_colon_record_def split: if_splits option.splits)
qed

theorem upsert_replaces_record_witness:
  "after (upsert_colon_record ((listing_env []) \<lparr>e_open := \<lambda>h p. Some (concat (map (\<lambda>l. l @ [LF])
       [''root:x:0:'', ''users:x:100:'']))\<rparr>) ''/g'' ''root'' (''root:x:0:adam'' @ [LF])) [] = [] @
    [WriteFile (''/g'' @ ''.adava-new'') [],
     Fill (''/g'' @ ''.adava-new'') (concat (map (\<lambda>l. l @ [LF])
       (filter (\<lambda>l. \<not> prefix (''root'' @ '':'') (l @ [LF])) [''root:x:0:'', ''users:x:100:''] @ [''root:x:0:adam'']))),
     Rename (''/g'' @ ''.adava-new'') ''/g'']"
  by (rule upsert_replaces_record)
     (simp_all add: upsert_colon_record_def listing_env_def fits_def succeeds_def)

text \<open>
  A last line without a newline swallows the new record: the record is glued to that line and
  does not start one of its own.
\<close>

theorem upsert_glues_record:
  assumes "LF \<notin> set l" and "NUL \<notin> set l" and "l \<noteq> []" and "length l < 2047"
    and "\<not> prefix (name @ '':'') l"
  shows "upsert_content (Some l) name record = l @ record"
proof -
  have line: "takeWhile (\<lambda>c. c \<noteq> LF) l = l" and whole: "cstr l = l"
    using assms(1,2) by (auto simp: takeWhile_eq_all_conv cstr_def)
  have "fgets_len 2047 l = length l"
    unfolding fgets_len_def line using assms(4) by simp
  with whole have "fgets_lines 2047 l = [l]"
    using assms(3) by (subst fgets_lines.simps) simp
  with assms(5) show ?thesis by (simp add: upsert_content_def)
qed

theorem upsert_glues_record_witness:
  "upsert_content (Some ''root:x:0:'') ''adam'' ''adam:x:1000:'' = ''root:x:0:'' @ ''adam:x:1000:''"
  by (rule upsert_glues_record) simp_all

end
