(* ===== verification/Wizard.thy ===== *)
theory Wizard
  imports InstallerRun
begin

text \<open>
  The dialogs of the installer, \<^verbatim>\<open>tools/installer/ui.c\<close>: the boxes as functions of the keys that are
  pressed, the wizard that collects the configuration as a state machine, and the display of the
  log. Drawing with \<^verbatim>\<open>ncurses\<close> is not modelled, but for the texts that the code computes itself.

  A box that waits for keys is a function on the list of the keys to come; \<^const>\<open>None\<close> means that
  it is still waiting when the list is used up.
\<close>

section \<open>Boxes\<close>

text \<open>
  The keys the code distinguishes; \<open>KeyChar\<close> is any other byte. The codes of the remaining
  function keys are \<open>KeyOther\<close>.
\<close>

datatype key = KeyEnter | KeyEsc | KeyUp | KeyDown | KeyBackspace | KeyChar char | KeyOther

fun message_box :: "key list \<Rightarrow> (bool \<times> key list) option" where
  "message_box [] = None"
| "message_box (k # ks) =
     (if k = KeyEnter then Some (True, ks) else if k = KeyEsc then Some (False, ks) else message_box ks)"

fun menu_box :: "nat \<Rightarrow> nat \<Rightarrow> key list \<Rightarrow> (nat option \<times> key list) option" where
  "menu_box count selected [] = None"
| "menu_box count selected (k # ks) =
     (if k = KeyUp \<and> selected > 0 then menu_box count (selected - 1) ks
      else if k = KeyDown \<and> selected + 1 < count then menu_box count (selected + 1) ks
      else if k = KeyEnter then Some (Some selected, ks)
      else if k = KeyEsc then Some (None, ks)
      else menu_box count selected ks)"

definition type_key :: "nat \<Rightarrow> string \<Rightarrow> key \<Rightarrow> string" where
  "type_key out_size out k =
     (case k of
        KeyBackspace \<Rightarrow> butlast out
      | KeyChar c \<Rightarrow>
          if isprint c \<and> length out + 1 < out_size \<and> length out < 58 then out @ [c] else out
      | _ \<Rightarrow> out)"

fun input_box :: "nat \<Rightarrow> string \<Rightarrow> key list \<Rightarrow> (bool \<times> string \<times> key list) option" where
  "input_box out_size out [] = None"
| "input_box out_size out (k # ks) =
     (if k = KeyEnter then Some (True, out, ks)
      else if k = KeyEsc then Some (False, out, ks)
      else input_box out_size (type_key out_size out k) ks)"

lemma message_box_length: "message_box ks = Some (b, r) \<Longrightarrow> length r < length ks"
  by (induction ks) (auto split: if_splits)

lemma menu_box_length: "menu_box n s ks = Some (x, r) \<Longrightarrow> length r < length ks"
  by (induction n s ks rule: menu_box.induct) (auto split: if_splits)

lemma input_box_length: "input_box n out ks = Some (b, out', r) \<Longrightarrow> length r < length ks"
  by (induction n out ks rule: input_box.induct) (auto split: if_splits)

definition confirm_text :: "InstallerConfig \<Rightarrow> string" where
  "confirm_text cfg =
     trunc 96 ((if c_action cfg = INSTALLER_ACTION_UPDATE then ''UPDATE '' else ''ERASE '') @ c_disk cfg)"

definition confirm_accepts :: "InstallerConfig \<Rightarrow> string \<Rightarrow> bool" where
  "confirm_accepts cfg typed \<longleftrightarrow>
     (c_action cfg = INSTALLER_ACTION_UPDATE \<and> typed = confirm_text cfg)
     \<or> (c_action cfg \<noteq> INSTALLER_ACTION_UPDATE
        \<and> installer_confirmation_phrase_matches (Some (c_disk cfg)) (Some typed))"

function confirm_loop :: "InstallerConfig \<Rightarrow> key list \<Rightarrow> (bool \<times> key list) option" where
  "confirm_loop cfg ks =
     (case input_box 96 [] ks of
        None \<Rightarrow> None
      | Some (ok, typed, ks1) \<Rightarrow>
          if \<not> ok then Some (False, ks1)
          else if confirm_accepts cfg typed then Some (True, ks1)
          else (case message_box ks1 of None \<Rightarrow> None | Some (_, ks2) \<Rightarrow> confirm_loop cfg ks2))"
  by pat_completeness auto
termination
  by (relation "measure (\<lambda>(cfg, ks). length ks)")
     (auto dest!: input_box_length message_box_length)

declare confirm_loop.simps [simp del]

definition confirm_phrase_box :: "InstallerConfig \<Rightarrow> key list \<Rightarrow> (bool \<times> key list) option" where
  "confirm_phrase_box cfg ks =
     (case message_box ks of
        None \<Rightarrow> None
      | Some (ok, ks1) \<Rightarrow> if ok then confirm_loop cfg ks1 else Some (False, ks1))"

function password_pair_box :: "nat \<Rightarrow> key list \<Rightarrow> (bool \<times> string \<times> key list) option" where
  "password_pair_box out_size ks =
     (case input_box out_size [] ks of
        None \<Rightarrow> None
      | Some (ok, password, ks1) \<Rightarrow>
          if \<not> ok then Some (False, password, ks1)
          else (case input_box 128 [] ks1 of
            None \<Rightarrow> None
          | Some (ok', confirm, ks2) \<Rightarrow>
              if \<not> ok' then Some (False, password, ks2)
              else if password \<noteq> [] \<and> password = confirm then Some (True, password, ks2)
              else (case message_box ks2 of None \<Rightarrow> None
                    | Some (_, ks3) \<Rightarrow> password_pair_box out_size ks3)))"
  by pat_completeness auto
termination
  by (relation "measure (\<lambda>(out_size, ks). length ks)")
     (auto dest!: input_box_length message_box_length)

declare password_pair_box.simps [simp del]

section \<open>Steps\<close>

datatype WizardStep =
    STEP_WELCOME | STEP_ACTION | STEP_MEDIA | STEP_DISK | STEP_BOOT | STEP_ACPI | STEP_PARTSIZE
  | STEP_HOSTNAME | STEP_USER | STEP_USERPASS | STEP_ROOTPASS | STEP_CONFIRM | STEP_SUMMARY

text \<open>The order of the enumeration.\<close>

fun step_index :: "WizardStep \<Rightarrow> nat" where
  "step_index STEP_WELCOME = 0"
| "step_index STEP_ACTION = 1"
| "step_index STEP_MEDIA = 2"
| "step_index STEP_DISK = 3"
| "step_index STEP_BOOT = 4"
| "step_index STEP_ACPI = 5"
| "step_index STEP_PARTSIZE = 6"
| "step_index STEP_HOSTNAME = 7"
| "step_index STEP_USER = 8"
| "step_index STEP_USERPASS = 9"
| "step_index STEP_ROOTPASS = 10"
| "step_index STEP_CONFIRM = 11"
| "step_index STEP_SUMMARY = 12"

instantiation WizardStep :: linorder
begin

definition less_eq_WizardStep :: "WizardStep \<Rightarrow> WizardStep \<Rightarrow> bool" where
  "less_eq_WizardStep a b \<longleftrightarrow> step_index a \<le> step_index b"

definition less_WizardStep :: "WizardStep \<Rightarrow> WizardStep \<Rightarrow> bool" where
  "less_WizardStep a b \<longleftrightarrow> step_index a < step_index b"

instance
proof
  fix a b :: WizardStep
  assume "a \<le> b" "b \<le> a"
  then show "a = b" by (cases a; cases b) (simp_all add: less_eq_WizardStep_def)
qed (auto simp: less_eq_WizardStep_def less_WizardStep_def)

end

fun previous_step :: "WizardStep \<Rightarrow> WizardStep" where
  "previous_step STEP_ACTION = STEP_WELCOME"
| "previous_step STEP_MEDIA = STEP_ACTION"
| "previous_step STEP_DISK = STEP_MEDIA"
| "previous_step STEP_BOOT = STEP_DISK"
| "previous_step STEP_ACPI = STEP_BOOT"
| "previous_step STEP_PARTSIZE = STEP_ACPI"
| "previous_step STEP_HOSTNAME = STEP_PARTSIZE"
| "previous_step STEP_USER = STEP_HOSTNAME"
| "previous_step STEP_USERPASS = STEP_USER"
| "previous_step STEP_ROOTPASS = STEP_USERPASS"
| "previous_step STEP_CONFIRM = STEP_ROOTPASS"
| "previous_step STEP_SUMMARY = STEP_CONFIRM"
| "previous_step STEP_WELCOME = STEP_WELCOME"

fun next_step :: "WizardStep \<Rightarrow> WizardStep" where
  "next_step STEP_WELCOME = STEP_ACTION"
| "next_step STEP_ACTION = STEP_MEDIA"
| "next_step STEP_MEDIA = STEP_DISK"
| "next_step STEP_DISK = STEP_BOOT"
| "next_step STEP_BOOT = STEP_ACPI"
| "next_step STEP_ACPI = STEP_PARTSIZE"
| "next_step STEP_PARTSIZE = STEP_HOSTNAME"
| "next_step STEP_HOSTNAME = STEP_USER"
| "next_step STEP_USER = STEP_USERPASS"
| "next_step STEP_USERPASS = STEP_ROOTPASS"
| "next_step STEP_ROOTPASS = STEP_CONFIRM"
| "next_step STEP_CONFIRM = STEP_SUMMARY"
| "next_step STEP_SUMMARY = STEP_SUMMARY"

definition next_step_for_config :: "WizardStep \<Rightarrow> InstallerConfig \<Rightarrow> WizardStep" where
  "next_step_for_config st cfg =
     (if st = STEP_BOOT \<and> c_action cfg = INSTALLER_ACTION_UPDATE then STEP_CONFIRM
      else if st = STEP_BOOT \<and> c_action cfg = INSTALLER_ACTION_FORMAT_ONLY then STEP_PARTSIZE
      else if st = STEP_PARTSIZE \<and> c_action cfg = INSTALLER_ACTION_FORMAT_ONLY then STEP_CONFIRM
      else next_step st)"

definition previous_step_for_config :: "WizardStep \<Rightarrow> InstallerConfig \<Rightarrow> WizardStep" where
  "previous_step_for_config st cfg =
     (if st = STEP_CONFIRM \<and> c_action cfg = INSTALLER_ACTION_UPDATE then STEP_BOOT
      else if st = STEP_CONFIRM \<and> c_action cfg = INSTALLER_ACTION_FORMAT_ONLY then STEP_PARTSIZE
      else if st = STEP_PARTSIZE \<and> c_action cfg = INSTALLER_ACTION_FORMAT_ONLY then STEP_BOOT
      else previous_step st)"

section \<open>The wizard\<close>

text \<open>The local variables of \<^verbatim>\<open>installer_ui_collect_config\<close>.\<close>

record wizard =
  w_step :: WizardStep
  w_cfg :: InstallerConfig
  w_media_selected :: nat
  w_disk_selected :: nat
  w_action_selected :: nat
  w_boot_selected :: nat
  w_acpi_selected :: nat

text \<open>
  The devices that a scan finds may differ from one call to the next; they are given as a function
  of the keys that are still to come.
\<close>

record devices =
  u_media :: "key list \<Rightarrow> InstallerDisk list option"
  u_disks :: "key list \<Rightarrow> InstallerDisk list option"

datatype turn = Continue wizard | Quit | Start InstallerConfig

type_synonym turn_result = "(turn \<times> key list) option"

definition go_on :: "wizard \<Rightarrow> turn" where
  "go_on w = Continue (w \<lparr>w_step := next_step_for_config (w_step w) (w_cfg w)\<rparr>)"

definition go_back :: "wizard \<Rightarrow> turn" where
  "go_back w = Continue (w \<lparr>w_step := previous_step_for_config (w_step w) (w_cfg w)\<rparr>)"

definition initial_wizard :: wizard where
  "initial_wizard =
     \<lparr>w_step = STEP_WELCOME,
      w_cfg = \<lparr>c_install_media = [], c_disk = [], c_action = INSTALLER_ACTION_INSTALL,
        c_boot_mode = INSTALLER_BOOT_BIOS, c_acpi_mode = INSTALLER_ACPI_ON, c_part_size = [],
        c_username = [], c_password = [], c_root_password = [], c_hostname = ''adavalinux''\<rparr>,
      w_media_selected = 0, w_disk_selected = 0, w_action_selected = 0, w_boot_selected = 0,
      w_acpi_selected = 0\<rparr>"

text \<open>A message with one way on, and a menu: \<open>Esc\<close> goes back, a choice is used.\<close>

definition notice :: "wizard \<Rightarrow> key list \<Rightarrow> turn_result" where
  "notice w ks = map_option (\<lambda>(_, r). (go_back w, r)) (message_box ks)"

definition pick :: "wizard \<Rightarrow> nat \<Rightarrow> nat \<Rightarrow> (nat \<Rightarrow> wizard) \<Rightarrow> key list \<Rightarrow> turn_result" where
  "pick w count selected use ks =
     map_option (\<lambda>(s, r). ((case s of None \<Rightarrow> go_back w | Some i \<Rightarrow> go_on (use i)), r)) (menu_box count selected ks)"

definition action_of :: "nat \<Rightarrow> InstallerAction" where
  "action_of s = [INSTALLER_ACTION_INSTALL, INSTALLER_ACTION_FORMAT_ONLY, INSTALLER_ACTION_UPDATE] ! s"

definition welcome_turn :: "wizard \<Rightarrow> key list \<Rightarrow> turn_result" where
  "welcome_turn w ks = map_option (\<lambda>(ok, r). (if ok then go_on w else Quit, r)) (message_box ks)"

definition action_turn :: "wizard \<Rightarrow> key list \<Rightarrow> turn_result" where
  "action_turn w = pick w 3 (w_action_selected w)
     (\<lambda>s. w \<lparr>w_action_selected := s, w_cfg := (w_cfg w) \<lparr>c_action := action_of s\<rparr>\<rparr>)"

definition use_media :: "wizard \<Rightarrow> InstallerDisk list \<Rightarrow> nat \<Rightarrow> wizard" where
  "use_media w media s =
     (let cfg = (w_cfg w) \<lparr>c_install_media := trunc 64 (d_path (media ! s))\<rparr> in
      if c_disk cfg = c_install_media cfg
      then w \<lparr>w_media_selected := s, w_cfg := cfg \<lparr>c_disk := []\<rparr>, w_disk_selected := 0\<rparr>
      else w \<lparr>w_media_selected := s, w_cfg := cfg\<rparr>)"

definition media_turn :: "devices \<Rightarrow> wizard \<Rightarrow> key list \<Rightarrow> turn_result" where
  "media_turn u w ks =
     (case u_media u ks of
        None \<Rightarrow> notice w ks
      | Some media \<Rightarrow>
          if media = [] then notice w ks
          else
            let w' = (if w_media_selected w \<ge> length media then w \<lparr>w_media_selected := 0\<rparr> else w) in
            pick w' (length media) (w_media_selected w') (use_media w' media) ks)"

definition available_disks :: "InstallerConfig \<Rightarrow> InstallerDisk list \<Rightarrow> InstallerDisk list" where
  "available_disks cfg = filter (\<lambda>d. installer_target_disk_available (Some (d_path d)) (Some (c_install_media cfg)))"

definition disk_turn :: "devices \<Rightarrow> wizard \<Rightarrow> key list \<Rightarrow> turn_result" where
  "disk_turn u w ks =
     (case u_disks u ks of
        None \<Rightarrow> notice w ks
      | Some disks \<Rightarrow>
          let avail = available_disks (w_cfg w) disks in
          if avail = [] then notice w ks
          else
            let w' = (if w_disk_selected w \<ge> length avail then w \<lparr>w_disk_selected := 0\<rparr> else w) in
            pick w' (length avail) (w_disk_selected w')
              (\<lambda>s. w' \<lparr>w_disk_selected := s, w_cfg := (w_cfg w') \<lparr>c_disk := trunc 64 (d_path (avail ! s))\<rparr>\<rparr>) ks)"

definition boot_turn :: "wizard \<Rightarrow> key list \<Rightarrow> turn_result" where
  "boot_turn w = pick w 2 (w_boot_selected w)
     (\<lambda>s. w \<lparr>w_boot_selected := s, w_cfg := (w_cfg w)
        \<lparr>c_boot_mode := (if s = 1 then INSTALLER_BOOT_UEFI else INSTALLER_BOOT_BIOS)\<rparr>\<rparr>)"

definition acpi_turn :: "wizard \<Rightarrow> key list \<Rightarrow> turn_result" where
  "acpi_turn w = pick w 2 (w_acpi_selected w)
     (\<lambda>s. w \<lparr>w_acpi_selected := s, w_cfg := (w_cfg w)
        \<lparr>c_acpi_mode := (if s = 1 then INSTALLER_ACPI_OFF else INSTALLER_ACPI_ON)\<rparr>\<rparr>)"

text \<open>The input boxes write into the configuration also when they are left with \<open>Esc\<close>.\<close>

definition partsize_turn :: "wizard \<Rightarrow> key list \<Rightarrow> turn_result" where
  "partsize_turn w ks =
     map_option (\<lambda>(ok, text, r).
       let w' = w \<lparr>w_cfg := (w_cfg w) \<lparr>c_part_size := text\<rparr>\<rparr> in (if ok then go_on w' else go_back w', r))
       (input_box 32 (c_part_size (w_cfg w)) ks)"

definition hostname_turn :: "wizard \<Rightarrow> key list \<Rightarrow> turn_result" where
  "hostname_turn w ks =
     map_option (\<lambda>(ok, text, r).
       if ok then
         (go_on (w \<lparr>w_cfg := (w_cfg w) \<lparr>c_hostname := (if text = [] then ''adavalinux'' else text)\<rparr>\<rparr>), r)
       else (go_back (w \<lparr>w_cfg := (w_cfg w) \<lparr>c_hostname := text\<rparr>\<rparr>), r))
       (input_box 64 (c_hostname (w_cfg w)) ks)"

definition user_turn :: "wizard \<Rightarrow> key list \<Rightarrow> turn_result" where
  "user_turn w ks =
     (case input_box 64 (c_username (w_cfg w)) ks of
        None \<Rightarrow> None
      | Some (ok, text, r) \<Rightarrow>
          let w' = w \<lparr>w_cfg := (w_cfg w) \<lparr>c_username := text\<rparr>\<rparr> in
          if \<not> ok then Some (go_back w', r)
          else if installer_valid_username (Some text) then Some (go_on w', r)
          else map_option (\<lambda>(_, r'). (Continue w', r')) (message_box r))"

definition password_turn :: "wizard \<Rightarrow> (string \<Rightarrow> wizard) \<Rightarrow> key list \<Rightarrow> turn_result" where
  "password_turn w set_pw ks =
     map_option (\<lambda>(ok, pw, r). (if ok then go_on (set_pw pw) else go_back (set_pw pw), r))
       (password_pair_box 128 ks)"

definition confirm_turn :: "wizard \<Rightarrow> key list \<Rightarrow> turn_result" where
  "confirm_turn w ks =
     map_option (\<lambda>(ok, r). (if ok then go_on w else go_back w, r)) (confirm_phrase_box (w_cfg w) ks)"

definition summary_turn :: "wizard \<Rightarrow> key list \<Rightarrow> turn_result" where
  "summary_turn w ks =
     map_option (\<lambda>(ok, r). (if ok then Start (w_cfg w) else go_back w, r)) (message_box ks)"

definition wizard_turn :: "devices \<Rightarrow> wizard \<Rightarrow> key list \<Rightarrow> turn_result" where
  "wizard_turn u w ks =
     (case w_step w of
        STEP_WELCOME \<Rightarrow> welcome_turn w ks
      | STEP_ACTION \<Rightarrow> action_turn w ks
      | STEP_MEDIA \<Rightarrow> media_turn u w ks
      | STEP_DISK \<Rightarrow> disk_turn u w ks
      | STEP_BOOT \<Rightarrow> boot_turn w ks
      | STEP_ACPI \<Rightarrow> acpi_turn w ks
      | STEP_PARTSIZE \<Rightarrow> partsize_turn w ks
      | STEP_HOSTNAME \<Rightarrow> hostname_turn w ks
      | STEP_USER \<Rightarrow> user_turn w ks
      | STEP_USERPASS \<Rightarrow> password_turn w (\<lambda>pw. w \<lparr>w_cfg := (w_cfg w) \<lparr>c_password := pw\<rparr>\<rparr>) ks
      | STEP_ROOTPASS \<Rightarrow> password_turn w (\<lambda>pw. w \<lparr>w_cfg := (w_cfg w) \<lparr>c_root_password := pw\<rparr>\<rparr>) ks
      | STEP_CONFIRM \<Rightarrow> confirm_turn w ks
      | STEP_SUMMARY \<Rightarrow> summary_turn w ks)"

lemma confirm_loop_length: "confirm_loop cfg ks = Some (b, r) \<Longrightarrow> length r < length ks"
proof (induction cfg ks rule: confirm_loop.induct)
  case (1 cfg ks)
  show ?case
    using "1.prems" "1.IH"
    by (subst (asm) confirm_loop.simps)
       (fastforce dest: input_box_length message_box_length split: option.splits prod.splits if_splits)
qed

lemma password_pair_box_cases:
  assumes "password_pair_box n ks = Some (b, pw, r)"
  obtains (left) "input_box n [] ks = Some (False, pw, r)" "\<not> b"
  | (left') k1 c where "input_box n [] ks = Some (True, pw, k1)" "input_box 128 [] k1 = Some (False, c, r)" "\<not> b"
  | (same) k1 where "input_box n [] ks = Some (True, pw, k1)" "input_box 128 [] k1 = Some (True, pw, r)"
      "pw \<noteq> []" "b"
  | (again) p c k1 k2 m k3 where "input_box n [] ks = Some (True, p, k1)"
      "input_box 128 [] k1 = Some (True, c, k2)" "message_box k2 = Some (m, k3)"
      "password_pair_box n k3 = Some (b, pw, r)"
proof (cases "input_box n [] ks")
  case None
  with assms show ?thesis by (subst (asm) password_pair_box.simps) simp
next
  case (Some x)
  obtain ok p k1 where x: "x = (ok, p, k1)" by (cases x)
  note box1 = Some [unfolded x]
  show ?thesis
  proof (cases "ok \<and> input_box 128 [] k1 \<noteq> None")
    case False
    with box1 assms left show ?thesis
      by (cases "input_box 128 [] k1"; subst (asm) password_pair_box.simps) (auto split: if_splits)
  next
    case True
    then obtain ok' c k2 where box2: "input_box 128 [] k1 = Some (ok', c, k2)" by auto
    show ?thesis
    proof (cases "ok' \<and> \<not> (p \<noteq> [] \<and> p = c)")
      case False
      with box1 box2 True assms left' same show ?thesis
        by (subst (asm) password_pair_box.simps) (auto split: if_splits)
    next
      case again_case: True
      with box1 box2 True assms obtain m k3 where "message_box k2 = Some (m, k3)"
        "password_pair_box n k3 = Some (b, pw, r)"
        by (subst (asm) password_pair_box.simps) (auto split: option.splits)
      with box1 box2 True again_case again show ?thesis by simp
    qed
  qed
qed

lemma password_pair_box_length: "password_pair_box n ks = Some (b, pw, r) \<Longrightarrow> length r < length ks"
proof (induction "length ks" arbitrary: ks rule: less_induct)
  case less
  from less.prems show ?case
  proof (cases rule: password_pair_box_cases)
    case (again p c k1 k2 m k3)
    with less.hyps [of k3] show ?thesis by (auto dest!: input_box_length message_box_length)
  qed (auto dest!: input_box_length)
qed

lemma confirm_phrase_box_length: "confirm_phrase_box cfg ks = Some (b, r) \<Longrightarrow> length r < length ks"
  by (fastforce simp: confirm_phrase_box_def dest: message_box_length confirm_loop_length
      split: option.splits prod.splits if_splits)

lemmas box_length = message_box_length menu_box_length input_box_length confirm_phrase_box_length
  password_pair_box_length

lemma pick_length: "pick w n s use ks = Some (t, r) \<Longrightarrow> length r < length ks"
  and notice_length: "notice w ks = Some (t, r) \<Longrightarrow> length r < length ks"
  by (auto simp: pick_def notice_def dest: box_length)

text \<open>Every turn reads at least one key.\<close>

lemma wizard_turn_length:
  assumes "wizard_turn u w ks = Some (t, r)"
  shows "length r < length ks"
proof -
  have user: "user_turn w ks = Some (t, r) \<Longrightarrow> length r < length ks"
    by (fastforce simp: user_turn_def Let_def dest: box_length split: option.splits prod.splits if_splits)
  have media: "media_turn u w ks = Some (t, r) \<Longrightarrow> length r < length ks"
    and disk: "disk_turn u w ks = Some (t, r) \<Longrightarrow> length r < length ks"
    by (auto simp: media_turn_def disk_turn_def Let_def dest: pick_length notice_length
        split: option.splits if_splits)
  show ?thesis
    using assms user media disk
    by (cases "w_step w")
       (auto simp: wizard_turn_def welcome_turn_def action_turn_def boot_turn_def acpi_turn_def
        partsize_turn_def hostname_turn_def password_turn_def confirm_turn_def summary_turn_def Let_def
        dest: pick_length box_length split: if_splits)
qed

function collect_config :: "devices \<Rightarrow> wizard \<Rightarrow> key list \<Rightarrow> (InstallerConfig option \<times> key list) option" where
  "collect_config u w ks =
     (case wizard_turn u w ks of
        None \<Rightarrow> None
      | Some (Quit, r) \<Rightarrow> Some (None, r)
      | Some (Start cfg, r) \<Rightarrow> Some (Some cfg, r)
      | Some (Continue w', r) \<Rightarrow> collect_config u w' r)"
  by pat_completeness auto
termination
  by (relation "measure (\<lambda>(u, w, ks). length ks)") (auto dest: wizard_turn_length)

declare collect_config.simps [simp del]

definition installer_ui_collect_config ::
  "devices \<Rightarrow> key list \<Rightarrow> (InstallerConfig option \<times> key list) option" where
  "installer_ui_collect_config u = collect_config u initial_wizard"

section \<open>The wizard as a transition system\<close>

inductive wizard_reaches :: "devices \<Rightarrow> wizard \<times> key list \<Rightarrow> wizard \<times> key list \<Rightarrow> bool" for u where
  here: "wizard_reaches u c c"
| turn: "wizard_reaches u c (w, ks) \<Longrightarrow> wizard_turn u w ks = Some (Continue w', r) \<Longrightarrow>
    wizard_reaches u c (w', r)"

inductive_cases wizard_reachesE: "wizard_reaches u c (w, ks)"

lemma wizard_reaches_first:
  "wizard_reaches u (w', r) c \<Longrightarrow> wizard_turn u w ks = Some (Continue w', r) \<Longrightarrow> wizard_reaches u (w, ks) c"
  by (induction "(w', r)" c rule: wizard_reaches.induct)
     (auto intro: wizard_reaches.intros)

text \<open>What the loop returns is what a last turn gives in a state it can get to.\<close>

lemma collect_config_reaches:
  "collect_config u w ks = Some (Some cfg, r) \<Longrightarrow>
    \<exists>w' ks'. wizard_reaches u (w, ks) (w', ks') \<and> wizard_turn u w' ks' = Some (Start cfg, r)"
proof (induction u w ks rule: collect_config.induct)
  case (1 u w ks)
  from "1.prems" obtain t r' where t: "wizard_turn u w ks = Some (t, r')"
    by (subst (asm) collect_config.simps) (auto split: option.splits)
  show ?case
  proof (cases t)
    case (Continue w')
    with t "1.prems" have "collect_config u w' r' = Some (Some cfg, r)"
      by (subst (asm) collect_config.simps) simp
    with "1.IH" [OF t refl Continue] t Continue show ?thesis
      by (blast intro: wizard_reaches_first)
  next
    case Quit
    with t "1.prems" show ?thesis by (subst (asm) collect_config.simps) simp
  next
    case (Start c)
    with t "1.prems" show ?thesis
      by (subst (asm) collect_config.simps) (auto intro: wizard_reaches.here)
  qed
qed

section \<open>What the wizard keeps\<close>

text \<open>The answers of the steps before \<open>st\<close> that the chosen operation needs.\<close>

definition config_ready :: "WizardStep \<Rightarrow> InstallerConfig \<Rightarrow> bool" where
  "config_ready st cfg \<longleftrightarrow>
     (STEP_DISK < st \<longrightarrow>
        installer_target_disk_available (Some (c_disk cfg)) (Some (c_install_media cfg)))
     \<and> (c_action cfg = INSTALLER_ACTION_INSTALL \<longrightarrow>
          (STEP_HOSTNAME < st \<longrightarrow> c_hostname cfg \<noteq> [])
          \<and> (STEP_USER < st \<longrightarrow> installer_valid_username (Some (c_username cfg)))
          \<and> (STEP_USERPASS < st \<longrightarrow> c_password cfg \<noteq> [])
          \<and> (STEP_ROOTPASS < st \<longrightarrow> c_root_password cfg \<noteq> []))"

definition wizard_inv :: "wizard \<Rightarrow> bool" where
  "wizard_inv w \<longleftrightarrow> config_ready (w_step w) (w_cfg w)"

definition devices_fit :: "devices \<Rightarrow> bool" where
  "devices_fit u \<longleftrightarrow> (\<forall>ks ds. u_disks u ks = Some ds \<longrightarrow> list_all (\<lambda>d. length (d_path d) < 64) ds)"

lemma config_ready_mono: "st' \<le> st \<Longrightarrow> config_ready st cfg \<Longrightarrow> config_ready st' cfg"
  by (auto simp: config_ready_def dest: less_le_trans)

lemma previous_step_le: "previous_step_for_config st cfg \<le> st"
  by (cases st) (simp_all add: previous_step_for_config_def less_eq_WizardStep_def)

lemma previous_step_less: "st \<noteq> STEP_WELCOME \<Longrightarrow> previous_step_for_config st cfg < st"
  by (cases st) (simp_all add: previous_step_for_config_def less_WizardStep_def)

lemma inv_go_back: "go_back w = Continue w' \<Longrightarrow> wizard_inv w \<Longrightarrow> wizard_inv w'"
  using config_ready_mono [OF previous_step_le] by (auto simp: go_back_def wizard_inv_def)

lemma inv_go_on:
  assumes "go_on w = Continue w'"
    and "config_ready (next_step_for_config (w_step w) (w_cfg w)) (w_cfg w)"
  shows "wizard_inv w'"
  using assms by (auto simp: go_on_def wizard_inv_def)

text \<open>Moving on from a step without an answer of its own that is needed later.\<close>

lemma config_ready_next:
  assumes "config_ready st cfg" and "st \<notin> {STEP_DISK, STEP_HOSTNAME, STEP_USER, STEP_USERPASS, STEP_ROOTPASS}"
  shows "config_ready (next_step_for_config st cfg) cfg"
  using assms by (cases st; cases "c_action cfg")
    (simp_all add: next_step_for_config_def config_ready_def less_WizardStep_def)

lemma notice_inv: "notice w ks = Some (Continue w', r) \<Longrightarrow> wizard_inv w \<Longrightarrow> wizard_inv w'"
  by (auto simp: notice_def intro: inv_go_back)

lemma menu_box_range: "menu_box n s ks = Some (Some i, r) \<Longrightarrow> s < n \<Longrightarrow> i < n"
  by (induction n s ks rule: menu_box.induct) (auto split: if_splits)

lemma pick_inv:
  assumes "pick w n s use ks = Some (Continue w', r)" and "wizard_inv w"
    and "\<And>i. menu_box n s ks = Some (Some i, r) \<Longrightarrow>
      config_ready (next_step_for_config (w_step (use i)) (w_cfg (use i))) (w_cfg (use i))"
  shows "wizard_inv w'"
  using assms by (auto simp: pick_def intro: inv_go_back inv_go_on split: option.splits)

text \<open>What a step before the one in question does not depend on.\<close>

lemma config_ready_update:
  "config_ready st cfg \<Longrightarrow> config_ready st (cfg \<lparr>c_boot_mode := b\<rparr>)"
  "config_ready st cfg \<Longrightarrow> config_ready st (cfg \<lparr>c_acpi_mode := x\<rparr>)"
  "config_ready st cfg \<Longrightarrow> config_ready st (cfg \<lparr>c_part_size := t\<rparr>)"
  "st \<le> STEP_HOSTNAME \<Longrightarrow> config_ready st cfg \<Longrightarrow> config_ready st (cfg \<lparr>c_hostname := t\<rparr>)"
  "st \<le> STEP_USER \<Longrightarrow> config_ready st cfg \<Longrightarrow> config_ready st (cfg \<lparr>c_username := t\<rparr>)"
  "st \<le> STEP_USERPASS \<Longrightarrow> config_ready st cfg \<Longrightarrow> config_ready st (cfg \<lparr>c_password := t\<rparr>)"
  "st \<le> STEP_ROOTPASS \<Longrightarrow> config_ready st cfg \<Longrightarrow> config_ready st (cfg \<lparr>c_root_password := t\<rparr>)"
  by (auto simp: config_ready_def)

lemma early_ready: "st \<le> STEP_DISK \<Longrightarrow> config_ready st cfg"
  by (cases st) (simp_all add: config_ready_def less_WizardStep_def less_eq_WizardStep_def)

lemma menu_turns_inv:
  assumes "wizard_inv w"
  shows "w_step w = STEP_ACTION \<Longrightarrow> action_turn w ks = Some (Continue w', r) \<Longrightarrow> wizard_inv w'"
    and "w_step w = STEP_BOOT \<Longrightarrow> boot_turn w ks = Some (Continue w', r) \<Longrightarrow> wizard_inv w'"
    and "w_step w = STEP_ACPI \<Longrightarrow> acpi_turn w ks = Some (Continue w', r) \<Longrightarrow> wizard_inv w'"
proof -
  assume *: "w_step w = STEP_ACTION" "action_turn w ks = Some (Continue w', r)"
  show "wizard_inv w'"
    by (rule pick_inv [OF *(2) [unfolded action_turn_def] assms])
       (simp add: * next_step_for_config_def early_ready less_eq_WizardStep_def)
next
  assume *: "w_step w = STEP_BOOT" "boot_turn w ks = Some (Continue w', r)"
  show "wizard_inv w'"
    by (rule pick_inv [OF *(2) [unfolded boot_turn_def] assms], rule config_ready_next)
       (use assms in \<open>simp_all add: *(1) wizard_inv_def config_ready_update\<close>)
next
  assume *: "w_step w = STEP_ACPI" "acpi_turn w ks = Some (Continue w', r)"
  show "wizard_inv w'"
    by (rule pick_inv [OF *(2) [unfolded acpi_turn_def] assms], rule config_ready_next)
       (use assms in \<open>simp_all add: *(1) wizard_inv_def config_ready_update\<close>)
qed

lemma media_turn_inv:
  assumes "wizard_inv w" and "w_step w = STEP_MEDIA" and "media_turn u w ks = Some (Continue w', r)"
  shows "wizard_inv w'"
proof (cases "u_media u ks = None \<or> u_media u ks = Some []")
  case True
  with assms show ?thesis by (auto simp: media_turn_def intro: notice_inv)
next
  case False
  then obtain media where media: "u_media u ks = Some media" "media \<noteq> []" by auto
  define v where "v = (if w_media_selected w \<ge> length media then w \<lparr>w_media_selected := 0\<rparr> else w)"
  have turn: "pick v (length media) (w_media_selected v) (use_media v media) ks = Some (Continue w', r)"
    using assms(3) media by (simp add: media_turn_def v_def Let_def)
  show ?thesis
  proof (rule pick_inv [OF turn])
    show "wizard_inv v" using assms(1) by (simp add: v_def wizard_inv_def)
    have "w_step (use_media v media i) = STEP_MEDIA" for i
      using assms(2) by (simp add: use_media_def v_def Let_def)
    then show "config_ready (next_step_for_config (w_step (use_media v media i)) (w_cfg (use_media v media i)))
        (w_cfg (use_media v media i))" for i
      by (intro early_ready) (simp add: next_step_for_config_def less_eq_WizardStep_def)
  qed
qed

lemma available_disks_nth:
  assumes "i < length (available_disks cfg ds)" and "list_all (\<lambda>d. length (d_path d) < 64) ds"
  shows "installer_target_disk_available (Some (trunc 64 (d_path (available_disks cfg ds ! i))))
    (Some (c_install_media cfg))"
proof -
  have "available_disks cfg ds ! i \<in> set (available_disks cfg ds)" using assms(1) by simp
  then have "installer_target_disk_available (Some (d_path (available_disks cfg ds ! i)))
      (Some (c_install_media cfg))" "length (d_path (available_disks cfg ds ! i)) < 64"
    using assms(2) by (auto simp: available_disks_def list_all_iff)
  then show ?thesis by (simp add: trunc_def)
qed

lemma disk_turn_inv:
  assumes "wizard_inv w" and "w_step w = STEP_DISK" and "disk_turn u w ks = Some (Continue w', r)"
    and "devices_fit u"
  shows "wizard_inv w'"
proof (cases "\<exists>ds. u_disks u ks = Some ds \<and> available_disks (w_cfg w) ds \<noteq> []")
  case False
  then have "disk_turn u w ks = notice w ks" by (simp add: disk_turn_def Let_def split: option.split)
  with assms show ?thesis by (auto intro: notice_inv)
next
  case True
  then obtain ds where ds: "u_disks u ks = Some ds" "available_disks (w_cfg w) ds \<noteq> []" by auto
  let ?avail = "available_disks (w_cfg w) ds"
  define v where "v = (if w_disk_selected w \<ge> length ?avail then w \<lparr>w_disk_selected := 0\<rparr> else w)"
  let ?use = "\<lambda>s. v \<lparr>w_disk_selected := s, w_cfg := (w_cfg v) \<lparr>c_disk := trunc 64 (d_path (?avail ! s))\<rparr>\<rparr>"
  have turn: "pick v (length ?avail) (w_disk_selected v) ?use ks = Some (Continue w', r)"
    using assms(3) ds by (simp add: disk_turn_def v_def Let_def)
  have sel: "w_disk_selected v < length ?avail" using ds(2) by (auto simp: v_def)
  have v: "w_step v = STEP_DISK" "w_cfg v = w_cfg w" using assms(2) by (simp_all add: v_def)
  show ?thesis
  proof (rule pick_inv [OF turn])
    show "wizard_inv v" using assms(1) by (simp add: v_def wizard_inv_def)
    fix i
    assume "menu_box (length ?avail) (w_disk_selected v) ks = Some (Some i, r)"
    then have "i < length ?avail" using sel by (rule menu_box_range)
    moreover have "list_all (\<lambda>d. length (d_path d) < 64) ds" using assms(4) ds(1) by (simp add: devices_fit_def)
    ultimately have "installer_target_disk_available (Some (trunc 64 (d_path (?avail ! i))))
        (Some (c_install_media (w_cfg w)))" by (rule available_disks_nth)
    then show "config_ready (next_step_for_config (w_step (?use i)) (w_cfg (?use i))) (w_cfg (?use i))"
      by (simp add: v next_step_for_config_def config_ready_def less_WizardStep_def)
  qed
qed

text \<open>The steps that ask for text: the answer is stored either way, and on \<open>Enter\<close> it has to be
  one the next step can rely on.\<close>

lemma text_turn_inv:
  assumes "(if ok then go_on v else go_back v) = Continue w'"
    and "config_ready (w_step v) (w_cfg v)"
    and "ok \<Longrightarrow> config_ready (next_step_for_config (w_step v) (w_cfg v)) (w_cfg v)"
  shows "wizard_inv w'"
proof (cases ok)
  case True
  with assms show ?thesis by (auto intro: inv_go_on)
next
  case False
  with assms have "go_back v = Continue w'" "wizard_inv v" by (simp_all add: wizard_inv_def)
  then show ?thesis by (rule inv_go_back)
qed

lemma answered:
  "config_ready STEP_HOSTNAME cfg \<Longrightarrow> t \<noteq> [] \<Longrightarrow> config_ready STEP_USER (cfg \<lparr>c_hostname := t\<rparr>)"
  "config_ready STEP_USER cfg \<Longrightarrow> installer_valid_username (Some t) \<Longrightarrow>
    config_ready STEP_USERPASS (cfg \<lparr>c_username := t\<rparr>)"
  "config_ready STEP_USERPASS cfg \<Longrightarrow> t \<noteq> [] \<Longrightarrow> config_ready STEP_ROOTPASS (cfg \<lparr>c_password := t\<rparr>)"
  "config_ready STEP_ROOTPASS cfg \<Longrightarrow> t \<noteq> [] \<Longrightarrow> config_ready STEP_CONFIRM (cfg \<lparr>c_root_password := t\<rparr>)"
  by (simp_all add: config_ready_def less_WizardStep_def)

lemma partsize_turn_inv:
  assumes "wizard_inv w" and "w_step w = STEP_PARTSIZE" and "partsize_turn w ks = Some (Continue w', r)"
  shows "wizard_inv w'"
proof -
  obtain ok t r1 where box: "input_box 32 (c_part_size (w_cfg w)) ks = Some (ok, t, r1)"
    using assms(3) by (auto simp: partsize_turn_def)
  let ?v = "w \<lparr>w_cfg := (w_cfg w) \<lparr>c_part_size := t\<rparr>\<rparr>"
  have turn: "(if ok then go_on ?v else go_back ?v) = Continue w'"
    using assms(3) box by (simp add: partsize_turn_def Let_def)
  have "config_ready STEP_PARTSIZE (w_cfg ?v)"
    using assms(1,2) by (simp add: wizard_inv_def config_ready_update)
  with assms(2) show ?thesis by (intro text_turn_inv [OF turn]) (simp_all add: config_ready_next)
qed

lemma hostname_turn_inv:
  assumes "wizard_inv w" and "w_step w = STEP_HOSTNAME" and "hostname_turn w ks = Some (Continue w', r)"
  shows "wizard_inv w'"
proof -
  obtain ok t r1 where box: "input_box 64 (c_hostname (w_cfg w)) ks = Some (ok, t, r1)"
    using assms(3) by (auto simp: hostname_turn_def)
  define name where "name = (if ok \<and> t = [] then ''adavalinux'' else t)"
  let ?v = "w \<lparr>w_cfg := (w_cfg w) \<lparr>c_hostname := name\<rparr>\<rparr>"
  have turn: "(if ok then go_on ?v else go_back ?v) = Continue w'"
    using assms(3) box by (cases ok) (simp_all add: hostname_turn_def name_def)
  have "config_ready STEP_HOSTNAME (w_cfg w)" "ok \<Longrightarrow> name \<noteq> []"
    using assms(1,2) by (simp_all add: wizard_inv_def name_def)
  with assms(2) show ?thesis
    by (intro text_turn_inv [OF turn])
       (simp_all add: config_ready_update answered next_step_for_config_def less_eq_WizardStep_def)
qed

lemma password_pair_box_nonempty: "password_pair_box n ks = Some (True, pw, r) \<Longrightarrow> pw \<noteq> []"
proof (induction "length ks" arbitrary: ks rule: less_induct)
  case less
  from less.prems show ?case
  proof (cases rule: password_pair_box_cases)
    case (again p c k1 k2 m k3)
    with less.hyps [of k3] show ?thesis by (auto dest!: input_box_length message_box_length)
  qed auto
qed

lemma password_turn_inv:
  assumes "password_turn w use ks = Some (Continue w', r)"
    and "\<And>pw. config_ready (w_step (use pw)) (w_cfg (use pw))"
    and "\<And>pw. pw \<noteq> [] \<Longrightarrow> config_ready (next_step_for_config (w_step (use pw)) (w_cfg (use pw))) (w_cfg (use pw))"
  shows "wizard_inv w'"
proof -
  obtain ok pw where box: "password_pair_box 128 ks = Some (ok, pw, r)"
    and turn: "(if ok then go_on (use pw) else go_back (use pw)) = Continue w'"
    using assms(1) by (auto simp: password_turn_def)
  have "pw \<noteq> []" if ok using box that by (auto dest: password_pair_box_nonempty)
  with assms(2,3) show ?thesis by (intro text_turn_inv [OF turn]) auto
qed

lemma user_turn_inv:
  assumes "wizard_inv w" and "w_step w = STEP_USER" and "user_turn w ks = Some (Continue w', r)"
  shows "wizard_inv w'"
proof -
  have ready: "config_ready STEP_USER (w_cfg w)" using assms(1,2) by (simp add: wizard_inv_def)
  obtain ok t r1 where box: "input_box 64 (c_username (w_cfg w)) ks = Some (ok, t, r1)"
    using assms(3) by (auto simp: user_turn_def split: option.splits)
  let ?v = "w \<lparr>w_cfg := (w_cfg w) \<lparr>c_username := t\<rparr>\<rparr>"
  have inv: "wizard_inv ?v"
    using ready assms(2) by (simp add: wizard_inv_def config_ready_update less_eq_WizardStep_def)
  show ?thesis
  proof (cases "ok \<and> \<not> installer_valid_username (Some t)")
    case True
    with assms(3) box have "w' = ?v" by (auto simp: user_turn_def Let_def)
    with inv show ?thesis by simp
  next
    case False
    then have turn: "(if ok then go_on ?v else go_back ?v) = Continue w'"
      using assms(3) box by (cases ok) (simp_all add: user_turn_def Let_def)
    show ?thesis
      using inv False ready assms(2)
      by (intro text_turn_inv [OF turn])
         (simp_all add: wizard_inv_def answered next_step_for_config_def)
  qed
qed

text \<open>Every turn keeps the invariant, so it holds in every state the wizard gets to.\<close>

lemma wizard_turn_inv:
  assumes "devices_fit u" and "wizard_inv w" and "wizard_turn u w ks = Some (Continue w', r)"
  shows "wizard_inv w'"
proof (cases "w_step w")
  case STEP_WELCOME
  with assms(3) have "go_on w = Continue w'"
    by (auto simp: wizard_turn_def welcome_turn_def split: if_splits)
  with STEP_WELCOME assms(2) show ?thesis
    by (intro inv_go_on [of w w']) (simp_all add: wizard_inv_def config_ready_next)
next
  case STEP_USERPASS
  with assms(2) have "config_ready STEP_USERPASS (w_cfg w)" by (simp add: wizard_inv_def)
  with STEP_USERPASS assms(3) show ?thesis
    by (intro password_turn_inv [of w "\<lambda>pw. w \<lparr>w_cfg := (w_cfg w) \<lparr>c_password := pw\<rparr>\<rparr>" ks w' r])
       (simp_all add: wizard_turn_def config_ready_update answered next_step_for_config_def)
next
  case STEP_ROOTPASS
  with assms(2) have "config_ready STEP_ROOTPASS (w_cfg w)" by (simp add: wizard_inv_def)
  with STEP_ROOTPASS assms(3) show ?thesis
    by (intro password_turn_inv [of w "\<lambda>pw. w \<lparr>w_cfg := (w_cfg w) \<lparr>c_root_password := pw\<rparr>\<rparr>" ks w' r])
       (simp_all add: wizard_turn_def config_ready_update answered next_step_for_config_def)
next
  case STEP_CONFIRM
  then obtain ok where turn: "(if ok then go_on w else go_back w) = Continue w'"
    using assms(3) by (auto simp: wizard_turn_def confirm_turn_def)
  show ?thesis
    using assms(2) STEP_CONFIRM by (intro text_turn_inv [OF turn]) (simp_all add: wizard_inv_def config_ready_next)
next
  case STEP_SUMMARY
  with assms show ?thesis
    by (auto simp: wizard_turn_def summary_turn_def intro: inv_go_back split: if_splits)
qed (use assms in \<open>auto simp: wizard_turn_def
  intro: menu_turns_inv media_turn_inv disk_turn_inv partsize_turn_inv hostname_turn_inv user_turn_inv\<close>)

lemma wizard_reaches_inv:
  "wizard_reaches u c d \<Longrightarrow> devices_fit u \<Longrightarrow> wizard_inv (fst c) \<Longrightarrow> wizard_inv (fst d)"
  by (induction rule: wizard_reaches.induct) (auto intro: wizard_turn_inv)

lemma initial_wizard_inv: "wizard_inv initial_wizard"
  by (simp add: wizard_inv_def initial_wizard_def early_ready less_eq_WizardStep_def)

text \<open>Only the summary starts an operation.\<close>

lemma turn_starts:
  assumes "wizard_turn u w ks = Some (Start cfg, r)"
  shows "w_step w = STEP_SUMMARY \<and> cfg = w_cfg w \<and> message_box ks = Some (True, r)"
proof -
  have pick: "pick v n s use ks \<noteq> Some (Start cfg, r)" for v n s use
    by (auto simp: pick_def go_on_def go_back_def split: option.splits)
  show ?thesis
    using assms
    by (cases "w_step w")
       (auto simp: wizard_turn_def welcome_turn_def action_turn_def media_turn_def disk_turn_def
        boot_turn_def acpi_turn_def partsize_turn_def hostname_turn_def user_turn_def password_turn_def
        confirm_turn_def summary_turn_def notice_def Let_def pick go_on_def go_back_def
        split: if_splits option.splits prod.splits)
qed

text \<open>And only the confirmed phrase leads to the summary.\<close>

lemma next_is_summary: "next_step_for_config st cfg = STEP_SUMMARY \<Longrightarrow> st = STEP_CONFIRM \<or> st = STEP_SUMMARY"
  by (cases st) (auto simp: next_step_for_config_def split: if_splits)

lemma previous_not_summary: "previous_step_for_config st cfg \<noteq> STEP_SUMMARY"
  by (cases st) (auto simp: previous_step_for_config_def)

lemma go_on_step [simp]: "(go_on v = Continue w') \<longleftrightarrow> w' = v \<lparr>w_step := next_step_for_config (w_step v) (w_cfg v)\<rparr>"
  and go_back_step [simp]:
    "(go_back v = Continue w') \<longleftrightarrow> w' = v \<lparr>w_step := previous_step_for_config (w_step v) (w_cfg v)\<rparr>"
  by (auto simp: go_on_def go_back_def)

lemma pick_step:
  "pick v n s use ks = Some (Continue w', r) \<Longrightarrow> (\<And>i. w_step (use i) = w_step v) \<Longrightarrow>
    w_step w' = STEP_SUMMARY \<Longrightarrow> w_step v \<in> {STEP_CONFIRM, STEP_SUMMARY}"
  by (auto simp: pick_def previous_not_summary dest: next_is_summary split: option.splits)

lemma device_turns_not_summary:
  assumes "w_step w' = STEP_SUMMARY" and "w_step w \<notin> {STEP_CONFIRM, STEP_SUMMARY}"
  shows "media_turn u w ks \<noteq> Some (Continue w', r)" and "disk_turn u w ks \<noteq> Some (Continue w', r)"
proof -
  have notice: "notice w ks \<noteq> Some (Continue w', r)"
    using assms(1) by (auto simp: notice_def previous_not_summary)
  have pick: "pick v n s use ks \<noteq> Some (Continue w', r)"
    if "w_step v = w_step w" "\<And>i. w_step (use i) = w_step w" for v n s use
    using pick_step [of v n s use ks w' r] that assms by auto
  have use: "w_step (use_media v media i) = w_step v" for v media i by (simp add: use_media_def Let_def)
  show "media_turn u w ks \<noteq> Some (Continue w', r)"
    using notice by (simp add: media_turn_def Let_def pick use split: option.split)
  show "disk_turn u w ks \<noteq> Some (Continue w', r)"
    using notice by (simp add: disk_turn_def Let_def pick split: option.split)
qed

lemma turn_to_summary:
  assumes "wizard_turn u w ks = Some (Continue w', r)" and "w_step w' = STEP_SUMMARY"
  shows "w_step w = STEP_CONFIRM \<and> w_cfg w' = w_cfg w \<and> confirm_phrase_box (w_cfg w) ks = Some (True, r)"
proof (cases "w_step w = STEP_CONFIRM \<or> w_step w = STEP_SUMMARY")
  case True
  with assms show ?thesis
    by (auto simp: wizard_turn_def confirm_turn_def summary_turn_def previous_not_summary split: if_splits)
next
  case False
  have pick: "pick w n s use ks \<noteq> Some (Continue w', r)" if "\<And>i. w_step (use i) = w_step w" for n s use
    using pick_step [of w n s use ks w' r] that assms(2) False by auto
  have "password_turn w use ks \<noteq> Some (Continue w', r)" if "\<And>pw. w_step (use pw) = w_step w" for use
    using that assms(2) False
    by (auto simp: password_turn_def previous_not_summary dest: next_is_summary split: if_splits)
  moreover have "user_turn w ks \<noteq> Some (Continue w', r)"
    using assms(2) False
    by (auto simp: user_turn_def Let_def previous_not_summary dest: next_is_summary split: if_splits option.splits)
  moreover have "partsize_turn w ks \<noteq> Some (Continue w', r)" "hostname_turn w ks \<noteq> Some (Continue w', r)"
    "welcome_turn w ks \<noteq> Some (Continue w', r)"
    using assms(2) False
    by (auto simp: partsize_turn_def hostname_turn_def welcome_turn_def Let_def previous_not_summary
        dest: next_is_summary split: if_splits)
  moreover have "action_turn w ks \<noteq> Some (Continue w', r)" "boot_turn w ks \<noteq> Some (Continue w', r)"
    "acpi_turn w ks \<noteq> Some (Continue w', r)"
    by (simp_all add: action_turn_def boot_turn_def acpi_turn_def pick)
  ultimately show ?thesis
    using assms False device_turns_not_summary [OF assms(2)]
    by (cases "w_step w") (simp_all add: wizard_turn_def)
qed

lemma summary_after_confirm:
  assumes "wizard_reaches u c (w, ks)" and "w_step w = STEP_SUMMARY" and "w_step (fst c) \<noteq> STEP_SUMMARY"
  shows "\<exists>v ks'. wizard_reaches u c (v, ks') \<and> w_cfg v = w_cfg w \<and> confirm_phrase_box (w_cfg w) ks' = Some (True, ks)"
proof -
  from assms(1) consider "c = (w, ks)"
    | v ks' where "wizard_reaches u c (v, ks')" "wizard_turn u v ks' = Some (Continue w, ks)"
    by (rule wizard_reachesE) blast+
  then show ?thesis
  proof cases
    case 1
    with assms(2,3) show ?thesis by simp
  next
    case 2
    then have "w_cfg v = w_cfg w \<and> confirm_phrase_box (w_cfg w) ks' = Some (True, ks)"
      using turn_to_summary [OF 2(2) assms(2)] by simp
    with 2(1) show ?thesis by blast
  qed
qed

lemma confirm_loop_typed:
  "confirm_loop cfg ks = Some (True, r) \<Longrightarrow>
    \<exists>ks' typed. input_box 96 [] ks' = Some (True, typed, r) \<and> confirm_accepts cfg typed"
proof (induction cfg ks rule: confirm_loop.induct)
  case (1 cfg ks)
  obtain ok typed ks1 where box: "input_box 96 [] ks = Some (ok, typed, ks1)"
    using "1.prems" by (subst (asm) confirm_loop.simps) (auto split: option.splits)
  show ?case
  proof (cases "ok \<and> \<not> confirm_accepts cfg typed")
    case True
    with "1.prems" box obtain m ks2 where "message_box ks1 = Some (m, ks2)" "confirm_loop cfg ks2 = Some (True, r)"
      by (subst (asm) confirm_loop.simps) (auto split: option.splits)
    with "1.IH" [OF box refl refl] True show ?thesis by simp
  next
    case False
    with "1.prems" box show ?thesis by (subst (asm) confirm_loop.simps) (auto split: if_splits)
  qed
qed

text \<open>The devices the installer really offers: each scan reads the machine as it is at that moment.\<close>

definition scanned_devices :: "env \<Rightarrow> (key list \<Rightarrow> history) \<Rightarrow> devices" where
  "scanned_devices env now =
     \<lparr>u_media = \<lambda>ks. result (installer_scan_install_media env 32) (now ks),
      u_disks = \<lambda>ks. result (installer_scan_disks env 32) (now ks)\<rparr>"

lemma scan_entries_short:
  "list_all (\<lambda>d. length (d_path d) < 64) devices \<Longrightarrow>
    list_all (\<lambda>d. length (d_path d) < 64) (result (scan_entries env flt n names devices) h)"
  by (induction names arbitrary: devices h) (simp_all add: device_of_def)

lemma scanned_devices_fit: "devices_fit (scanned_devices env now)"
  by (auto simp: devices_fit_def scanned_devices_def installer_scan_disks_def scan_block_devices_def
      scan_entries_short split: option.splits)

text \<open>A whole run, for an installation onto the second of two disks.\<close>

definition two_disks :: env where
  "two_disks = (listing_env []) \<lparr>e_opendir := \<lambda>h p. Some [''sda'', ''sdb''],
     e_stat := \<lambda>h p. Inr \<lparr>st_kind = S_BLK, st_mode = 0\<rparr>\<rparr>"

definition typing :: "string \<Rightarrow> key list" where
  "typing s = map KeyChar s @ [KeyEnter]"

definition install_keys :: "key list" where
  "install_keys =
     [KeyEnter, KeyEnter, KeyEnter, KeyEnter, KeyDown, KeyEnter, KeyEnter] @ typing ''+8G'' @ [KeyEnter]
     @ typing ''adam'' @ typing ''x'' @ typing ''x'' @ typing ''y'' @ typing ''y''
     @ [KeyEnter] @ typing ''ERASE /dev/sdb'' @ [KeyEnter]"

definition installed_config :: InstallerConfig where
  "installed_config =
     \<lparr>c_install_media = ''/dev/sda'', c_disk = ''/dev/sdb'', c_action = INSTALLER_ACTION_INSTALL,
      c_boot_mode = INSTALLER_BOOT_UEFI, c_acpi_mode = INSTALLER_ACPI_ON, c_part_size = ''+8G'',
      c_username = ''adam'', c_password = ''x'', c_root_password = ''y'', c_hostname = ''adavalinux''\<rparr>"

lemma install_keys_run:
  "installer_ui_collect_config (scanned_devices two_disks (\<lambda>_. [])) install_keys = Some (Some installed_config, [])"
  by code_simp

text \<open>\<open>Esc\<close> ends every dialog at once and goes back one step.\<close>

lemma escape_boxes [simp]:
  "message_box (KeyEsc # ks) = Some (False, ks)" "menu_box n s (KeyEsc # ks) = Some (None, ks)"
  "input_box n out (KeyEsc # ks) = Some (False, out, ks)"
  "password_pair_box n (KeyEsc # ks) = Some (False, [], ks)"
  "confirm_phrase_box cfg (KeyEsc # ks) = Some (False, ks)"
  by (simp_all add: password_pair_box.simps confirm_phrase_box_def)

lemma escape_turn:
  "\<exists>t. wizard_turn u w (KeyEsc # ks) = Some (t, ks)
    \<and> (case t of Continue w' \<Rightarrow> w_step w' < w_step w | Quit \<Rightarrow> True | Start cfg \<Rightarrow> False)"
proof -
  have notice: "notice w (KeyEsc # ks) = Some (go_back w, ks)" by (simp add: notice_def)
  have pick: "pick v n s use (KeyEsc # ks) = Some (go_back v, ks)" for v n s use by (simp add: pick_def)
  show ?thesis
    by (cases "w_step w")
       (simp_all add: wizard_turn_def welcome_turn_def action_turn_def media_turn_def disk_turn_def
        boot_turn_def acpi_turn_def partsize_turn_def hostname_turn_def user_turn_def password_turn_def
        confirm_turn_def summary_turn_def notice pick Let_def go_back_def previous_step_less
        split: option.split)
qed

lemma collect_config_escape:
  "step_index (w_step w) < n \<Longrightarrow>
    \<exists>m<n. collect_config u w (replicate n KeyEsc @ ks) = Some (None, replicate m KeyEsc @ ks)"
proof (induction n arbitrary: w)
  case (Suc n)
  obtain t where t: "wizard_turn u w (KeyEsc # replicate n KeyEsc @ ks) = Some (t, replicate n KeyEsc @ ks)"
    and left: "case t of Continue w' \<Rightarrow> w_step w' < w_step w | Quit \<Rightarrow> True | Start cfg \<Rightarrow> False"
    using escape_turn [of u w "replicate n KeyEsc @ ks"] by blast
  have run: "collect_config u w (replicate (Suc n) KeyEsc @ ks) =
    (case t of Quit \<Rightarrow> Some (None, replicate n KeyEsc @ ks)
      | Start cfg \<Rightarrow> Some (Some cfg, replicate n KeyEsc @ ks)
      | Continue w' \<Rightarrow> collect_config u w' (replicate n KeyEsc @ ks))"
    using t by (subst collect_config.simps) (simp split: turn.split)
  show ?case
  proof (cases t)
    case (Continue w')
    with left Suc.prems have "step_index (w_step w') < n" by (simp add: less_WizardStep_def)
    from Suc.IH [OF this] Continue run show ?thesis by (auto intro: less_SucI)
  qed (use left run in auto)
qed simp

text \<open>
  Nothing starts without the phrase: it is the last text that was typed, and it was typed when the
  configuration already was the one handed over.
\<close>

lemma start_needs_phrase:
  assumes "installer_ui_collect_config u ks = Some (Some cfg, r)"
  shows "\<exists>w ks1 ks2 ks3 typed. wizard_reaches u (initial_wizard, ks) (w, ks1) \<and> w_cfg w = cfg
    \<and> confirm_phrase_box cfg ks1 = Some (True, ks3)
    \<and> input_box 96 [] ks2 = Some (True, typed, ks3)
    \<and> typed = (if c_action cfg = INSTALLER_ACTION_UPDATE then trunc 96 (''UPDATE '' @ c_disk cfg)
               else ''ERASE '' @ c_disk cfg)
    \<and> message_box ks3 = Some (True, r)"
proof -
  obtain w ks' where reach: "wizard_reaches u (initial_wizard, ks) (w, ks')"
    and start: "wizard_turn u w ks' = Some (Start cfg, r)"
    using assms by (auto simp: installer_ui_collect_config_def dest: collect_config_reaches)
  have last: "w_step w = STEP_SUMMARY" "w_cfg w = cfg" "message_box ks' = Some (True, r)"
    using turn_starts [OF start] by simp_all
  obtain v ks1 where v: "wizard_reaches u (initial_wizard, ks) (v, ks1)" "w_cfg v = cfg"
    "confirm_phrase_box cfg ks1 = Some (True, ks')"
    using summary_after_confirm [OF reach last(1)] last(2) by (auto simp: initial_wizard_def)
  from v(3) obtain ks2 typed where "input_box 96 [] ks2 = Some (True, typed, ks')" "confirm_accepts cfg typed"
    by (auto simp: confirm_phrase_box_def dest!: confirm_loop_typed split: option.splits if_splits)
  moreover from this(2) have "typed = (if c_action cfg = INSTALLER_ACTION_UPDATE
      then trunc 96 (''UPDATE '' @ c_disk cfg) else ''ERASE '' @ c_disk cfg)"
    by (auto simp: confirm_accepts_def confirm_text_def installer_confirmation_phrase_matches_def
        split: if_splits option.splits)
  ultimately show ?thesis using v last(3) by blast
qed

section \<open>Properties\<close>

text \<open>
  C22. A configuration the wizard hands to the installer is complete. Whatever keys are pressed and
  however often the user goes back and changes the operation, the medium or the disk, the target is
  a supported disk other than the installation medium; for an installation the host has a name, the
  user name is valid and neither password is empty.
\<close>

theorem collected_config_complete:
  assumes "installer_ui_collect_config (scanned_devices env now) ks = Some (Some cfg, r)"
  shows "installer_target_disk_available (Some (c_disk cfg)) (Some (c_install_media cfg))
    \<and> (c_action cfg = INSTALLER_ACTION_INSTALL \<longrightarrow>
        c_hostname cfg \<noteq> [] \<and> installer_valid_username (Some (c_username cfg))
        \<and> c_password cfg \<noteq> [] \<and> c_root_password cfg \<noteq> [])"
proof -
  let ?u = "scanned_devices env now"
  obtain w ks' where reach: "wizard_reaches ?u (initial_wizard, ks) (w, ks')"
    and start: "wizard_turn ?u w ks' = Some (Start cfg, r)"
    using assms by (auto simp: installer_ui_collect_config_def dest: collect_config_reaches)
  have "wizard_inv w"
    using wizard_reaches_inv [OF reach scanned_devices_fit] by (simp add: initial_wizard_inv)
  with turn_starts [OF start] show ?thesis
    by (simp add: wizard_inv_def config_ready_def less_WizardStep_def)
qed

theorem collected_config_complete_witness:
  "installer_target_disk_available (Some ''/dev/sdb'') (Some ''/dev/sda'')
    \<and> installer_valid_username (Some ''adam'')"
  using collected_config_complete [OF install_keys_run] by (simp add: installed_config_def)

text \<open>
  C23. The user can always leave. From every step, with whatever was answered before and whatever
  devices are there, at most thirteen times \<open>Esc\<close> ends the wizard without a configuration.
\<close>

theorem escape_quits:
  "\<exists>n. n \<le> 12 \<and> collect_config u w (replicate 13 KeyEsc @ ks) = Some (None, replicate n KeyEsc @ ks)"
proof -
  have "step_index (w_step w) < 13" by (cases "w_step w") simp_all
  then show ?thesis using collect_config_escape [of w 13 u ks] by force
qed

end
