(* ===== verification/Progress.thy ===== *)
theory Progress
  imports Wizard
begin

text \<open>
  The display of the installer while it works and the frame around an installation,
  \<^verbatim>\<open>tools/installer/ui.c\<close>: wrapped text, the lines of the log that are kept and shown, the copy of the
  log on the target, the reboot and the program itself. Every callback of an installation is an
  event of its history, so the state of the display is a function of the history.
\<close>

section \<open>Wrapped text\<close>

text \<open>The scan of one row: how far it gets and the last blank on the way.\<close>

fun scan_row :: "nat \<Rightarrow> string \<Rightarrow> nat \<Rightarrow> nat option \<Rightarrow> nat \<times> nat option" where
  "scan_row width [] len last_space = (len, last_space)"
| "scan_row width (c # cs) len last_space =
     (if c \<noteq> LF \<and> len < width
      then scan_row width cs (len + 1) (if c = CHR '' '' then Some len else last_space)
      else (len, last_space))"

definition row_length :: "nat \<Rightarrow> string \<Rightarrow> nat" where
  "row_length width p =
     (let (len, last_space) = scan_row width p 0 None in
      if len \<ge> length p \<or> p ! len = LF then len
      else case last_space of Some k \<Rightarrow> if k > 0 then k else width | None \<Rightarrow> width)"

definition skip_row_end :: "string \<Rightarrow> string" where
  "skip_row_end p =
     (let q = dropWhile (\<lambda>c. c = CHR '' '') p in
      case q of [] \<Rightarrow> [] | c # cs \<Rightarrow> if c = LF then cs else q)"

text \<open>The rows, at most as many as there are from the first to \<^verbatim>\<open>max_row\<close>.\<close>

fun wrapped_rows :: "nat \<Rightarrow> nat \<Rightarrow> string \<Rightarrow> string list" where
  "wrapped_rows 0 width p = []"
| "wrapped_rows (Suc rows) width p =
     (if p = [] then []
      else let tk = row_length width p in
        take tk p # wrapped_rows rows width (skip_row_end (drop tk p)))"

definition pad_right :: "nat \<Rightarrow> string \<Rightarrow> string" where
  "pad_right width s = s @ replicate (width - length s) (CHR '' '')"

text \<open>What is printed where, and the row after the last.\<close>

definition draw_wrapped_text :: "int \<Rightarrow> int \<Rightarrow> nat \<Rightarrow> int \<Rightarrow> string \<Rightarrow> (int \<times> int \<times> string) list \<times> int" where
  "draw_wrapped_text row col width max_row body =
     (let rows = wrapped_rows (nat (max_row - row + 1)) width body in
      (map (\<lambda>i. (row + int i, col, pad_right width (rows ! i))) [0..<length rows], row + int (length rows)))"

section \<open>The state of the display\<close>

record ProgressUi =
  p_lines :: "string list"
  p_percent :: int
  p_step :: string
  p_done :: bool
  p_rc :: bool
  p_active :: bool
  p_last_draw_ms :: int
  p_log_file :: "string option"

definition initial_ui :: "bool \<Rightarrow> ProgressUi" where
  "initial_ui log_opened =
     \<lparr>p_lines = [], p_percent = 0, p_step = [], p_done = False, p_rc = True, p_active = True,
      p_last_draw_ms = 0,
      p_log_file = (if log_opened then Some (''AdavaLinux installer log'' @ [LF]) else None)\<rparr>"

definition redraw :: "int \<Rightarrow> ProgressUi \<Rightarrow> ProgressUi" where
  "redraw now ui = ui \<lparr>p_last_draw_ms := now\<rparr>"

definition log_to_file :: "string \<Rightarrow> ProgressUi \<Rightarrow> ProgressUi" where
  "log_to_file line ui = ui \<lparr>p_log_file := map_option (\<lambda>f. f @ line @ [LF]) (p_log_file ui)\<rparr>"

definition keep_line :: "string \<Rightarrow> string list \<Rightarrow> string list" where
  "keep_line line ls =
     (if length ls < 18 then ls @ [trunc 160 line]
      else map (\<lambda>l. trunc 160 l) (tl ls) @ [trunc 160 line])"

text \<open>The clock is read for the test and again when the display has been drawn.\<close>

definition ui_log :: "int \<times> int \<Rightarrow> ProgressUi \<Rightarrow> string \<Rightarrow> ProgressUi" where
  "ui_log clock ui line =
     (let ui' = (log_to_file line ui) \<lparr>p_lines := keep_line line (p_lines ui)\<rparr> in
      if p_active ui' \<and> installer_should_redraw_progress_log (fst clock) (p_last_draw_ms ui') 200
      then redraw (snd clock) ui' else ui')"

definition ui_progress :: "int \<times> int \<Rightarrow> ProgressUi \<Rightarrow> int \<Rightarrow> string \<Rightarrow> ProgressUi" where
  "ui_progress clock ui percent step_name =
     redraw (snd clock) (ui \<lparr>p_percent := percent, p_step := trunc 128 step_name\<rparr>)"

definition ui_event :: "ProgressUi \<Rightarrow> event \<times> int \<times> int \<Rightarrow> ProgressUi" where
  "ui_event ui e =
     (case fst e of
        Log line \<Rightarrow> ui_log (snd e) ui line
      | Progress percent step_name \<Rightarrow> ui_progress (snd e) ui percent step_name
      | _ \<Rightarrow> ui)"

section \<open>What is drawn\<close>

definition progress_height :: "int \<Rightarrow> int" where
  "progress_height scr_lines = (let h = (if scr_lines > 26 then 20 else scr_lines - 4) in if h < 16 then 16 else h)"

definition progress_width :: "int \<Rightarrow> int" where
  "progress_width scr_cols = (let w = (if scr_cols > 78 then 72 else scr_cols - 4) in if w < 64 then 64 else w)"

definition bar_width :: "int \<Rightarrow> int" where
  "bar_width w = (let b = w - 28; b = (if b > 48 then 48 else b) in if b < 24 then 24 else b)"

definition log_rows :: "int \<Rightarrow> nat" where
  "log_rows h = nat (let r = h - 10 in if r > 15 then 15 else r)"

text \<open>The pieces of one line; the array of pieces has 64 places.\<close>

function line_pieces :: "nat \<Rightarrow> string \<Rightarrow> nat \<Rightarrow> string list \<Rightarrow> string list" where
  "line_pieces width line start visual =
     (case installer_next_wrapped_log_segment (Some line) start width 160 of
        None \<Rightarrow> visual
      | Some (piece, nxt) \<Rightarrow>
          let visual' = visual @ [piece] in
          if nxt < length line \<and> length visual' < 64 then line_pieces width line nxt visual' else visual')"
  by pat_completeness auto
termination
  by (relation "measure (\<lambda>(width, line, start, visual). 64 - length visual)") auto

declare line_pieces.simps [simp del]

definition visual_lines :: "nat \<Rightarrow> string list \<Rightarrow> string list" where
  "visual_lines width ls = foldl (\<lambda>visual l. if length visual < 64 then line_pieces width l 0 visual else visual) [] ls"

text \<open>The rows of the log that fit, and each of them padded and cut to the width.\<close>

definition log_window :: "nat \<Rightarrow> nat \<Rightarrow> string list \<Rightarrow> string list" where
  "log_window width rows visual =
     (let n = length visual in
      map (\<lambda>i. pad_right width (take width (visual ! (if n > rows then n - rows + i else i)))) [0..<min n rows])"

record screen =
  s_step :: string
  s_bar :: "string option"
  s_log :: "string list"

definition draw_progress :: "int \<Rightarrow> int \<Rightarrow> ProgressUi \<Rightarrow> screen" where
  "draw_progress scr_lines scr_cols ui =
     (let h = progress_height scr_lines; w = progress_width scr_cols; log_width = nat (w - 8)
      in \<lparr>s_step = (if p_step ui \<noteq> [] then p_step ui else ''Starting''),
          s_bar = installer_format_progress_bar (p_percent ui) (bar_width w) 80,
          s_log = log_window log_width (log_rows h) (visual_lines log_width (p_lines ui))\<rparr>)"

section \<open>An installation\<close>

abbreviation TARGET_INSTALLER_LOG_PATH :: string where
  "TARGET_INSTALLER_LOG_PATH \<equiv> ''/mnt/root/var/log/adavalinux-installer.log''"

definition copy_log_to_target :: "env \<Rightarrow> unit io" where
  "copy_log_to_target env = do {
     _ \<leftarrow> effect env (Mkdir ''/mnt/root/var'' 493);
     _ \<leftarrow> effect env (Mkdir ''/mnt/root/var/log'' 493);
     src \<leftarrow> open_file env INSTALLER_LOG_PATH;
     (case src of None \<Rightarrow> ret ()
      | Some content \<Rightarrow> do { _ \<leftarrow> effect env (WriteFile TARGET_INSTALLER_LOG_PATH content); ret () })
   }"

text \<open>\<^verbatim>\<open>installer_run_command(argv, NULL, NULL)\<close>: without a callback nothing is logged.\<close>

definition run_unlogged :: "env \<Rightarrow> string list \<Rightarrow> nat io" where
  "run_unlogged env argv = do {
     r \<leftarrow> exec_cmd env argv;
     ret (case r of Ran out status \<Rightarrow> wait_status_to_result status | _ \<Rightarrow> 1)
   }"

definition request_reboot :: "env \<Rightarrow> unit io" where
  "request_reboot env = do {
     a \<leftarrow> run_unlogged env [''/sbin/reboot''];
     if a = 0 then ret ()
     else do {
       b \<leftarrow> run_unlogged env [''/bin/busybox'', ''reboot''];
       if b = 0 then ret ()
       else do { _ \<leftarrow> run_unlogged env [''reboot'']; ret () }
     }
   }"

datatype outcome = Waiting | Finished bool

text \<open>
  The result is \<open>Finished\<close> with what the function returns and the texts shown, or \<open>Waiting\<close> when the
  keys are used up before the last message is closed.
\<close>

definition installer_ui_run_install ::
  "env \<Rightarrow> InstallerConfig \<Rightarrow> key list \<Rightarrow> (outcome \<times> string option \<times> key list) io" where
  "installer_ui_run_install env cfg ks = do {
     _ \<leftarrow> succeeds env (WriteFile INSTALLER_LOG_PATH (''AdavaLinux installer log'' @ [LF]));
     ok \<leftarrow> installer_run_install env cfg;
     _ \<leftarrow> copy_log_to_target env;
     if ok then
       (case message_box ks of
          None \<Rightarrow> ret (Waiting, None, [])
        | Some (reboot, r) \<Rightarrow>
            if \<not> reboot then ret (Finished True, None, r)
            else do {
              _ \<leftarrow> request_reboot env;
              ret (case message_box r of None \<Rightarrow> (Waiting, None, []) | Some (_, r') \<Rightarrow> (Finished True, None, r'))
            })
     else do {
       log \<leftarrow> open_file env INSTALLER_LOG_PATH;
       let body = installer_format_failure_summary log 1024;
       ret (case message_box ks of None \<Rightarrow> (Waiting, body, []) | Some (_, r) \<Rightarrow> (Finished False, body, r))
     }
   }"

text \<open>
  The program. The result is the exit status; \<^const>\<open>None\<close> when it still waits for a key.
\<close>

definition installer_ui_main :: "env \<Rightarrow> int \<Rightarrow> int \<Rightarrow> (key list \<Rightarrow> history) \<Rightarrow> key list \<Rightarrow> nat option io" where
  "installer_ui_main env scr_cols scr_lines now ks =
     (if scr_cols < 80 \<or> scr_lines < 24 then ret (Some 1)
      else case installer_ui_collect_config (scanned_devices env now) ks of
        None \<Rightarrow> ret None
      | Some (None, r) \<Rightarrow> ret (Some 1)
      | Some (Some cfg, r) \<Rightarrow> do {
          x \<leftarrow> installer_ui_run_install env cfg r;
          ret (case fst x of Waiting \<Rightarrow> None | Finished _ \<Rightarrow> Some 0)
        })"

text \<open>The entry point, \<^verbatim>\<open>main.c\<close>.\<close>

definition installer_main :: "env \<Rightarrow> int \<Rightarrow> int \<Rightarrow> (key list \<Rightarrow> history) \<Rightarrow> key list \<Rightarrow> nat option io" where
  "installer_main env scr_cols scr_lines now ks = installer_ui_main env scr_cols scr_lines now ks"

section \<open>Lemmas\<close>

text \<open>Cutting into pieces of equal length.\<close>

function chunks :: "nat \<Rightarrow> 'a list \<Rightarrow> 'a list list" where
  "chunks n xs = (if n = 0 \<or> length xs \<le> n then [xs] else take n xs # chunks n (drop n xs))"
  by pat_completeness auto
termination
  by (relation "measure (\<lambda>(n, xs). length xs)") auto

declare chunks.simps [simp del]

lemma length_chunks: "length xs \<le> m * n \<Longrightarrow> 0 < m \<Longrightarrow> length (chunks n xs) \<le> m"
proof (induction n xs arbitrary: m rule: chunks.induct)
  case (1 n xs)
  show ?case
  proof (cases "n = 0 \<or> length xs \<le> n")
    case True
    with "1.prems" show ?thesis by (simp add: chunks.simps)
  next
    case False
    with "1.prems" obtain k where m: "m = Suc (Suc k)"
      by (cases m; cases "m - 1") auto
    with "1.IH" [OF False, of "Suc k"] False "1.prems" show ?thesis
      by (subst chunks.simps) simp
  qed
qed

lemma chunk_length: "0 < n \<Longrightarrow> list_all (\<lambda>c. length c \<le> n) (chunks n xs)"
proof (induction n xs rule: chunks.induct)
  case (1 n xs)
  then show ?case by (subst chunks.simps) simp
qed

lemma concat_chunks: "concat (chunks n xs) = xs"
proof (induction n xs rule: chunks.induct)
  case (1 n xs)
  then show ?case by (subst chunks.simps) simp
qed

lemma line_pieces_chunks:
  assumes "0 < width" and "width < 160" and "start \<le> length line"
    and "length visual + length (chunks width (drop start line)) \<le> 64"
  shows "line_pieces width line start visual = visual @ chunks width (drop start line)"
  using assms
proof (induction width line start visual rule: line_pieces.induct)
  case (1 width line start visual)
  let ?rest = "drop start line"
  show ?case
  proof (cases "length ?rest \<le> width")
    case True
    with "1.prems" show ?thesis
      by (subst line_pieces.simps, subst chunks.simps)
         (simp add: installer_next_wrapped_log_segment_def Let_def)
  next
    case False
    have seg: "installer_next_wrapped_log_segment (Some line) start width 160 = Some (take width ?rest, start + width)"
      using False "1.prems"(1,2) by (simp add: installer_next_wrapped_log_segment_def Let_def)
    have ch: "chunks width ?rest = take width ?rest # chunks width (drop (start + width) line)"
      using False "1.prems"(1) by (subst chunks.simps) (simp add: add.commute)
    have "0 < length (chunks width (drop (start + width) line))" by (subst chunks.simps) simp
    with ch False "1.prems"(4) have more: "start + width < length line \<and> length (visual @ [take width ?rest]) < 64"
      by (simp del: length_greater_0_conv)
    with "1.IH" [OF seg refl refl] "1.prems" ch show ?thesis
      by (subst line_pieces.simps) (simp add: seg)
  qed
qed

lemma visual_lines_chunks:
  assumes "0 < width" and "width < 160" and "list_all (\<lambda>l. length (chunks width l) \<le> m) ls"
    and "m * length ls \<le> 64" and "0 < m"
  shows "visual_lines width ls = concat (map (chunks width) ls) \<and> length (visual_lines width ls) \<le> m * length ls"
  using assms
proof (induction ls rule: rev_induct)
  case (snoc l ls)
  then have "visual_lines width ls = concat (map (chunks width) ls) \<and> length (visual_lines width ls) \<le> m * length ls"
    by (intro snoc.IH) simp_all
  then have IH: "visual_lines width ls = concat (map (chunks width) ls)" "length (visual_lines width ls) \<le> m * length ls"
    by blast+
  have l: "length (chunks width l) \<le> m" using snoc.prems(3) by simp
  have room: "length (visual_lines width ls) + length (chunks width l) \<le> 64"
    using IH(2) l snoc.prems(4) by simp
  have free: "length (visual_lines width ls) < 64" using IH(2) snoc.prems(4,5) by simp
  have "visual_lines width (ls @ [l]) = line_pieces width l 0 (visual_lines width ls)"
    using free by (simp add: visual_lines_def)
  also have "\<dots> = visual_lines width ls @ chunks width l"
    using line_pieces_chunks [of width 0 l "visual_lines width ls"] snoc.prems(1,2) room by simp
  finally show ?case using IH l by simp
qed (simp add: visual_lines_def)

text \<open>The kept lines are the last ones.\<close>

lemma keep_line_last:
  assumes "length ls \<le> 18" and "list_all (\<lambda>l. length l < 160) ls"
  shows "keep_line line ls = last_n 18 (ls @ [trunc 160 line])"
proof (cases "length ls < 18")
  case False
  then have "length ls = 18" "ls \<noteq> []" using assms(1) by auto
  moreover have "trunc 160 l = l" if "l \<in> set (tl ls)" for l
  proof -
    have "l \<in> set ls" using that calculation(2) by (rule list.set_sel(2) [rotated])
    with assms(2) have "length l < 160" by (simp add: list_all_iff)
    then show ?thesis by (simp add: trunc_def)
  qed
  then have "map (trunc 160) (tl ls) = tl ls" by (intro map_idI)
  ultimately show ?thesis by (simp add: keep_line_def last_n_def drop_Suc)
qed (simp add: keep_line_def last_n_def)

definition logged :: "(event \<times> int \<times> int) list \<Rightarrow> string list" where
  "logged evs = concat (map (\<lambda>e. case fst e of Log line \<Rightarrow> [line] | _ \<Rightarrow> []) evs)"

lemma logged_snoc: "logged (evs @ [e]) = logged evs @ (case fst e of Log line \<Rightarrow> [line] | _ \<Rightarrow> [])"
  by (simp add: logged_def)

lemma ui_event_lines:
  "p_lines (ui_event ui e) = (case fst e of Log line \<Rightarrow> keep_line line (p_lines ui) | _ \<Rightarrow> p_lines ui)"
  by (simp add: ui_event_def ui_log_def ui_progress_def redraw_def Let_def split: event.split)

lemma kept_lines: "p_lines (foldl ui_event (initial_ui opened) evs) = last_n 18 (map (trunc 160) (logged evs))"
proof (induction evs rule: rev_induct)
  case (snoc e evs)
  let ?ls = "map (trunc 160) (logged evs)"
  have "list_all (\<lambda>l. length l < 160) (last_n 18 ?ls)"
    by (auto simp: list_all_iff last_n_def trunc_def dest!: in_set_dropD)
  moreover have "length (last_n 18 ?ls) \<le> 18" by (simp add: last_n_def)
  ultimately have "keep_line line (last_n 18 ?ls) = last_n 18 (?ls @ [trunc 160 line])" for line
    by (simp add: keep_line_last last_n_snoc)
  with snoc show ?case by (simp add: ui_event_lines logged_snoc split: event.split)
qed (simp add: initial_ui_def last_n_def logged_def)

text \<open>Every change of the lines of the log file is an append.\<close>

lemma log_file_content:
  "p_log_file (foldl ui_event (initial_ui True) evs) =
    Some (''AdavaLinux installer log'' @ [LF] @ concat (map (\<lambda>l. l @ [LF]) (logged evs)))"
proof (induction evs rule: rev_induct)
  case (snoc e evs)
  have "p_log_file (ui_event ui e) =
      (case fst e of Log line \<Rightarrow> map_option (\<lambda>f. f @ line @ [LF]) (p_log_file ui) | _ \<Rightarrow> p_log_file ui)" for ui
    by (simp add: ui_event_def ui_log_def ui_progress_def redraw_def log_to_file_def Let_def split: event.split)
  with snoc show ?case by (simp add: logged_snoc split: event.split)
qed (simp add: initial_ui_def logged_def)

text \<open>Wrapping: a row is never wider than asked for and never empty but for a line break.\<close>

lemma scan_row_grows: "scan_row width p len ls = (n, k) \<Longrightarrow> len \<le> n"
  by (induction width p len ls rule: scan_row.induct) (auto split: if_splits)

lemma scan_row_spec:
  "scan_row width p len ls = (n, k) \<Longrightarrow> len \<le> width \<Longrightarrow>
    n \<le> width \<and> (k = ls \<or> (\<exists>j. k = Some j \<and> j < n)) \<and> (n = len \<longrightarrow> p = [] \<or> hd p = LF \<or> len = width)"
proof (induction width p len ls rule: scan_row.induct)
  case (2 width c cs len ls)
  show ?case
  proof (cases "c \<noteq> LF \<and> len < width")
    case True
    then have "len + 1 \<le> n" using "2.prems"(1) by (auto dest: scan_row_grows)
    with True "2.prems" "2.IH" show ?thesis by (auto split: if_splits)
  next
    case False
    with "2.prems" show ?thesis by auto
  qed
qed auto

lemma row_length_le: "0 < width \<Longrightarrow> row_length width p \<le> width"
  and row_length_pos: "0 < width \<Longrightarrow> p \<noteq> [] \<Longrightarrow> hd p \<noteq> LF \<Longrightarrow> 0 < row_length width p"
  using scan_row_spec [of width p 0 None]
  by (cases "scan_row width p 0 None"; auto simp: row_length_def split: option.splits)+

lemma skip_row_end_length: "length (skip_row_end p) \<le> length p"
  and skip_row_end_LF: "skip_row_end (LF # p) = p"
  using length_dropWhile_le [of "\<lambda>c. c = CHR '' ''" p]
  by (auto simp: skip_row_end_def Let_def split: list.split)

definition blank :: "char \<Rightarrow> bool" where
  "blank c \<longleftrightarrow> c = CHR '' '' \<or> c = LF"

lemma filter_dropWhile_blank:
  "filter (\<lambda>c. \<not> blank c) (dropWhile (\<lambda>c. c = CHR '' '') p) = filter (\<lambda>c. \<not> blank c) p"
  by (induction p) (auto simp: blank_def)

lemma skip_row_end_filter: "filter (\<lambda>c. \<not> blank c) (skip_row_end p) = filter (\<lambda>c. \<not> blank c) p"
proof -
  define q where "q = dropWhile (\<lambda>c. c = CHR '' '') p"
  have "filter (\<lambda>c. \<not> blank c) (skip_row_end p) = filter (\<lambda>c. \<not> blank c) q"
    by (auto simp: skip_row_end_def q_def [symmetric] blank_def Let_def split: list.split)
  then show ?thesis by (simp add: q_def filter_dropWhile_blank)
qed

lemma row_consumes:
  assumes "0 < width" and "p \<noteq> []"
  shows "length (skip_row_end (drop (row_length width p) p)) < length p"
proof (cases "row_length width p = 0")
  case True
  with assms row_length_pos [of width p] obtain q where "p = LF # q" by (cases p) auto
  with True show ?thesis by (simp add: skip_row_end_LF)
next
  case False
  with assms(2) have "length (drop (row_length width p) p) < length p" by simp
  with skip_row_end_length [of "drop (row_length width p) p"] show ?thesis by simp
qed

lemma log_window_last:
  assumes "\<And>v. v \<in> set vs \<Longrightarrow> length v \<le> width"
  shows "log_window width rows vs = map (pad_right width) (last_n rows vs)"
proof -
  have short: "i < length vs \<Longrightarrow> take width (vs ! i) = vs ! i" for i using assms [of "vs ! i"] by simp
  show ?thesis by (rule nth_equalityI) (auto simp: log_window_def last_n_def Let_def short)
qed

lemma wrapped_rows_width: "0 < width \<Longrightarrow> list_all (\<lambda>r. length r \<le> width) (wrapped_rows rows width p)"
  by (induction rows width p rule: wrapped_rows.induct)
     (simp_all add: Let_def min.coboundedI2 row_length_le)

lemma wrapped_rows_text:
  assumes "0 < width"
  shows "length p \<le> rows \<Longrightarrow>
      filter (\<lambda>c. \<not> blank c) (concat (wrapped_rows rows width p)) = filter (\<lambda>c. \<not> blank c) p"
proof (induction rows arbitrary: p)
  case (Suc rows)
  let ?n = "row_length width p"
  show ?case
  proof (cases "p = []")
    case False
    then have "length (skip_row_end (drop ?n p)) \<le> rows" using row_consumes [OF assms False] Suc.prems by simp
    from Suc.IH [OF this] False show ?thesis
      using filter_append [of "\<lambda>c. \<not> blank c" "take ?n p" "drop ?n p"]
      by (simp add: Let_def skip_row_end_filter)
  qed simp
qed simp

section \<open>Properties\<close>



text \<open>
  The display shows the newest part of the log. On every terminal the installer accepts, the rows
  below the bar are the last ones of the last 18 lines, cut at 159 characters and folded at 64; the
  array of 64 folded pieces never overflows, so no later line is lost to an earlier one.
\<close>

theorem progress_shows_newest:
  assumes "24 \<le> scr_lines" and "80 \<le> scr_cols"
  shows "s_log (draw_progress scr_lines scr_cols (foldl ui_event (initial_ui opened) evs)) =
      map (pad_right 64) (last_n (log_rows (progress_height scr_lines))
        (concat (map (chunks 64) (last_n 18 (map (trunc 160) (logged evs))))))
    \<and> 10 \<le> log_rows (progress_height scr_lines)"
proof -
  let ?ls = "last_n 18 (map (trunc 160) (logged evs))"
  let ?rows = "log_rows (progress_height scr_lines)"
  let ?visual = "concat (map (chunks 64) ?ls)"
  have "length (chunks 64 (trunc 160 l)) \<le> 3" for l by (rule length_chunks) (simp_all add: trunc_def)
  then have "list_all (\<lambda>l. length (chunks 64 l) \<le> 3) ?ls"
    by (auto simp: list_all_iff last_n_def dest!: in_set_dropD)
  then have visual: "visual_lines 64 ?ls = ?visual"
    using visual_lines_chunks [of 64 3 ?ls] by (simp add: last_n_def)
  have "length v \<le> 64" if "v \<in> set ?visual" for v
    using that chunk_length [of 64] by (auto simp: list_all_iff)
  then have tail: "log_window 64 ?rows ?visual = map (pad_right 64) (last_n ?rows ?visual)"
    by (rule log_window_last)
  have "nat (progress_width scr_cols - 8) = 64" using assms(2) by (simp add: progress_width_def Let_def)
  moreover have "10 \<le> ?rows" using assms(1) by (simp add: progress_height_def log_rows_def Let_def le_nat_iff)
  ultimately show ?thesis
    using tail by (simp add: draw_progress_def Let_def kept_lines visual)
qed

theorem progress_shows_newest_witness:
  "s_log (draw_progress 25 80 (foldl ui_event (initial_ui True)
      [(Progress 24 ''Mounting'', 0, 0), (Log ''one'', 5, 6), (Log ''two'', 7, 8)])) =
    [''one'' @ replicate 61 (CHR '' ''), ''two'' @ replicate 61 (CHR '' '')]"
  using conjunct1 [OF progress_shows_newest [of 25 80 True
      "[(Progress 24 ''Mounting'', 0, 0), (Log ''one'', 5, 6), (Log ''two'', 7, 8)]"]]
  by (simp add: logged_def last_n_def trunc_def chunks.simps log_rows_def progress_height_def pad_right_def Let_def)

text \<open>
  A message is shown whole when the box has the rows for it: no row is wider than the box, and
  but for blanks and line breaks the rows together are the text.
\<close>

theorem wrapped_text_complete:
  assumes "0 < width" and "int (length body) \<le> max_row - row + 1"
  shows "(\<exists>rows. fst (draw_wrapped_text row col width max_row body) =
      map (\<lambda>i. (row + int i, col, pad_right width (rows ! i))) [0..<length rows]
    \<and> list_all (\<lambda>r. length r \<le> width) rows
    \<and> filter (\<lambda>c. \<not> blank c) (concat rows) = filter (\<lambda>c. \<not> blank c) body)"
  using wrapped_rows_width [OF assms(1), of "nat (max_row - row + 1)" body]
    wrapped_rows_text [OF assms(1), of body "nat (max_row - row + 1)"] assms(2)
  by (auto simp: draw_wrapped_text_def Let_def nat_le_iff le_nat_iff)

theorem wrapped_text_complete_witness:
  "\<exists>rows. fst (draw_wrapped_text 2 3 5 20 ''a bc def gh'') =
      map (\<lambda>i. (2 + int i, 3, pad_right 5 (rows ! i))) [0..<length rows]
    \<and> list_all (\<lambda>r. length r \<le> 5) rows
    \<and> filter (\<lambda>c. \<not> blank c) (concat rows) = ''abcdefgh''"
  using wrapped_text_complete [of 5 "''a bc def gh''" 20 2 3] by (simp add: blank_def)

end
