(* ===== verification/Throwing.thy ===== *)
theory Throwing
  imports World
begin

text \<open>
  C++ functions that may throw. A computation yields \<^const>\<open>Inl\<close> with the text of the exception or
  \<^const>\<open>Inr\<close> with its result; the operations of \<^verbatim>\<open>std::filesystem\<close> are built on the calls of the
  environment. The second part is a small logic for traces in which the admissible events may
  depend on the history before them.
\<close>

section \<open>Exceptions\<close>

type_synonym 'a xio = "(string + 'a) io"

definition throw :: "string \<Rightarrow> 'a xio" where
  "throw what = ret (Inl what)"

definition okx :: "'a \<Rightarrow> 'a xio" where
  "okx x = ret (Inr x)"

definition bindx :: "'a xio \<Rightarrow> ('a \<Rightarrow> 'b xio) \<Rightarrow> 'b xio" where
  "bindx m f = do { r \<leftarrow> m; (case r of Inl what \<Rightarrow> ret (Inl what) | Inr x \<Rightarrow> f x) }"

definition seqx :: "unit xio \<Rightarrow> 'b xio \<Rightarrow> 'b xio" where
  "seqx m k = bindx m (\<lambda>_. k)"

text \<open>\<^verbatim>\<open>try { m } catch (const std::exception & ex) { f(ex.what()) }\<close>\<close>

definition catchx :: "'a xio \<Rightarrow> (string \<Rightarrow> 'a xio) \<Rightarrow> 'a xio" where
  "catchx m f = do { r \<leftarrow> m; (case r of Inl what \<Rightarrow> f what | Inr x \<Rightarrow> ret (Inr x)) }"

definition lift :: "'a io \<Rightarrow> 'a xio" where
  "lift m = do { x \<leftarrow> m; ret (Inr x) }"

fun eachx :: "('a \<Rightarrow> unit xio) \<Rightarrow> 'a list \<Rightarrow> unit xio" where
  "eachx f [] = okx ()"
| "eachx f (x # xs) = seqx (f x) (eachx f xs)"

definition whenx :: "bool \<Rightarrow> unit xio \<Rightarrow> unit xio" where
  "whenx b m = (if b then m else okx ())"

text \<open>A call with an error code that is turned into an exception, and one whose code is ignored.\<close>

definition call_or_throw :: "env \<Rightarrow> event \<Rightarrow> string \<Rightarrow> unit xio" where
  "call_or_throw env ev what = do {
     r \<leftarrow> effect env ev;
     if r = None then okx () else do { why \<leftarrow> query (e_strerror env); throw (what @ why) }
   }"

definition call_ignored :: "env \<Rightarrow> event \<Rightarrow> unit xio" where
  "call_ignored env ev = lift (do { _ \<leftarrow> effect env ev; ret () })"

section \<open>Queries of \<^verbatim>\<open>std::filesystem\<close>\<close>

text \<open>
  Without an error code the queries throw when the status of the path cannot be determined; a path
  that is not there is no error. \<^const>\<open>ENOENT\<close> stands for \<^verbatim>\<open>ENOTDIR\<close> too.
\<close>

definition status_test :: "(stat_t \<Rightarrow> bool) \<Rightarrow> errno + stat_t \<Rightarrow> string + bool" where
  "status_test p r = (case r of Inr st \<Rightarrow> Inr (p st) | Inl ENOENT \<Rightarrow> Inr False | Inl _ \<Rightarrow> Inl ''filesystem error'')"

definition fs_exists :: "env \<Rightarrow> string \<Rightarrow> bool xio" where
  "fs_exists env path = query (\<lambda>h. status_test (\<lambda>st. True) (e_stat env h path))"

definition fs_is_directory :: "env \<Rightarrow> string \<Rightarrow> bool xio" where
  "fs_is_directory env path = query (\<lambda>h. status_test (\<lambda>st. st_kind st = S_DIR) (e_stat env h path))"

definition fs_is_symlink :: "env \<Rightarrow> string \<Rightarrow> bool xio" where
  "fs_is_symlink env path = query (\<lambda>h. status_test (\<lambda>st. st_kind st = S_LNK) (e_lstat env h path))"

text \<open>\<^verbatim>\<open>exists(path) || is_symlink(path)\<close>\<close>

definition fs_present :: "env \<Rightarrow> string \<Rightarrow> bool xio" where
  "fs_present env path = bindx (fs_exists env path) (\<lambda>b. if b then okx True else fs_is_symlink env path)"

text \<open>\<^verbatim>\<open>is_directory(path) && !is_symlink(path)\<close>\<close>

definition fs_real_directory :: "env \<Rightarrow> string \<Rightarrow> bool xio" where
  "fs_real_directory env path =
     bindx (fs_is_directory env path) (\<lambda>b. if b then bindx (fs_is_symlink env path) (\<lambda>l. okx (\<not> l)) else okx False)"

definition fs_entries :: "env \<Rightarrow> string \<Rightarrow> string list xio" where
  "fs_entries env path = do {
     dir \<leftarrow> opendir env path;
     (case dir of None \<Rightarrow> throw ''filesystem error''
      | Some names \<Rightarrow> okx (filter (\<lambda>n. n \<noteq> ''.'' \<and> n \<noteq> ''..'') names))
   }"

definition parent_path :: "string \<Rightarrow> string" where
  "parent_path p =
     (case strrchr p (CHR ''/'') of None \<Rightarrow> [] | Some i \<Rightarrow> if i = 0 then ''/'' else take i p)"

section \<open>Results and histories\<close>

lemma result_x [simp]:
  "result (throw what) h = Inl what"
  "result (okx x) h = Inr x"
  "result (bindx m f) h = (case result m h of Inl what \<Rightarrow> Inl what | Inr x \<Rightarrow> result (f x) (after m h))"
  "result (seqx n k) h = (case result n h of Inl what \<Rightarrow> Inl what | Inr x \<Rightarrow> result k (after n h))"
  "result (catchx m g) h = (case result m h of Inl what \<Rightarrow> result (g what) (after m h) | Inr x \<Rightarrow> Inr x)"
  "result (lift l) h = Inr (result l h)"
  by (simp_all add: throw_def okx_def bindx_def seqx_def catchx_def lift_def split: sum.split)

lemma after_x [simp]:
  "after (throw what) h = h"
  "after (okx x) h = h"
  "after (bindx m f) h = (case result m h of Inl what \<Rightarrow> after m h | Inr x \<Rightarrow> after (f x) (after m h))"
  "after (seqx n k) h = (case result n h of Inl what \<Rightarrow> after n h | Inr x \<Rightarrow> after k (after n h))"
  "after (catchx m g) h = (case result m h of Inl what \<Rightarrow> after (g what) (after m h) | Inr x \<Rightarrow> after m h)"
  "after (lift l) h = after l h"
  by (simp_all add: throw_def okx_def bindx_def seqx_def catchx_def lift_def split: sum.split)

lemma seqx_Inr:
  "result (seqx n k) h = Inr x \<longleftrightarrow> result n h = Inr () \<and> result k (after n h) = Inr x"
  "result n h = Inr () \<Longrightarrow> after (seqx n k) h = after k (after n h)"
  by (auto split: sum.split)

lemma bindx_Inr:
  "result (bindx m f) h = Inr x \<longleftrightarrow> (\<exists>y. result m h = Inr y \<and> result (f y) (after m h) = Inr x)"
  "result m h = Inr y \<Longrightarrow> after (bindx m f) h = after (f y) (after m h)"
  by (auto split: sum.split)

lemma whenx_simps [simp]: "whenx True m = m" "whenx False m = okx ()"
  by (simp_all add: whenx_def)

lemma call_simps [simp]:
  "after (call_or_throw env ev what) h = h @ [ev]"
  "result (call_or_throw env ev what) h = Inr x \<longleftrightarrow> e_call env h ev = None"
  "after (call_ignored env ev) h = h @ [ev]"
  "result (call_ignored env ev) h = Inr ()"
  by (simp_all add: call_or_throw_def call_ignored_def)

lemma result_call:
  "result (call_or_throw env ev what) h =
    (if e_call env h ev = None then Inr () else Inl (what @ e_strerror env (h @ [ev])))"
  by (simp add: call_or_throw_def)

lemma fs_queries_after [simp]:
  "after (fs_exists env p) h = h" "after (fs_is_directory env p) h = h" "after (fs_is_symlink env p) h = h"
  "after (fs_present env p) h = h" "after (fs_real_directory env p) h = h" "after (fs_entries env p) h = h"
  by (simp_all add: fs_exists_def fs_is_directory_def fs_is_symlink_def fs_present_def fs_real_directory_def
      fs_entries_def opendir_def split: sum.split option.split)

section \<open>Traces with a memory\<close>

text \<open>Every event that \<open>m\<close> appends to \<open>h\<close> is admissible after what is there before it.\<close>

definition emits_at :: "(history \<Rightarrow> event \<Rightarrow> bool) \<Rightarrow> history \<Rightarrow> 'a io \<Rightarrow> bool" where
  "emits_at P h m \<longleftrightarrow> (\<exists>t. after m h = h @ t \<and> (\<forall>i < length t. P (h @ take i t) (t ! i)))"

named_theorems emits_at_intros "rules that establish emits_at"

lemma emits_at_ret [emits_at_intros]: "emits_at P h (ret x)"
  and emits_at_query [emits_at_intros]: "emits_at P h (query f)"
  and emits_at_effect [emits_at_intros]: "P h ev \<Longrightarrow> emits_at P h (effect env ev)"
  by (simp_all add: emits_at_def)

lemma emits_at_unchanged: "after m h = h \<Longrightarrow> emits_at P h m"
  by (simp add: emits_at_def)

lemma emits_at_bind [emits_at_intros]:
  assumes "emits_at P h m" and "emits_at P (after m h) (f (result m h))"
  shows "emits_at P h (State_Monad.bind m f)"
proof -
  obtain t where t: "after m h = h @ t" "\<forall>i < length t. P (h @ take i t) (t ! i)"
    using assms(1) by (auto simp: emits_at_def)
  obtain u where u: "after (f (result m h)) (h @ t) = (h @ t) @ u" "\<forall>i < length u. P ((h @ t) @ take i u) (u ! i)"
    using assms(2) t(1) by (auto simp: emits_at_def)
  have "P (h @ take i (t @ u)) ((t @ u) ! i)" if "i < length (t @ u)" for i
    using that t(2) u(2) by (cases "i < length t") (auto simp: nth_append)
  with t(1) u(1) show ?thesis by (auto simp: emits_at_def)
qed

lemma emits_at_throw [emits_at_intros]: "emits_at P h (throw what)"
  and emits_at_okx [emits_at_intros]: "emits_at P h (okx x)"
  by (simp_all add: throw_def okx_def emits_at_ret)

lemma emits_at_bindx:
  assumes "emits_at P h m" and "\<And>x. result m h = Inr x \<Longrightarrow> emits_at P (after m h) (f x)"
  shows "emits_at P h (bindx m f)"
  unfolding bindx_def using assms by (auto intro!: emits_at_bind simp: emits_at_ret split: sum.split)

lemma emits_at_seqx:
  assumes "emits_at P h m" and "result m h = Inr () \<Longrightarrow> emits_at P (after m h) k"
  shows "emits_at P h (seqx m k)"
  unfolding seqx_def using assms by (auto intro!: emits_at_bindx)

lemma emits_at_catchx:
  assumes "emits_at P h m" and "\<And>what. result m h = Inl what \<Longrightarrow> emits_at P (after m h) (f what)"
  shows "emits_at P h (catchx m f)"
  unfolding catchx_def using assms by (auto intro!: emits_at_bind simp: emits_at_ret split: sum.split)

lemma emits_at_lift: "emits_at P h m \<Longrightarrow> emits_at P h (lift m)"
  unfolding lift_def by (intro emits_at_bind emits_at_ret)

lemma emits_at_call: "P h ev \<Longrightarrow> emits_at P h (call_or_throw env ev what)"
  and emits_at_call_ignored: "P h ev \<Longrightarrow> emits_at P h (call_ignored env ev)"
  by (simp_all add: emits_at_def)

lemma emits_at_mono:
  "emits_at P h m \<Longrightarrow> (\<And>h' e. prefix h h' \<Longrightarrow> P h' e \<Longrightarrow> Q h' e) \<Longrightarrow> emits_at Q h m"
  by (auto simp: emits_at_def)

lemma emits_at_emits: "emits Q m \<Longrightarrow> (\<And>h e. Q e \<Longrightarrow> P h e) \<Longrightarrow> emits_at P h m"
  unfolding emits_def emits_at_def by (metis list_all_length)

lemma emits_at_prefix: "emits_at P h m \<Longrightarrow> prefix h (after m h)"
  by (auto simp: emits_at_def)

lemma emits_at_eachx:
  assumes "\<And>x h. x \<in> set xs \<Longrightarrow> emits_at P h (f x)"
  shows "emits_at P h (eachx f xs)"
  using assms by (induction xs arbitrary: h) (auto intro!: emits_at_seqx emits_at_okx)

lemma emits_at_query_x:
  assumes "after m h = h" and "\<And>x. result m h = Inr x \<Longrightarrow> emits_at P h (f x)"
  shows "emits_at P h (bindx m f)"
  using assms by (auto intro: emits_at_bindx emits_at_unchanged)

text \<open>A loop that comes to its end has been through every element.\<close>

lemma eachx_step:
  assumes "x \<in> set xs" and "result (eachx f xs) h = Inr ()" and "\<And>x h. prefix h (after (f x) h)"
  shows "\<exists>h'. prefix h h' \<and> result (f x) h' = Inr () \<and> prefix (after (f x) h') (after (eachx f xs) h)"
  using assms(1,2)
proof (induction xs arbitrary: h)
  case (Cons y ys)
  have ends: "prefix h (after (eachx f ys) h)" for h
    by (induction ys arbitrary: h) (auto split: sum.split intro: assms(3) prefix_order.trans)
  have y: "result (f y) h = Inr ()" "result (eachx f ys) (after (f y) h) = Inr ()"
    using Cons.prems(2) by (auto split: sum.splits)
  show ?case
  proof (cases "x = y")
    case True
    with y ends show ?thesis by (intro exI [of _ h]) simp
  next
    case False
    with Cons.prems(1) Cons.IH [OF _ y(2)] obtain h' where "prefix (after (f y) h) h'" "result (f x) h' = Inr ()"
      "prefix (after (f x) h') (after (eachx f ys) (after (f y) h))" by auto
    with y assms(3) [of h y] show ?thesis by (intro exI [of _ h']) (auto intro: prefix_order.trans)
  qed
qed simp

section \<open>The same without a memory\<close>

lemma emits_x [emits_intros]:
  "emits P (throw what)"
  "emits P (okx x)"
  "emits P m \<Longrightarrow> (\<And>x. emits P (f x)) \<Longrightarrow> emits P (bindx m f)"
  "emits P n \<Longrightarrow> emits P k \<Longrightarrow> emits P (seqx n k)"
  "emits P m \<Longrightarrow> (\<And>what. emits P (g what)) \<Longrightarrow> emits P (catchx m g)"
  "emits P l \<Longrightarrow> emits P (lift l)"
  "P ev \<Longrightarrow> emits P (call_or_throw env ev what)"
  "P ev \<Longrightarrow> emits P (call_ignored env ev)"
  "(b \<Longrightarrow> emits P n) \<Longrightarrow> emits P (whenx b n)"
  unfolding throw_def okx_def bindx_def seqx_def catchx_def lift_def call_or_throw_def call_ignored_def whenx_def
  by (intro emits_intros; assumption?)+

lemma emits_fs [emits_intros]:
  "emits P (fs_exists env p)" "emits P (fs_is_directory env p)" "emits P (fs_is_symlink env p)"
  "emits P (fs_present env p)" "emits P (fs_real_directory env p)" "emits P (fs_entries env p)"
  by (simp_all add: emits_def)

lemma emits_eachx [emits_intros]: "(\<And>x. x \<in> set xs \<Longrightarrow> emits P (f x)) \<Longrightarrow> emits P (eachx f xs)"
  by (induction xs) (auto intro!: emits_x)

end
