(* ===== verification/Activity.thy ===== *)
theory Activity
  imports World "HOL-Library.AList"
begin

text \<open>
  The progress display of the package front end, \<^verbatim>\<open>tools/syspckg/main.cpp\<close>: the state behind the status
  line (\<^verbatim>\<open>MetadataActivity\<close>), the logger that feeds it (\<^verbatim>\<open>SyspckgLogger\<close>) and the callbacks of a
  download (\<^verbatim>\<open>VerboseDownloadCallbacks\<close>).

  Every public operation of \<^verbatim>\<open>MetadataActivity\<close> holds the mutex of its state from the first access to
  the last, and so does the thread that draws: an operation is one function on the state, and what
  the threads do together is a sequence of operations. A \<^verbatim>\<open>std::unordered_map\<close> is an association
  list; none of the loops over one depends on its order.

  Sizes are numbers of bytes, which the program keeps as \<^verbatim>\<open>double\<close>: whole numbers below \<open>2\<^sup>46\<close>, for
  which the quotient of the program, cut to an \<^verbatim>\<open>int\<close>, is the integer quotient.
\<close>

section \<open>Bars and sizes\<close>

definition clamp :: "int \<Rightarrow> int \<Rightarrow> int \<Rightarrow> int" where
  "clamp v lo hi = (if v < lo then lo else if hi < v then hi else v)"

definition make_percent_bar :: "int \<Rightarrow> int \<Rightarrow> string" where
  "make_percent_bar percent width =
     (let filled = clamp percent 0 100 * width div 100
      in map (\<lambda>i. if i < filled then CHR ''#'' else CHR ''-'') [0..width - 1])"

definition percent_of :: "int \<Rightarrow> int \<Rightarrow> int" where
  "percent_of downloaded tot = clamp (downloaded * 100 div tot) 0 100"

definition set_width :: "nat \<Rightarrow> string \<Rightarrow> string" where
  "set_width n s = replicate (n - length s) (CHR '' '') @ s"

text \<open>
  \<^verbatim>\<open>format_bytes\<close>: dividing by 1024 is exact, and the value is printed with one digit after the
  point, rounded to the nearest, to the even one when it lies in the middle.
\<close>

function size_unit :: "nat \<Rightarrow> nat \<Rightarrow> nat" where
  "size_unit bytes u = (if bytes \<ge> 1024 ^ (u + 1) \<and> u + 1 < 4 then size_unit bytes (u + 1) else u)"
  by pat_completeness auto
termination
  by (relation "measure (\<lambda>(bytes, u). 4 - u)") auto

declare size_unit.simps [simp del]

definition round_half_even :: "nat \<Rightarrow> nat \<Rightarrow> nat" where
  "round_half_even a b =
     (let q = a div b; r = a mod b
      in if 2 * r < b then q else if 2 * r > b then q + 1 else if even q then q else q + 1)"

definition format_bytes :: "int \<Rightarrow> string" where
  "format_bytes bytes =
     (if bytes \<le> 0 then ''unknown size''
      else
        let n = nat bytes; u = size_unit n 0;
            name = [''B'', ''KiB'', ''MiB'', ''GiB''] ! u;
            tenths = round_half_even (n * 10) (1024 ^ u)
        in (if u = 0 then dec n else dec (tenths div 10) @ ''.'' @ dec (tenths mod 10)) @ '' '' @ name)"

section \<open>The state behind the status line\<close>

record RepoProgress =
  rp_total :: int
  rp_downloaded :: int
  rp_finished :: bool
  rp_failed :: bool

definition new_progress :: RepoProgress where
  "new_progress = \<lparr>rp_total = 0, rp_downloaded = 0, rp_finished = False, rp_failed = False\<rparr>"

record activity =
  a_repositories :: "string list"
  a_plans :: "(string \<times> string list) list"
  a_total :: nat
  a_completed :: nat
  a_repo_progress :: "(string \<times> RepoProgress) list"
  a_processing_started :: bool
  a_processing_total :: nat
  a_processed_items :: "string set"
  a_failed_repositories :: "string set"
  a_processed_per_repo :: "(string \<times> nat) list"
  a_current_item :: string

text \<open>\<^verbatim>\<open>operator[]\<close> of a map, which creates a missing entry.\<close>

definition at_key :: "'v \<Rightarrow> (string \<times> 'v) list \<Rightarrow> string \<Rightarrow> 'v" where
  "at_key d m k = (case map_of m k of None \<Rightarrow> d | Some v \<Rightarrow> v)"

definition recalculate_processing_total :: "activity \<Rightarrow> activity" where
  "recalculate_processing_total a =
     a \<lparr>a_processing_total :=
       foldl (\<lambda>n (repo, items). if repo \<in> a_failed_repositories a then n else n + length items) 0 (a_plans a)\<rparr>"

definition MetadataActivity :: "string list \<Rightarrow> (string \<times> string list) list \<Rightarrow> activity" where
  "MetadataActivity repositories plans =
     recalculate_processing_total
       \<lparr>a_repositories = repositories, a_plans = plans, a_total = length repositories, a_completed = 0,
        a_repo_progress = map (\<lambda>r. (r, new_progress)) (remdups repositories),
        a_processing_started = False, a_processing_total = 0, a_processed_items = {},
        a_failed_repositories = {}, a_processed_per_repo = [], a_current_item = []\<rparr>"

definition update_repo_progress :: "string \<Rightarrow> int \<Rightarrow> int \<Rightarrow> activity \<Rightarrow> activity" where
  "update_repo_progress repo tot downloaded a =
     (let st = at_key new_progress (a_repo_progress a) repo;
          st = (if tot > 0 then st \<lparr>rp_total := tot\<rparr> else st);
          st = (if downloaded \<ge> 0 then st \<lparr>rp_downloaded := downloaded\<rparr> else st)
      in a \<lparr>a_repo_progress := AList.update repo st (a_repo_progress a)\<rparr>)"

definition finished_progress :: "bool \<Rightarrow> RepoProgress \<Rightarrow> RepoProgress" where
  "finished_progress success st =
     st \<lparr>rp_finished := True, rp_failed := \<not> success,
        rp_downloaded := (if success \<and> rp_total st > 0 then rp_total st else rp_downloaded st)\<rparr>"

definition repository_finished :: "string \<Rightarrow> bool \<Rightarrow> activity \<Rightarrow> activity" where
  "repository_finished repo success a =
     (let st = at_key new_progress (a_repo_progress a) repo in
      if rp_finished st then a
      else
        let a = a \<lparr>a_repo_progress := AList.update repo (finished_progress success st) (a_repo_progress a)\<rparr>;
            a = (if success then a
                 else recalculate_processing_total
                   (a \<lparr>a_failed_repositories := insert repo (a_failed_repositories a)\<rparr>))
        in a \<lparr>a_completed := a_completed a + 1\<rparr>)"

definition item_key :: "string \<Rightarrow> string \<Rightarrow> string" where
  "item_key repo item = repo @ [LF] @ item"

definition processing_item :: "string \<Rightarrow> string \<Rightarrow> activity \<Rightarrow> activity" where
  "processing_item repo item a =
     (let plan = at_key [] (a_plans a) repo;
          a = a \<lparr>a_processing_started := True\<rparr>;
          a = (if item \<in> set plan then a \<lparr>a_plans := AList.update repo plan (a_plans a)\<rparr>
               else recalculate_processing_total (a \<lparr>a_plans := AList.update repo (plan @ [item]) (a_plans a)\<rparr>));
          a = a \<lparr>a_current_item := repo @ ''/'' @ item\<rparr>
      in if item_key repo item \<in> a_processed_items a then a
         else a \<lparr>a_processed_items := insert (item_key repo item) (a_processed_items a),
                a_processed_per_repo :=
                  AList.update repo (at_key 0 (a_processed_per_repo a) repo + 1) (a_processed_per_repo a)\<rparr>)"

definition finish_plan :: "activity \<Rightarrow> string \<times> string list \<Rightarrow> activity" where
  "finish_plan a plan =
     (case plan of (repo, items) \<Rightarrow>
        if repo \<in> a_failed_repositories a then a
        else a \<lparr>a_processed_items := a_processed_items a \<union> item_key repo ` set items,
               a_processed_per_repo := AList.update repo (length items) (a_processed_per_repo a)\<rparr>)"

definition finish_processing :: "activity \<Rightarrow> activity" where
  "finish_processing a =
     (foldl finish_plan (a \<lparr>a_processing_started := True\<rparr>) (a_plans a)) \<lparr>a_current_item := []\<rparr>"

section \<open>The status line\<close>

definition repo_detail :: "activity \<Rightarrow> string \<Rightarrow> string list" where
  "repo_detail a repo =
     (case map_of (a_repo_progress a) repo of
        None \<Rightarrow> []
      | Some st \<Rightarrow>
          if \<not> a_processing_started a then
            [repo @ (if rp_total st > 0 then '' '' @ dec (nat (percent_of (rp_downloaded st) (rp_total st))) @ ''%''
                     else if rp_failed st then '' FAILED''
                     else if rp_finished st then '' 100%''
                     else '' waiting'')]
          else if repo \<in> a_failed_repositories a then [repo @ '' FAILED'']
          else [repo @ '' '' @ dec (at_key 0 (a_processed_per_repo a) repo) @ ''/'' @
                dec (length (at_key [] (a_plans a) repo))])"

text \<open>The sums over the repositories whose size is known.\<close>

definition aggregate :: "activity \<Rightarrow> int \<times> int" where
  "aggregate a =
     foldl (\<lambda>(tot, downloaded) repo.
       case map_of (a_repo_progress a) repo of
         None \<Rightarrow> (tot, downloaded)
       | Some st \<Rightarrow>
           if rp_total st > 0 then (tot + rp_total st, downloaded + min (rp_downloaded st) (rp_total st))
           else (tot, downloaded)) (0, 0) (a_repositories a)"

definition status_percent :: "activity \<Rightarrow> int" where
  "status_percent a =
     (if a_processing_started a then
        if a_processing_total a = 0 then 100
        else clamp (int (card (a_processed_items a) * 100 div a_processing_total a)) 0 100
      else
        case aggregate a of (tot, downloaded) \<Rightarrow>
          if tot > 0 then percent_of downloaded tot
          else if a_total a > 0 then int (a_completed a * 100 div a_total a)
          else 100)"

definition status_phase :: "activity \<Rightarrow> string" where
  "status_phase a =
     (if a_processing_started a then
        ''Processing metadata'' @ (if a_current_item a \<noteq> [] then '': '' @ a_current_item a else [])
      else ''Repository metadata'')"

fun comma_separated :: "string list \<Rightarrow> string" where
  "comma_separated [] = []"
| "comma_separated [x] = x"
| "comma_separated (x # y # xs) = x @ '', '' @ comma_separated (y # xs)"

definition COLOR_CYAN :: string where "COLOR_CYAN = ESC # ''[36m''"
definition COLOR_GREEN :: string where "COLOR_GREEN = ESC # ''[32m''"
definition COLOR_RESET :: string where "COLOR_RESET = ESC # ''[0m''"

definition spinner :: "nat \<Rightarrow> char" where
  "spinner frame = [CHR ''|'', CHR ''/'', CHR ''-'', CHR 0x5C] ! (frame mod 4)"

definition status_line :: "nat \<Rightarrow> activity \<Rightarrow> string" where
  "status_line frame a =
     (let details = concat (map (repo_detail a) (a_repositories a)) in
      COLOR_CYAN @ [spinner frame] @ COLOR_RESET @ '' '' @ status_phase a @ '' '' @
      COLOR_GREEN @ ''['' @ make_percent_bar (status_percent a) 28 @ '']'' @ COLOR_RESET @ '' '' @
      set_width 3 (dec (nat (status_percent a))) @ ''%'' @
      (if a_processing_started a
       then ''  '' @ dec (card (a_processed_items a)) @ ''/'' @ dec (a_processing_total a)
       else ''  '' @ dec (a_completed a) @ ''/'' @ dec (a_total a)) @
      (if details = [] then [] else ''  {'' @ comma_separated details @ ''}''))"

section \<open>The logger\<close>

text \<open>
  \<^verbatim>\<open>substr(pos, count)\<close> takes at most what is there; \<^verbatim>\<open>count\<close> is unsigned, so a difference below zero
  is a huge number.
\<close>

definition substr :: "nat \<Rightarrow> int \<Rightarrow> string \<Rightarrow> string" where
  "substr pos count s = take (nat (count mod 2 ^ 64)) (drop pos s)"

definition quoted_at :: "nat \<Rightarrow> string \<Rightarrow> string option" where
  "quoted_at start s =
     (let t = drop start s in if DQ \<in> set t then Some (takeWhile (\<lambda>c. c \<noteq> DQ) t) else None)"

abbreviation MAIN_PREFIX :: string where "MAIN_PREFIX \<equiv> ''Loading repomd and primary for repo '' @ [DQ]"
abbreviation EXT_PREFIX :: string where "EXT_PREFIX \<equiv> ''Loading ''"
abbreviation EXT_MARKER :: string where "EXT_MARKER \<equiv> '' extension for repo '' @ [DQ]"

text \<open>The repository and the items that a message of the library is about.\<close>

definition message_items :: "string \<Rightarrow> (string \<times> string list) option" where
  "message_items message =
     (if prefix MAIN_PREFIX message then
        map_option (\<lambda>repo. (repo, [''repomd.xml'', ''primary''])) (quoted_at (length MAIN_PREFIX) message)
      else if prefix EXT_PREFIX message then
        (case strstr message EXT_MARKER of
           None \<Rightarrow> None
         | Some marker_pos \<Rightarrow>
             let item = substr (length EXT_PREFIX) (int marker_pos - int (length EXT_PREFIX)) message in
             map_option (\<lambda>repo. (repo, [item])) (quoted_at (marker_pos + length EXT_MARKER) message))
      else None)"

definition SyspckgLogger_write :: "string \<Rightarrow> activity option \<Rightarrow> activity option" where
  "SyspckgLogger_write message act =
     (case message_items message of
        None \<Rightarrow> act
      | Some (repo, items) \<Rightarrow> map_option (\<lambda>a. foldl (\<lambda>a item. processing_item repo item a) a items) act)"

section \<open>Download callbacks\<close>

abbreviation MAX_MIRROR_TRIES :: nat where "MAX_MIRROR_TRIES \<equiv> 3"

datatype console = Info string | Warn string | OkLine string | Err string | Status string

datatype DownloadContext = NoContext | RepoFetch string "string list" | PackageFetch string nat nat

record DownloadState =
  ds_description :: string
  ds_result_key :: string
  ds_repository_metadata :: bool
  ds_metadata_items :: "string list"
  ds_archive_index :: nat
  ds_archive_total :: nat
  ds_attempt :: nat
  ds_total :: int
  ds_last_bucket :: int
  ds_spinner_frame :: nat

record Result =
  r_successful :: nat
  r_failed :: nat
  r_last_error :: string

record callbacks =
  cb_activity :: "activity option"
  cb_results :: "(string \<times> Result) list"

definition new_result :: Result where
  "new_result = \<lparr>r_successful = 0, r_failed = 0, r_last_error = []\<rparr>"

definition result_for :: "callbacks \<Rightarrow> string \<Rightarrow> Result option" where
  "result_for cb description = map_of (cb_results cb) description"

definition of_total :: "nat \<Rightarrow> nat \<Rightarrow> string" where
  "of_total i n = dec i @ ''/'' @ dec n"

definition progress_bar :: "DownloadState \<Rightarrow> int \<Rightarrow> int \<Rightarrow> string" where
  "progress_bar st downloaded tot =
     (let percent = (if tot > 0 then percent_of downloaded tot else 0) in
      COLOR_CYAN @ [spinner (ds_spinner_frame st)] @ COLOR_RESET @ '' '' @
      (if ds_archive_total st > 0
       then ''archive '' @ of_total (ds_archive_index st) (ds_archive_total st) @ ''  '' else []) @
      ds_description st @ '' '' @ COLOR_GREEN @ ''['' @ make_percent_bar percent 28 @ '']'' @ COLOR_RESET @ '' '' @
      set_width 3 (dec (nat percent)) @ ''%'' @
      (if tot > 0 then ''  '' @ format_bytes downloaded @ ''/'' @ format_bytes tot else []) @
      (if ds_archive_total st > 0
       then ''  attempt '' @ of_total (ds_attempt st) MAX_MIRROR_TRIES else []))"

definition metadata_lines :: "(string \<Rightarrow> console) \<Rightarrow> string \<Rightarrow> string \<Rightarrow> string list \<Rightarrow> console list" where
  "metadata_lines c key what items =
     map (\<lambda>i. c (''['' @ key @ ''] metadata '' @ of_total (i + 1) (length items) @ '' '' @ what @ '': '' @ items ! i))
       [0..<length items]"

definition new_download :: "DownloadContext \<Rightarrow> string option \<Rightarrow> int \<Rightarrow> DownloadState" where
  "new_download ctx description tot =
     (let label = (case description of Some d \<Rightarrow> d | None \<Rightarrow> ''(unknown download)'');
          label = (case ctx of PackageFetch name i n \<Rightarrow> if name \<noteq> [] then name else label | _ \<Rightarrow> label)
      in \<lparr>ds_description = label,
          ds_result_key = (case ctx of RepoFetch repo items \<Rightarrow> repo | _ \<Rightarrow> label),
          ds_repository_metadata = (case ctx of RepoFetch repo items \<Rightarrow> True | _ \<Rightarrow> False),
          ds_metadata_items = (case ctx of RepoFetch repo items \<Rightarrow> items | _ \<Rightarrow> []),
          ds_archive_index = (case ctx of PackageFetch name i n \<Rightarrow> i | _ \<Rightarrow> 0),
          ds_archive_total = (case ctx of PackageFetch name i n \<Rightarrow> n | _ \<Rightarrow> 0),
          ds_attempt = 1, ds_total = tot, ds_last_bucket = - 10, ds_spinner_frame = 0\<rparr>)"

definition add_new_download ::
  "bool \<Rightarrow> DownloadContext \<Rightarrow> string option \<Rightarrow> int \<Rightarrow> DownloadState \<times> console list" where
  "add_new_download interactive ctx description tot =
     (let st = new_download ctx description tot in
      (st,
       if ds_repository_metadata st then metadata_lines Info (ds_result_key st) ''queued'' (ds_metadata_items st)
       else if interactive then [Status (progress_bar st 0 tot)]
       else [Info (''Fetch start: '' @
         (if ds_archive_total st > 0
          then ''archive '' @ of_total (ds_archive_index st) (ds_archive_total st) @ '' '' else []) @
         ds_description st @ '' ('' @ format_bytes tot @ ''), attempt '' @ of_total (ds_attempt st) MAX_MIRROR_TRIES)]))"

definition progress :: "bool \<Rightarrow> int \<Rightarrow> int \<Rightarrow> callbacks \<times> DownloadState \<Rightarrow> (callbacks \<times> DownloadState) \<times> console list" where
  "progress interactive tot downloaded s =
     (case s of (cb, st) \<Rightarrow>
        if tot \<le> 0 then (s, [])
        else
          let percent = percent_of downloaded tot;
              bucket = percent div 10 * 10;
              st = st \<lparr>ds_spinner_frame := ds_spinner_frame st + 1\<rparr>
          in if ds_repository_metadata st then
               ((cb \<lparr>cb_activity := map_option (update_repo_progress (ds_result_key st) tot downloaded) (cb_activity cb)\<rparr>, st), [])
             else if interactive then ((cb, st), [Status (progress_bar st downloaded tot)])
             else if bucket \<ge> ds_last_bucket st + 10 then
               ((cb, st \<lparr>ds_last_bucket := bucket\<rparr>),
                [Info (''Fetch progress: '' @ ds_description st @ '' '' @ dec (nat percent) @ ''% ('' @
                  format_bytes downloaded @ ''/'' @ format_bytes tot @ '')'')])
             else ((cb, st), []))"

datatype TransferStatus = SUCCESSFUL | ALREADYEXISTS | ERROR

definition write_failed :: "string \<Rightarrow> bool" where
  "write_failed message \<longleftrightarrow>
     sublist ''Failed writing'' message \<or> sublist ''writing received data to disk'' message
     \<or> sublist ''disk/application'' message"

definition count_result :: "TransferStatus \<Rightarrow> string option \<Rightarrow> Result \<Rightarrow> Result" where
  "count_result status msg r =
     (if status = ERROR
      then r \<lparr>r_failed := r_failed r + 1,
             r_last_error := (case msg of Some m \<Rightarrow> m | None \<Rightarrow> ''unknown download error'')\<rparr>
      else r \<lparr>r_successful := r_successful r + 1\<rparr>)"

definition end_lines :: "DownloadState \<Rightarrow> TransferStatus \<Rightarrow> string \<Rightarrow> console list" where
  "end_lines st status last_error =
     (let archive = (\<lambda>what. ''Archive '' @ of_total (ds_archive_index st) (ds_archive_total st) @ '' '' @ what) in
      case status of
        SUCCESSFUL \<Rightarrow>
          if ds_repository_metadata st then metadata_lines OkLine (ds_result_key st) ''downloaded'' (ds_metadata_items st)
          else if ds_archive_total st > 0 then [OkLine (archive (''fetched: '' @ ds_description st))]
          else [OkLine (''Fetch complete: '' @ ds_description st)]
      | ALREADYEXISTS \<Rightarrow>
          if ds_repository_metadata st then metadata_lines Info (ds_result_key st) ''cache hit'' (ds_metadata_items st)
          else if ds_archive_total st > 0 then [Info (archive (''cache hit: '' @ ds_description st))]
          else [Info (''Fetch cache hit: '' @ ds_description st)]
      | ERROR \<Rightarrow>
          (if ds_archive_total st > 0
           then [Warn (archive (''failed after attempt '' @ of_total (ds_attempt st) MAX_MIRROR_TRIES @ '': '' @
                   ds_description st @ '' -> '' @ last_error))]
           else [Warn (''Fetch failed: '' @ ds_description st @ '' -> '' @ last_error)]) @
          (if write_failed last_error
           then [Warn (''Download destination write failed; check free space and write access in '' @
                   ''/var/cache/libdnf5 and the root filesystem'')] else []))"

definition end_download ::
  "bool \<Rightarrow> TransferStatus \<Rightarrow> string option \<Rightarrow> DownloadState \<Rightarrow> callbacks \<Rightarrow> callbacks \<times> console list" where
  "end_download interactive status msg st cb =
     (let r = count_result status msg (at_key new_result (cb_results cb) (ds_result_key st));
          act = (if ds_repository_metadata st
                 then map_option (repository_finished (ds_result_key st) (status \<noteq> ERROR)) (cb_activity cb)
                 else cb_activity cb)
      in (cb \<lparr>cb_activity := act, cb_results := AList.update (ds_result_key st) r (cb_results cb)\<rparr>,
          (if \<not> ds_repository_metadata st \<and> interactive \<and> status \<noteq> ERROR
           then [Status (progress_bar st (ds_total st) (ds_total st))] else []) @
          end_lines st status (r_last_error r)))"

definition optional_part :: "string \<Rightarrow> string option \<Rightarrow> string \<Rightarrow> string" where
  "optional_part before part behind =
     (case part of None \<Rightarrow> [] | Some p \<Rightarrow> if p = [] then [] else before @ p @ behind)"

definition mirror_failure ::
  "bool \<Rightarrow> string option \<Rightarrow> string option \<Rightarrow> string option \<Rightarrow> DownloadState \<Rightarrow> DownloadState \<times> console list" where
  "mirror_failure interactive msg url metadata st =
     (let archive = ''rchive '' @ of_total (ds_archive_index st) (ds_archive_total st);
          detail = (if ds_archive_total st > 0
                    then ''A'' @ archive @ '' attempt '' @ of_total (ds_attempt st) MAX_MIRROR_TRIES @ '' failed''
                    else ''Mirror failed'') @
            optional_part '': '' url [] @ optional_part '' ['' metadata '']'' @ optional_part '' -> '' msg []
      in if ds_archive_total st > 0 \<and> ds_attempt st < MAX_MIRROR_TRIES then
           let st = st \<lparr>ds_attempt := ds_attempt st + 1\<rparr> in
           (st, [Warn detail,
             if interactive then Status (progress_bar st 0 (ds_total st))
             else Info (''Retrying a'' @ archive @ '': '' @ ds_description st @ '', attempt '' @
                    of_total (ds_attempt st) MAX_MIRROR_TRIES)])
         else (st, [Warn detail]))"

section \<open>Lemmas: the state under any interleaving\<close>

text \<open>The operations of the callbacks and of the logger, in whatever order they get the mutex.\<close>

datatype activity_op = Update string int int | Finished string bool | Processing string string

fun perform :: "activity \<Rightarrow> activity_op \<Rightarrow> activity" where
  "perform a (Update repo tot downloaded) = update_repo_progress repo tot downloaded a"
| "perform a (Finished repo success) = repository_finished repo success a"
| "perform a (Processing repo item) = processing_item repo item a"

fun op_repo :: "activity_op \<Rightarrow> string" where
  "op_repo (Update repo tot downloaded) = repo"
| "op_repo (Finished repo success) = repo"
| "op_repo (Processing repo item) = repo"

abbreviation plan_of :: "activity \<Rightarrow> string \<Rightarrow> string list" where
  "plan_of a \<equiv> at_key [] (a_plans a)"

definition done_items :: "activity \<Rightarrow> string \<Rightarrow> string set" where
  "done_items a repo = {item. item_key repo item \<in> a_processed_items a}"

definition plans_ok :: "(string \<times> string list) list \<Rightarrow> bool" where
  "plans_ok plans \<longleftrightarrow> distinct (map fst plans) \<and> list_all (\<lambda>(r, items). LF \<notin> set r \<and> distinct items) plans"

definition activity_inv :: "activity \<Rightarrow> bool" where
  "activity_inv a \<longleftrightarrow> plans_ok (a_plans a)
     \<and> a_processing_total a = sum_list (map (\<lambda>(r, items). if r \<in> a_failed_repositories a then 0 else length items) (a_plans a))
     \<and> a_processed_items a \<subseteq> (\<Union>(r, items) \<in> set (a_plans a). item_key r ` set items)
     \<and> (\<forall>r. LF \<notin> set r \<longrightarrow> at_key 0 (a_processed_per_repo a) r = card (done_items a r))"

lemma item_key_inject:
  "LF \<notin> set r \<Longrightarrow> LF \<notin> set r' \<Longrightarrow> item_key r i = item_key r' i' \<longleftrightarrow> r = r' \<and> i = i'"
proof (induction r arbitrary: r')
  case Nil
  then show ?case by (cases r') (auto simp: item_key_def)
next
  case (Cons c r)
  then show ?case by (cases r') (auto simp: item_key_def)
qed

lemma at_key_update: "at_key d (AList.update k v m) k' = (if k' = k then v else at_key d m k')"
  by (simp add: at_key_def update_conv')

lemma foldl_total:
  "foldl (\<lambda>n (repo, items). if repo \<in> F then n else n + length items) n plans =
    n + sum_list (map (\<lambda>(r, items). if r \<in> F then 0 else length items) plans)"
  by (induction plans arbitrary: n) (auto split: prod.splits)

lemma recalculate_total [simp]:
  "a_processing_total (recalculate_processing_total a) =
    sum_list (map (\<lambda>(r, items). if r \<in> a_failed_repositories a then 0 else length items) (a_plans a))"
  by (simp add: recalculate_processing_total_def foldl_total)

lemma recalculate_rest [simp]:
  "a_plans (recalculate_processing_total a) = a_plans a"
  "a_failed_repositories (recalculate_processing_total a) = a_failed_repositories a"
  "a_processed_items (recalculate_processing_total a) = a_processed_items a"
  "a_processed_per_repo (recalculate_processing_total a) = a_processed_per_repo a"
  by (simp_all add: recalculate_processing_total_def)

lemma plans_ok_lookup: "plans_ok plans \<Longrightarrow> (r, items) \<in> set plans \<longleftrightarrow> map_of plans r = Some items"
  by (auto simp: plans_ok_def dest: map_of_SomeD)

lemma plans_ok_update:
  assumes "plans_ok plans" and "LF \<notin> set r" and "distinct items"
  shows "plans_ok (AList.update r items plans)"
proof -
  have "list_all (\<lambda>(r, items). LF \<notin> set r \<and> distinct items) (AList.update r items plans)"
    using assms by (induction plans) (auto simp: plans_ok_def)
  with assms(1) show ?thesis by (simp add: plans_ok_def distinct_update)
qed

lemma plans_ok_D:
  "plans_ok plans \<Longrightarrow> map_of plans r = Some items \<Longrightarrow> LF \<notin> set r \<and> distinct items"
  by (auto simp: plans_ok_def list_all_iff dest!: map_of_SomeD)

text \<open>What has been processed in a repository is part of its plan.\<close>

lemma done_items_planned:
  assumes "activity_inv a" and "LF \<notin> set r"
  shows "done_items a r \<subseteq> set (plan_of a r)"
proof
  fix item
  assume "item \<in> done_items a r"
  then obtain r' items where m: "(r', items) \<in> set (a_plans a)" "item_key r item \<in> item_key r' ` set items"
    using assms(1) by (auto simp: done_items_def activity_inv_def)
  have ok: "plans_ok (a_plans a)" using assms(1) by (simp add: activity_inv_def)
  with m(1) have map: "map_of (a_plans a) r' = Some items" by (simp add: plans_ok_lookup)
  with plans_ok_D [OF ok map] m(2) assms(2) have "r = r'" "item \<in> set items"
    by (auto simp: item_key_inject)
  with map show "item \<in> set (plan_of a r)" by (simp add: at_key_def)
qed

lemma new_activity_inv: "plans_ok plans \<Longrightarrow> activity_inv (MetadataActivity repositories plans)"
  by (simp add: MetadataActivity_def activity_inv_def done_items_def at_key_def)

lemma update_repo_progress_inv: "activity_inv a \<Longrightarrow> activity_inv (update_repo_progress r tot d a)"
  by (simp add: update_repo_progress_def activity_inv_def done_items_def Let_def)

lemma repository_finished_inv: "activity_inv a \<Longrightarrow> activity_inv (repository_finished r success a)"
  by (simp add: repository_finished_def activity_inv_def done_items_def Let_def)

lemma planned_update:
  assumes "plans_ok plans" and "set (at_key [] plans r) \<subseteq> set items"
  shows "(\<Union>(r, items) \<in> set plans. item_key r ` set items) \<subseteq>
    (\<Union>(r, items) \<in> set (AList.update r items plans). item_key r ` set items)"
proof -
  have look: "map_of (AList.update r items plans) r' = Some is \<Longrightarrow> (r', is) \<in> set (AList.update r items plans)" for r' "is"
    by (rule map_of_SomeD)
  show ?thesis
  proof (clarify, rule UN_I)
    fix r' is' item
    assume m: "(r', is') \<in> set plans" and "item \<in> set is'"
    let ?is = "if r' = r then items else is'"
    have map: "map_of plans r' = Some is'" using m assms(1) by (simp add: plans_ok_lookup)
    then show "(r', ?is) \<in> set (AList.update r items plans)" by (intro look) (simp add: update_conv')
    show "item_key r' item \<in> (case (r', ?is) of (r, items) \<Rightarrow> item_key r ` set items)"
      using \<open>item \<in> set is'\<close> assms(2) map by (auto simp: at_key_def)
  qed
qed

lemma update_same: "map_of m k = Some v \<Longrightarrow> AList.update k v m = m"
  by (induction m) auto

lemma processing_item_sel:
  "a_plans (processing_item r item a) =
    AList.update r (if item \<in> set (plan_of a r) then plan_of a r else plan_of a r @ [item]) (a_plans a)"
  "a_failed_repositories (processing_item r item a) = a_failed_repositories a"
  "a_processed_items (processing_item r item a) = insert (item_key r item) (a_processed_items a)"
  "at_key 0 (a_processed_per_repo (processing_item r item a)) r' =
    at_key 0 (a_processed_per_repo a) r' + (if r' = r \<and> item \<notin> done_items a r then 1 else 0)"
  "item \<in> set (plan_of a r) \<Longrightarrow> a_processing_total (processing_item r item a) = a_processing_total a"
  "item \<notin> set (plan_of a r) \<Longrightarrow> a_processing_total (processing_item r item a) =
    sum_list (map (\<lambda>(r, items). if r \<in> a_failed_repositories a then 0 else length items)
      (AList.update r (plan_of a r @ [item]) (a_plans a)))"
  unfolding processing_item_def Let_def
  by (simp_all add: insert_absorb at_key_update done_items_def)

lemma insert_subset_via: "k \<in> C \<Longrightarrow> B \<subseteq> C \<Longrightarrow> A \<subseteq> B \<Longrightarrow> insert k A \<subseteq> C"
  by blast

lemma processing_item_inv:
  assumes "activity_inv a" and "LF \<notin> set r"
  shows "activity_inv (processing_item r item a)"
proof -
  let ?plan = "plan_of a r"
  let ?plan' = "if item \<in> set ?plan then ?plan else ?plan @ [item]"
  let ?b = "processing_item r item a"
  have ok: "plans_ok (a_plans a)" using assms(1) by (simp add: activity_inv_def)
  have dist: "distinct ?plan'"
  proof (cases "map_of (a_plans a) r")
    case (Some items)
    with plans_ok_D [OF ok Some] show ?thesis by (simp add: at_key_def)
  qed (simp add: at_key_def)
  have same: "AList.update r ?plan (a_plans a) = a_plans a" if "item \<in> set ?plan"
    using that by (cases "map_of (a_plans a) r") (simp_all add: at_key_def update_same)
  have plans: "a_plans ?b = AList.update r ?plan' (a_plans a)"
    and failed: "a_failed_repositories ?b = a_failed_repositories a"
    and processed: "a_processed_items ?b = insert (item_key r item) (a_processed_items a)"
    by (rule processing_item_sel)+
  have total: "a_processing_total ?b =
      sum_list (map (\<lambda>(r, items). if r \<in> a_failed_repositories ?b then 0 else length items) (a_plans ?b))"
  proof (cases "item \<in> set ?plan")
    case True
    then show ?thesis using assms(1) same by (simp add: processing_item_sel activity_inv_def)
  next
    case False
    then show ?thesis by (simp add: processing_item_sel)
  qed
  let ?planned = "\<lambda>plans. (\<Union>(r, items) \<in> set plans. item_key r ` set items)"
  have "(r, ?plan') \<in> set (a_plans ?b)" unfolding plans by (rule map_of_SomeD) (simp add: update_conv')
  then have "item_key r item \<in> ?planned (a_plans ?b)" by (rule UN_I) simp
  moreover have "?planned (a_plans a) \<subseteq> ?planned (a_plans ?b)"
    unfolding plans using ok by (rule planned_update) auto
  moreover have "a_processed_items a \<subseteq> ?planned (a_plans a)" using assms(1) by (simp add: activity_inv_def)
  ultimately have "a_processed_items ?b \<subseteq> ?planned (a_plans ?b)" unfolding processed
    by (rule insert_subset_via)
  moreover have "at_key 0 (a_processed_per_repo ?b) r' = card (done_items ?b r')" if "LF \<notin> set r'" for r'
  proof -
    have fin: "finite (done_items a r')"
      using done_items_planned [OF assms(1) that] by (rule finite_subset) simp
    have "done_items ?b r' = (if r' = r then insert item (done_items a r') else done_items a r')"
      using that assms(2) by (auto simp: done_items_def processed item_key_inject)
    moreover have "at_key 0 (a_processed_per_repo ?b) r' =
        at_key 0 (a_processed_per_repo a) r' + (if r' = r \<and> item \<notin> done_items a r then 1 else 0)"
      by (rule processing_item_sel)
    moreover have "at_key 0 (a_processed_per_repo a) r' = card (done_items a r')"
      using assms(1) that by (simp add: activity_inv_def)
    ultimately show ?thesis using fin by (cases "r' = r") (simp_all add: card_insert_if)
  qed
  ultimately show ?thesis
    using plans_ok_update [OF ok assms(2) dist] total by (simp add: activity_inv_def plans)
qed

lemma performed_inv:
  "activity_inv a \<Longrightarrow> list_all (\<lambda>x. LF \<notin> set (op_repo x)) ops \<Longrightarrow> activity_inv (foldl perform a ops)"
proof (induction ops arbitrary: a)
  case (Cons x ops)
  then show ?case
    by (cases x) (simp_all add: update_repo_progress_inv repository_finished_inv processing_item_inv)
qed simp

definition planned :: "(string \<times> string list) list \<Rightarrow> string set" where
  "planned plans = (\<Union>(r, items) \<in> set plans. item_key r ` set items)"

abbreviation live_plans :: "activity \<Rightarrow> (string \<times> string list) list" where
  "live_plans a \<equiv> filter (\<lambda>p. fst p \<notin> a_failed_repositories a) (a_plans a)"

lemma finite_planned: "finite (planned plans)"
  by (auto simp: planned_def)

lemma planned_Cons: "planned ((r, items) # plans) = item_key r ` set items \<union> planned plans"
  by (simp add: planned_def)

lemma plans_ok_Cons:
  "plans_ok ((r, items) # plans) \<longleftrightarrow> r \<notin> fst ` set plans \<and> LF \<notin> set r \<and> distinct items \<and> plans_ok plans"
  by (auto simp: plans_ok_def)

lemma planned_repo: "plans_ok plans \<Longrightarrow> item_key r i \<in> planned plans \<Longrightarrow> LF \<notin> set r \<Longrightarrow> r \<in> fst ` set plans"
  by (induction plans) (auto simp: plans_ok_Cons planned_Cons item_key_inject, simp add: planned_def)

lemma card_planned: "plans_ok plans \<Longrightarrow> card (planned plans) = sum_list (map (\<lambda>(r, items). length items) plans)"
proof (induction plans)
  case (Cons p plans)
  obtain r items where p: "p = (r, items)" by (cases p)
  have ok: "r \<notin> fst ` set plans" "LF \<notin> set r" "distinct items" "plans_ok plans"
    using Cons.prems by (simp_all add: p plans_ok_Cons)
  have "item_key r ` set items \<inter> planned plans = {}"
    using planned_repo [OF ok(4)] ok(1,2) by blast
  then have "card (planned (p # plans)) = card (item_key r ` set items) + card (planned plans)"
    by (simp add: p planned_Cons card_Un_disjoint finite_planned)
  also have "card (item_key r ` set items) = length items"
    using ok(2,3) by (simp add: card_image inj_on_def item_key_inject distinct_card)
  finally show ?case using Cons.IH [OF ok(4)] by (simp add: p)
qed (simp add: planned_def)

lemma live_total:
  "sum_list (map (\<lambda>(r, items). length items) (filter (\<lambda>p. fst p \<notin> F) plans)) =
    sum_list (map (\<lambda>(r, items). if r \<in> F then 0 else length items) plans)"
  by (induction plans) auto

lemma plans_ok_filter: "plans_ok plans \<Longrightarrow> plans_ok (filter P plans)"
  by (auto simp: plans_ok_def list_all_iff distinct_map_filter)

lemma card_live: "activity_inv a \<Longrightarrow> card (planned (live_plans a)) = a_processing_total a"
  by (simp add: activity_inv_def card_planned plans_ok_filter live_total)

lemma processed_live:
  assumes "activity_inv a" and "\<forall>r \<in> a_failed_repositories a. done_items a r = {}"
  shows "a_processed_items a \<subseteq> planned (live_plans a)"
proof
  fix k
  assume k: "k \<in> a_processed_items a"
  then obtain r items i where m: "(r, items) \<in> set (a_plans a)" "i \<in> set items" "k = item_key r i"
    using assms(1) by (auto simp: activity_inv_def)
  with k assms(2) have "r \<notin> a_failed_repositories a" by (auto simp: done_items_def)
  with m show "k \<in> planned (live_plans a)" by (auto simp: planned_def)
qed

lemma finish_fold:
  "a_failed_repositories (foldl finish_plan a plans) = a_failed_repositories a"
  "a_processing_total (foldl finish_plan a plans) = a_processing_total a"
  "a_processing_started (foldl finish_plan a plans) = a_processing_started a"
  "a_processed_items (foldl finish_plan a plans) =
    a_processed_items a \<union> planned (filter (\<lambda>p. fst p \<notin> a_failed_repositories a) plans)"
proof (induction plans arbitrary: a)
  case (Cons p plans)
  case 1 show ?case using Cons.IH(1) by (cases p) (simp add: finish_plan_def)
  case 2 show ?case using Cons.IH(2) by (cases p) (simp add: finish_plan_def)
  case 3 show ?case using Cons.IH(3) by (cases p) (simp add: finish_plan_def)
  case 4 show ?case using Cons.IH(4) by (cases p) (auto simp: finish_plan_def planned_Cons)
qed (simp_all add: planned_def)

lemma takeWhile_neq_append: "d \<notin> set q \<Longrightarrow> takeWhile (\<lambda>x. x \<noteq> d) (q @ r) = q @ takeWhile (\<lambda>x. x \<noteq> d) r"
  by (induction q) auto

text \<open>A pattern that ends with a character found nowhere before it is found at its place.\<close>

lemma strstr_terminated:
  "d \<notin> set pre \<Longrightarrow> d \<notin> set q \<Longrightarrow> strstr (pre @ q @ d # post) (q @ [d]) = Some (length pre)"
proof (induction pre)
  case Nil
  show ?case by (cases q) auto
next
  case (Cons c pre)
  have "\<not> prefix (q @ [d]) (c # pre @ q @ d # post)"
  proof
    assume "prefix (q @ [d]) (c # pre @ q @ d # post)"
    then obtain u where "(c # pre @ q) @ d # post = q @ d # u" by (auto simp: prefix_def)
    then have "takeWhile (\<lambda>x. x \<noteq> d) ((c # pre @ q) @ d # post) = takeWhile (\<lambda>x. x \<noteq> d) (q @ d # u)" by (rule arg_cong)
    then have "c # pre @ q = q" using Cons.prems by (auto simp: takeWhile_neq_append)
    then show False by (metis length_append length_Cons add_Suc_right less_add_Suc2 less_irrefl add.commute)
  qed
  with Cons show ?case by simp
qed

text \<open>One download as the library reports it when the output is not a terminal.\<close>

datatype download_op = Bytes int int | MirrorFailed "string option" "string option" "string option"

fun report :: "download_op \<Rightarrow> callbacks \<times> DownloadState \<Rightarrow> (callbacks \<times> DownloadState) \<times> console list" where
  "report (Bytes tot downloaded) s = progress False tot downloaded s"
| "report (MirrorFailed msg url metadata) (cb, st) =
     (case mirror_failure False msg url metadata st of (st', out) \<Rightarrow> ((cb, st'), out))"

fun report_all :: "download_op list \<Rightarrow> callbacks \<times> DownloadState \<Rightarrow> (callbacks \<times> DownloadState) \<times> console list" where
  "report_all [] s = (s, [])"
| "report_all (x # xs) s =
     (case report x s of (s1, out1) \<Rightarrow> case report_all xs s1 of (s2, out2) \<Rightarrow> (s2, out1 @ out2))"

definition says :: "string \<Rightarrow> console \<Rightarrow> bool" where
  "says what line = (case line of Info s \<Rightarrow> prefix what s | _ \<Rightarrow> False)"

abbreviation said :: "string \<Rightarrow> console list \<Rightarrow> nat" where
  "said what out \<equiv> length (filter (says what) out)"

lemma percent_of_range: "0 \<le> percent_of d t" "percent_of d t \<le> 100"
  by (simp_all add: percent_of_def clamp_def)

lemma report_step:
  assumes "report x (cb, st) = ((cb', st'), out)" and "ds_last_bucket st \<le> 100" and "ds_attempt st \<le> 3"
  shows "10 * int (said ''Fetch progress: '' out) + ds_last_bucket st \<le> ds_last_bucket st'"
    and "ds_last_bucket st' \<le> 100"
    and "said ''Retrying '' out + ds_attempt st = ds_attempt st'" and "ds_attempt st' \<le> 3"
proof -
  have "percent_of d t div 10 * 10 \<le> 100" for d t using percent_of_range(2) [of d t] by linarith
  with assms show "10 * int (said ''Fetch progress: '' out) + ds_last_bucket st \<le> ds_last_bucket st'"
    "ds_last_bucket st' \<le> 100" "said ''Retrying '' out + ds_attempt st = ds_attempt st'" "ds_attempt st' \<le> 3"
    by (cases x; auto simp: progress_def mirror_failure_def says_def Let_def split: if_splits)+
qed

lemma report_all_bounds:
  "report_all xs (cb, st) = ((cb', st'), out) \<Longrightarrow> ds_last_bucket st \<le> 100 \<Longrightarrow> ds_attempt st \<le> 3 \<Longrightarrow>
    10 * int (said ''Fetch progress: '' out) + ds_last_bucket st \<le> 100
    \<and> said ''Retrying '' out + ds_attempt st = ds_attempt st' \<and> ds_attempt st' \<le> 3"
proof (induction xs arbitrary: cb st out)
  case (Cons x xs)
  obtain cb1 st1 out1 where r: "report x (cb, st) = ((cb1, st1), out1)" by (metis surj_pair)
  obtain out2 where rest: "report_all xs (cb1, st1) = ((cb', st'), out2)" "out = out1 @ out2"
    using Cons.prems(1) r by (auto split: prod.splits)
  note step = report_step [OF r Cons.prems(2,3)]
  from Cons.IH [OF rest(1) step(2,4)] step rest(2) show ?case by simp
qed auto

section \<open>Properties\<close>

text \<open>
  C27. The counts of the status line are right however the callbacks and the logger interleave. As long
  as a failed repository has had none of its metadata processed, no repository shows more processed
  items than it has, the sum does not pass the total, and when the loading is finished the count is
  the total and the bar shows 100 percent.
\<close>

theorem metadata_counts_exact:
  assumes "plans_ok plans" and "list_all (\<lambda>x. LF \<notin> set (op_repo x)) ops"
    and "a = foldl perform (MetadataActivity repositories plans) ops"
    and "\<forall>r \<in> a_failed_repositories a. done_items a r = {}"
  shows "list_all (\<lambda>(r, items). at_key 0 (a_processed_per_repo a) r \<le> length items) (a_plans a)
    \<and> card (a_processed_items a) \<le> a_processing_total a
    \<and> card (a_processed_items (finish_processing a)) = a_processing_total (finish_processing a)
    \<and> status_percent (finish_processing a) = 100"
proof -
  have inv: "activity_inv a"
    unfolding assms(3) by (intro performed_inv new_activity_inv assms(1,2))
  have "at_key 0 (a_processed_per_repo a) r \<le> length items" if "(r, items) \<in> set (a_plans a)" for r items
  proof -
    have ok: "plans_ok (a_plans a)" using inv by (simp add: activity_inv_def)
    with that have map: "map_of (a_plans a) r = Some items" by (simp add: plans_ok_lookup)
    note r = plans_ok_D [OF ok map]
    have "card (done_items a r) \<le> card (set items)"
      using done_items_planned [OF inv, of r] r map by (intro card_mono) (simp_all add: at_key_def)
    also have "\<dots> \<le> length items" by (rule card_length)
    finally show ?thesis using inv r by (simp add: activity_inv_def)
  qed
  moreover have live: "a_processed_items a \<subseteq> planned (live_plans a)"
    using inv assms(4) by (rule processed_live)
  then have "card (a_processed_items a) \<le> a_processing_total a"
    using card_live [OF inv] card_mono [OF finite_planned live] by simp
  moreover have "a_processed_items (finish_processing a) = planned (live_plans a)"
    using live by (auto simp: finish_processing_def finish_fold)
  ultimately show ?thesis
    using card_live [OF inv]
    by (auto simp: list_all_iff status_percent_def finish_processing_def finish_fold clamp_def)
qed

definition sample_ops :: "activity_op list" where
  "sample_ops = [Update ''fedora'' 10 5, Finished ''fedora'' True, Processing ''fedora'' ''primary'',
     Processing ''fedora'' ''comps'']"

theorem metadata_counts_exact_witness:
  "card (a_processed_items (finish_processing
      (foldl perform (MetadataActivity [''fedora''] [(''fedora'', [''primary''])]) sample_ops))) = 2"
proof -
  let ?a = "foldl perform (MetadataActivity [''fedora''] [(''fedora'', [''primary''])]) sample_ops"
  have ok: "plans_ok [(''fedora'', [''primary''])]" "list_all (\<lambda>x. LF \<notin> set (op_repo x)) sample_ops"
    by code_simp+
  have "a_failed_repositories ?a = {}" and total: "a_processing_total (finish_processing ?a) = 2"
    by (simp_all add: sample_ops_def MetadataActivity_def recalculate_processing_total_def update_repo_progress_def
        repository_finished_def finished_progress_def processing_item_def finish_processing_def finish_plan_def
        at_key_def new_progress_def Let_def)
  then have "\<forall>r \<in> a_failed_repositories ?a. done_items ?a r = {}" by simp
  from metadata_counts_exact [OF ok refl this] total show ?thesis by simp
qed

text \<open>
  A download does not flood a log file: however often the library reports progress and however
  many mirrors fail, one archive gets at most eleven progress lines, at most two retries are
  announced, and the attempt shown is one of three.
\<close>

theorem download_lines_bounded:
  assumes "report_all xs (cb, fst (add_new_download False ctx description tot)) = ((cb', st'), out)"
  shows "said ''Fetch progress: '' out \<le> 11 \<and> said ''Retrying '' out \<le> 2 \<and> ds_attempt st' \<in> {1..3}"
  using report_all_bounds [OF assms] by (auto simp: add_new_download_def new_download_def Let_def)

definition sample_reports :: "(callbacks \<times> DownloadState) \<times> console list" where
  "sample_reports =
     report_all [Bytes 100 5, MirrorFailed None None None, Bytes 100 5, Bytes 100 95]
       (\<lparr>cb_activity = None, cb_results = []\<rparr>, fst (add_new_download False (PackageFetch ''a.rpm'' 1 2) None 100))"

theorem download_lines_bounded_witness:
  "said ''Fetch progress: '' (snd sample_reports) \<le> 11 \<and> said ''Retrying '' (snd sample_reports) \<le> 2"
proof -
  obtain cb st out where r: "sample_reports = ((cb, st), out)" by (metis surj_pair)
  from download_lines_bounded [OF r [unfolded sample_reports_def]] show ?thesis unfolding r by simp
qed

text \<open>
  The logger reads back what the library writes: a message about an extension of a repository
  counts exactly that item of exactly that repository.
\<close>

theorem extension_message_round_trip:
  assumes "DQ \<notin> set repo" and "DQ \<notin> set item" and "length item < 2 ^ 64"
  shows "message_items (EXT_PREFIX @ item @ EXT_MARKER @ repo @ [DQ] @ rest) = Some (repo, [item])"
proof -
  let ?m = "EXT_PREFIX @ item @ EXT_MARKER @ repo @ [DQ] @ rest"
  let ?q = "'' extension for repo ''"
  have "takeWhile (\<lambda>c. c \<noteq> DQ) (EXT_PREFIX @ item @ ?q @ DQ # repo @ [DQ] @ rest) = EXT_PREFIX @ item @ ?q"
    using assms(2) by (simp add: takeWhile_neq_append)
  moreover have "takeWhile (\<lambda>c. c \<noteq> DQ) ?m = ''Loading repomd and primary for repo ''" if "prefix MAIN_PREFIX ?m"
    using that by (auto simp: prefix_def)
  moreover have "EXT_PREFIX @ item @ ?q \<noteq> ''Loading repomd and primary for repo ''"
    using arg_cong [where f = "\<lambda>s. take 10 (rev s)", of "EXT_PREFIX @ item @ ?q" "''Loading repomd and primary for repo ''"]
    by auto
  ultimately have not_main: "\<not> prefix MAIN_PREFIX ?m" by auto
  have "strstr ((EXT_PREFIX @ item) @ ?q @ DQ # repo @ [DQ] @ rest) (?q @ [DQ]) = Some (length (EXT_PREFIX @ item))"
    using assms(2) by (intro strstr_terminated) auto
  then have pos: "strstr ?m EXT_MARKER = Some (8 + length item)" by simp
  have exact: "n = length u \<Longrightarrow> drop n (u @ v) = v" for n and u v :: string by simp
  have "drop (8 + length item + length EXT_MARKER) ((EXT_PREFIX @ item @ EXT_MARKER) @ repo @ [DQ] @ rest) = repo @ [DQ] @ rest"
    by (rule exact) simp
  then have "drop (8 + length item + length EXT_MARKER) ?m = repo @ [DQ] @ rest" by (simp only: append_assoc)
  moreover have "takeWhile (\<lambda>c. c \<noteq> DQ) (repo @ [DQ] @ rest) = repo"
    using assms(1) by (simp add: takeWhile_neq_append)
  ultimately have quoted: "quoted_at (8 + length item + length EXT_MARKER) ?m = Some repo"
    unfolding quoted_at_def Let_def by (simp only:) simp
  have sub: "substr (length EXT_PREFIX) (int (8 + length item) - int (length EXT_PREFIX)) ?m = item"
    using assms(3) by (simp add: substr_def)
  have "prefix EXT_PREFIX ?m" by simp
  then show ?thesis
    unfolding message_items_def by (simp only: not_main pos quoted sub if_True if_False option.case option.map Let_def)
qed

theorem extension_message_round_trip_witness:
  "message_items (EXT_PREFIX @ ''filelists'' @ EXT_MARKER @ ''updates'' @ [DQ] @ ''.'') = Some (''updates'', [''filelists''])"
  by (rule extension_message_round_trip) simp_all

end
