(* ===== verification/Console.thy ===== *)
theory Console
  imports Activity
begin

text \<open>
  The console of \<^verbatim>\<open>tools/syspckg/main.cpp\<close>: a status line that is drawn over and over again, and log
  lines that may come between two drawings, from any thread that gets \<^verbatim>\<open>console_mutex\<close>. The state is
  \<^verbatim>\<open>status_line_active\<close> and what has been written to the terminal. The mutex makes every operation
  one step, so a run is a sequence of operations of all threads.
\<close>

section \<open>Operations\<close>

definition COLOR_RED :: string where "COLOR_RED = ESC # ''[31m''"
definition COLOR_YELLOW :: string where "COLOR_YELLOW = ESC # ''[33m''"

text \<open>\<open>EraseLine\<close> is the carriage return with the control sequence that erases the line.\<close>

datatype out_item = EraseLine | Chars string | Newline

record console_state =
  c_status_line_active :: bool
  c_written :: "out_item list"

definition clear_status_line_locked :: "bool \<Rightarrow> console_state \<Rightarrow> console_state" where
  "clear_status_line_locked interactive c =
     (if \<not> c_status_line_active c \<or> \<not> interactive then c
      else c \<lparr>c_status_line_active := False, c_written := c_written c @ [EraseLine]\<rparr>)"

definition render_status_line :: "bool \<Rightarrow> string \<Rightarrow> console_state \<Rightarrow> console_state" where
  "render_status_line interactive message c =
     (if \<not> interactive then c
      else c \<lparr>c_status_line_active := True, c_written := c_written c @ [EraseLine, Chars message]\<rparr>)"

definition dnf_log_line :: "bool \<Rightarrow> string \<Rightarrow> string \<Rightarrow> string \<Rightarrow> console_state \<Rightarrow> console_state" where
  "dnf_log_line interactive color before message c =
     (let c = clear_status_line_locked interactive c in
      c \<lparr>c_written := c_written c @ [Chars color, Chars before, Chars COLOR_RESET, Chars message, Newline]\<rparr>)"

definition log_err :: "bool \<Rightarrow> string \<Rightarrow> console_state \<Rightarrow> console_state" where
  "log_err interactive = dnf_log_line interactive COLOR_RED ''ERR: ''"

definition log_warn :: "bool \<Rightarrow> string \<Rightarrow> console_state \<Rightarrow> console_state" where
  "log_warn interactive = dnf_log_line interactive COLOR_YELLOW ''WARN: ''"

definition log_ok :: "bool \<Rightarrow> string \<Rightarrow> console_state \<Rightarrow> console_state" where
  "log_ok interactive = dnf_log_line interactive COLOR_GREEN ''OK: ''"

definition log_info :: "bool \<Rightarrow> string \<Rightarrow> console_state \<Rightarrow> console_state" where
  "log_info interactive = dnf_log_line interactive COLOR_CYAN ''INFO: ''"

text \<open>
  The activity indicator: without a terminal its constructor writes one line; with one its thread
  draws a frame at a time until it is stopped. The flag is \<^verbatim>\<open>running_\<close>.
\<close>

definition ActivitySpinner :: "bool \<Rightarrow> string \<Rightarrow> console_state \<Rightarrow> bool \<times> console_state" where
  "ActivitySpinner interactive message c =
     (if \<not> interactive then (False, log_info interactive (message @ ''...'') c) else (True, c))"

definition spinner_frame :: "bool \<Rightarrow> bool \<Rightarrow> nat \<Rightarrow> string \<Rightarrow> console_state \<Rightarrow> console_state" where
  "spinner_frame interactive running frame message c =
     (if running
      then render_status_line interactive
        (COLOR_CYAN @ [spinner frame] @ COLOR_RESET @ '' '' @ message @ ''...'') c
      else c)"

definition spinner_stop :: "bool \<Rightarrow> bool \<Rightarrow> console_state \<Rightarrow> bool \<times> console_state" where
  "spinner_stop interactive running c =
     (if running then (False, clear_status_line_locked interactive c) else (False, c))"

text \<open>A line of the download callbacks goes to the console by the function for its kind.\<close>

fun write_console :: "bool \<Rightarrow> console \<Rightarrow> console_state \<Rightarrow> console_state" where
  "write_console interactive (Info message) = log_info interactive message"
| "write_console interactive (Warn message) = log_warn interactive message"
| "write_console interactive (OkLine message) = log_ok interactive message"
| "write_console interactive (Err message) = log_err interactive message"
| "write_console interactive (Status message) = render_status_line interactive message"

text \<open>
  The callbacks of an RPM transaction: each writes one line. A package is given by its full name, a
  script by the name of its kind.
\<close>

datatype rpm_callback =
    BeforeBegin nat
  | TransactionStart nat
  | InstallStart string
  | UninstallStart string
  | UnpackError string
  | CpioError string
  | ScriptStart string string
  | ScriptError string string nat
  | AfterComplete bool

fun SyspckgTransactionCallbacks :: "rpm_callback \<Rightarrow> console" where
  "SyspckgTransactionCallbacks (BeforeBegin n) = Info (''RPM transaction contains '' @ dec n @ '' element(s)'')"
| "SyspckgTransactionCallbacks (TransactionStart n) = Info (''Preparing '' @ dec n @ '' RPM element(s)...'')"
| "SyspckgTransactionCallbacks (InstallStart nevra) = Info (''Installing: '' @ nevra)"
| "SyspckgTransactionCallbacks (UninstallStart nevra) = Info (''Removing: '' @ nevra)"
| "SyspckgTransactionCallbacks (UnpackError nevra) = Err (''RPM unpack failed: '' @ nevra)"
| "SyspckgTransactionCallbacks (CpioError nevra) = Err (''RPM cpio failed: '' @ nevra)"
| "SyspckgTransactionCallbacks (ScriptStart kind nevra) = Info (''Running '' @ kind @ '' scriptlet: '' @ nevra)"
| "SyspckgTransactionCallbacks (ScriptError kind nevra code) =
     Err (''Scriptlet failed: '' @ kind @ '' in '' @ nevra @ '' (exit '' @ dec code @ '')'')"
| "SyspckgTransactionCallbacks (AfterComplete success) =
     (if success then OkLine ''RPM transaction callbacks completed successfully''
      else Err ''RPM transaction callbacks reported failure'')"

section \<open>What the terminal shows\<close>

text \<open>The terminal: the finished lines and the line with the cursor.\<close>

fun terminal :: "string list \<times> string \<Rightarrow> out_item \<Rightarrow> string list \<times> string" where
  "terminal (lines, current) EraseLine = (lines, [])"
| "terminal (lines, current) (Chars s) = (lines, current @ s)"
| "terminal (lines, current) Newline = (lines @ [current], [])"

definition terminal_view :: "console_state \<Rightarrow> string list \<times> string" where
  "terminal_view c = foldl terminal ([], []) (c_written c)"

datatype console_op = Write console | Frame bool nat string | Stop bool

fun perform_console :: "bool \<Rightarrow> console_op \<Rightarrow> console_state \<Rightarrow> console_state" where
  "perform_console interactive (Write l) c = write_console interactive l c"
| "perform_console interactive (Frame running i message) c = spinner_frame interactive running i message c"
| "perform_console interactive (Stop running) c = snd (spinner_stop interactive running c)"

text \<open>The specification: a log line is its coloured label and its message, and nothing else is a line.\<close>

fun log_text :: "console_op \<Rightarrow> string list" where
  "log_text (Write (Info message)) = [COLOR_CYAN @ ''INFO: '' @ COLOR_RESET @ message]"
| "log_text (Write (Warn message)) = [COLOR_YELLOW @ ''WARN: '' @ COLOR_RESET @ message]"
| "log_text (Write (OkLine message)) = [COLOR_GREEN @ ''OK: '' @ COLOR_RESET @ message]"
| "log_text (Write (Err message)) = [COLOR_RED @ ''ERR: '' @ COLOR_RESET @ message]"
| "log_text _ = []"

definition console_inv :: "bool \<Rightarrow> string list \<Rightarrow> console_state \<Rightarrow> bool" where
  "console_inv interactive lines c \<longleftrightarrow>
     fst (terminal_view c) = lines \<and> (c_status_line_active c \<longrightarrow> interactive) \<and> (\<not> c_status_line_active c \<longrightarrow> snd (terminal_view c) = [])"

lemma console_inv_ops:
  assumes "console_inv interactive lines c"
  shows "console_inv interactive lines (clear_status_line_locked interactive c)"
    and "console_inv interactive lines (render_status_line interactive message c)"
    and "console_inv interactive (lines @ [color @ before @ COLOR_RESET @ message]) (dnf_log_line interactive color before message c)"
  using assms by (cases "terminal_view c"; auto simp: console_inv_def terminal_view_def clear_status_line_locked_def render_status_line_def
      dnf_log_line_def Let_def)+

lemma perform_console_inv:
  assumes "console_inv interactive lines c"
  shows "console_inv interactive (lines @ log_text x) (perform_console interactive x c)"
proof (cases x)
  case (Write l)
  with assms show ?thesis
    by (cases l) (simp_all add: log_info_def log_warn_def log_ok_def log_err_def console_inv_ops del: append.simps)
qed (use assms in \<open>auto simp: spinner_frame_def spinner_stop_def console_inv_ops\<close>)


end
