(* ===== verification/Bootstrap.thy ===== *)
theory Bootstrap
  imports Throwing
begin

text \<open>
  The parts of \<^verbatim>\<open>tools/syspckg/main.cpp\<close> that work on the file system: the tests and preparations before
  the package libraries are used, the move of the old directories below \<^verbatim>\<open>/usr\<close>, and the backup,
  restoration and completion around the first transaction with Fedora packages. Messages on the
  console are not modelled. The text of an exception is the text of the program with the paths
  that occur in it.
\<close>

section \<open>Tests and preparations\<close>

definition prepare_file :: "env \<Rightarrow> string \<Rightarrow> string \<Rightarrow> string \<Rightarrow> unit xio \<Rightarrow> unit xio" where
  "prepare_file env path content what behind =
     bindx (fs_exists env path) (\<lambda>there. whenx (\<not> there)
       (bindx (lift (succeeds env (WriteFile path content))) (\<lambda>opened.
         if opened then behind else throw what)))"

definition ensure_fedora_glibc_bootstrap_layout :: "env \<Rightarrow> unit xio" where
  "ensure_fedora_glibc_bootstrap_layout env =
     seqx (call_or_throw env (CreateDirs ''/usr/lib64/gconv'') ''Unable to prepare Fedora gconv directory /usr/lib64/gconv: '')
     (seqx (prepare_file env ''/usr/lib64/gconv/gconv-modules.cache'' []
         ''Unable to create Fedora glibc bootstrap cache: /usr/lib64/gconv/gconv-modules.cache''
         (call_ignored env (Chmod ''/usr/lib64/gconv/gconv-modules.cache'' 420)))
     (seqx (call_or_throw env (CreateDirs ''/etc/ld.so.conf.d'') ''Unable to prepare /etc/ld.so.conf.d: '')
     (seqx (prepare_file env ''/etc/ld.so.conf'' (''include ld.so.conf.d/*.conf'' @ [LF])
         ''Unable to create /etc/ld.so.conf'' (okx ()))
     (seqx (call_or_throw env (CreateDirs ''/var/cache/ldconfig'') ''Unable to prepare /var/cache/ldconfig: '')
     (call_ignored env (Chmod ''/var/cache/ldconfig'' 448))))))"

abbreviation RPMDB :: string where "RPMDB \<equiv> ''/var/lib/rpm/rpmdb.sqlite''"

text \<open>The calls into the RPM library that create the data base; the set of calls is released at the end.\<close>

definition rpm_init_db :: "env \<Rightarrow> bool io" where
  "rpm_init_db env = do {
     ok \<leftarrow> and_then (succeeds env (Rpm ''rpmtsSetRootDir''))
          (and_then (succeeds env (Rpm ''rpmtsInitDB'')) (succeeds env (Rpm ''rpmtsCloseDB'')));
     _ \<leftarrow> effect env (Rpm ''rpmtsFree'');
     ret ok
   }"

definition create_rpm_database :: "env \<Rightarrow> unit xio" where
  "create_rpm_database env =
     bindx (lift (succeeds env (Rpm ''rpmReadConfigFiles''))) (\<lambda>read.
       if \<not> read then throw ''Failed to read RPM configuration before database initialization''
       else bindx (lift (succeeds env (Rpm ''rpmtsCreate''))) (\<lambda>ts.
         if \<not> ts then throw ''Unable to create RPM transaction set for database initialization''
         else bindx (lift (rpm_init_db env)) (\<lambda>ok.
           if \<not> ok then throw ''Failed to initialize RPM database at /var/lib/rpm''
           else bindx (fs_exists env RPMDB) (\<lambda>there.
             if there then okx () else throw ''Failed to initialize RPM database at /var/lib/rpm''))))"

definition ensure_rpm_database :: "env \<Rightarrow> unit xio" where
  "ensure_rpm_database env =
     seqx (call_or_throw env (CreateDirs ''/var/lib/rpm'') ''Unable to create RPM database directory /var/lib/rpm: '')
     (bindx (lift (access env ''/var/lib/rpm'' WX_OK)) (\<lambda>writable.
       if \<not> writable then throw ''RPM database directory is not writable: /var/lib/rpm''
       else bindx (fs_exists env RPMDB) (\<lambda>there.
         if there then okx ()
         else if e_euid env \<noteq> 0 then throw ''RPM database is not initialized; run syspckg once as root''
         else create_rpm_database env)))"

abbreviation CA_BUNDLE :: string where "CA_BUNDLE \<equiv> ''/usr/lib/syspckg/ca-certificates.crt''"

definition set_ca_environment :: "env \<Rightarrow> unit xio" where
  "set_ca_environment env =
     bindx (lift (and_then (succeeds env (Setenv ''SSL_CERT_FILE'' CA_BUNDLE))
                           (succeeds env (Setenv ''CURL_CA_BUNDLE'' CA_BUNDLE)))) (\<lambda>ok.
       if ok then okx () else throw ''Unable to configure SystemPackager CA bundle environment'')"

definition check_private_ca_bundle :: "env \<Rightarrow> unit xio" where
  "check_private_ca_bundle env =
     bindx (fs_exists env CA_BUNDLE) (\<lambda>there.
       if \<not> there then throw (''SystemPackager CA bundle is missing: '' @ CA_BUNDLE)
       else bindx (lift (file_size env CA_BUNDLE)) (\<lambda>size.
         if (case size of None \<Rightarrow> True | Some n \<Rightarrow> n < 1024)
         then throw (''SystemPackager CA bundle is unreadable or invalid: '' @ CA_BUNDLE)
         else bindx (lift (access env CA_BUNDLE R_OK)) (\<lambda>readable.
           if \<not> readable then throw (''SystemPackager CA bundle is not readable: '' @ CA_BUNDLE)
           else set_ca_environment env)))"

definition require :: "bool xio \<Rightarrow> string \<Rightarrow> unit xio" where
  "require test what = bindx test (\<lambda>b. if b then okx () else throw what)"

text \<open>\<^verbatim>\<open>std::system\<close> hands its argument to the shell; its result is 0 when the command exits with 0.\<close>

definition run_system :: "env \<Rightarrow> string \<Rightarrow> bool io" where
  "run_system env command = do { status \<leftarrow> spawn env [''/bin/sh'', ''-c'', command]; ret (status = Exited 0) }"

definition check_runtime_layout :: "env \<Rightarrow> unit xio" where
  "check_runtime_layout env =
     seqx (require (fs_exists env ''/usr/lib/rpm/rpmrc'') ''RPM configuration is missing: /usr/lib/rpm/rpmrc'')
     (seqx (require (fs_exists env ''/usr/lib/rpm/macros'') ''RPM macros are missing: /usr/lib/rpm/macros'')
     (seqx (check_private_ca_bundle env)
     (seqx (require (lift (access env ''/usr/bin/gpg'' X_OK)) ''OpenPGP engine is missing: /usr/bin/gpg'')
     (seqx (require (lift (access env ''/usr/bin/gpgconf'' X_OK))
             ''OpenPGP configuration engine is missing: /usr/bin/gpgconf'')
     (seqx (require (lift (run_system env ''/usr/bin/gpg --version >/dev/null 2>&1''))
             ''OpenPGP engine exists but cannot start; rebuild the ISO with the private GnuPG runtime'')
     (seqx (ensure_rpm_database env) (ensure_fedora_glibc_bootstrap_layout env)))))))"

section \<open>Moving a tree below \<^verbatim>\<open>/usr\<close>\<close>

text \<open>The end of a move for which \<^verbatim>\<open>rename\<close> failed: copy, then remove the old path.\<close>

definition migrate_path :: "env \<Rightarrow> string \<Rightarrow> string \<Rightarrow> unit xio" where
  "migrate_path env source destination =
     bindx (fs_is_symlink env source) (\<lambda>link.
       seqx (if link then
               bindx (lift (readlink env source)) (\<lambda>target.
                 case target of
                   None \<Rightarrow> bindx (lift (query (e_strerror env))) (\<lambda>why.
                     throw (''Unable to read bootstrap symlink '' @ source @ '': '' @ why))
                 | Some t \<Rightarrow> call_or_throw env (Symlink t destination)
                     (''Unable to migrate '' @ source @ '' to '' @ destination @ '': ''))
             else call_or_throw env (CopyFile source destination)
               (''Unable to migrate '' @ source @ '' to '' @ destination @ '': ''))
       (call_or_throw env (Remove source) (''Unable to remove migrated path '' @ source @ '': '')))"

definition merge_leaf :: "env \<Rightarrow> string \<Rightarrow> string \<Rightarrow> unit xio" where
  "merge_leaf env source destination =
     bindx (fs_present env destination) (\<lambda>there.
       if there
       then call_or_throw env (RemoveAll source) (''Unable to remove duplicate bootstrap path '' @ source @ '': '')
       else seqx (call_or_throw env (CreateDirs (parent_path destination))
                   (''Unable to prepare usr-merge destination '' @ parent_path destination @ '': ''))
         (bindx (lift (succeeds env (Rename source destination))) (\<lambda>moved.
           if moved then okx () else migrate_path env source destination)))"

text \<open>
  The recursion follows the directories; the first argument bounds its depth. A path in the file
  system is shorter than \<open>4096\<close> bytes, so that bound is never met.
\<close>

fun merge_bootstrap_tree :: "nat \<Rightarrow> env \<Rightarrow> string \<Rightarrow> string \<Rightarrow> unit xio" where
  "merge_bootstrap_tree 0 env source destination = throw ''recursion too deep''"
| "merge_bootstrap_tree (Suc fuel) env source destination =
     bindx (fs_present env source) (\<lambda>there.
       if \<not> there then okx ()
       else bindx (fs_real_directory env source) (\<lambda>dir.
         if dir then
           seqx (call_or_throw env (CreateDirs destination) (''Unable to create usr-merge directory '' @ destination @ '': ''))
           (bindx (fs_entries env source) (\<lambda>names.
             seqx (eachx (\<lambda>name. merge_bootstrap_tree fuel env (source @ ''/'' @ name) (destination @ ''/'' @ name)) names)
               (call_or_throw env (Remove source) (''Unable to remove old usr-merge directory '' @ source @ '': ''))))
         else merge_leaf env source destination))"

abbreviation MAX_DEPTH :: nat where "MAX_DEPTH \<equiv> 4096"

definition clear_legacy_path :: "env \<Rightarrow> string \<Rightarrow> string \<Rightarrow> string \<Rightarrow> bool xio" where
  "clear_legacy_path env legacy_path usr_path link_target =
     bindx (fs_is_symlink env legacy_path) (\<lambda>link.
       if link then
         bindx (lift (readlink env legacy_path)) (\<lambda>current.
           if current = Some link_target then okx True
           else seqx (call_or_throw env (Remove legacy_path) (''Unable to replace usr-merge symlink '' @ legacy_path @ '': ''))
             (okx False))
       else bindx (fs_exists env legacy_path) (\<lambda>there.
         seqx (whenx there (merge_bootstrap_tree MAX_DEPTH env legacy_path usr_path)) (okx False)))"

definition ensure_usr_merge_link :: "env \<Rightarrow> string \<Rightarrow> string \<Rightarrow> string \<Rightarrow> unit xio" where
  "ensure_usr_merge_link env legacy_path usr_path link_target =
     bindx (clear_legacy_path env legacy_path usr_path link_target) (\<lambda>right.
       if right then okx ()
       else seqx (call_or_throw env (CreateDirs usr_path) (''Unable to create usr-merge target '' @ usr_path @ '': ''))
         (call_or_throw env (Symlink link_target legacy_path)
           (''Unable to create usr-merge link '' @ legacy_path @ '' -> '' @ link_target @ '': '')))"

definition usr_merge_links :: "(string \<times> string \<times> string) list" where
  "usr_merge_links =
     [(''/bin'', ''/usr/bin'', ''usr/bin''), (''/sbin'', ''/usr/sbin'', ''usr/sbin''),
      (''/lib'', ''/usr/lib'', ''usr/lib''), (''/lib64'', ''/usr/lib64'', ''usr/lib64'')]"

definition prepare_fedora_usr_merge :: "env \<Rightarrow> unit xio" where
  "prepare_fedora_usr_merge env =
     eachx (\<lambda>(legacy, usr, target). ensure_usr_merge_link env legacy usr target) usr_merge_links"

section \<open>Around the first transaction\<close>

definition fedora_bootstrap_marker_missing :: "env \<Rightarrow> bool xio" where
  "fedora_bootstrap_marker_missing env =
     bindx (fs_exists env ''/var/lib/syspckg/fedora-base.ready'') (\<lambda>there. okx (\<not> there))"

definition adavalinux_core_files :: "string list" where
  "adavalinux_core_files =
     [''/etc/os-release'', ''/etc/passwd'', ''/etc/group'', ''/etc/shadow'', ''/etc/gshadow'', ''/etc/profile'',
      ''/etc/inittab'', ''/etc/motd'']"

abbreviation BACKUP_ROOT :: string where "BACKUP_ROOT \<equiv> ''/var/lib/syspckg/bootstrap-backup''"

text \<open>\<^verbatim>\<open>backup_root / source.relative_path()\<close> for an absolute path.\<close>

definition backup_of :: "string \<Rightarrow> string" where
  "backup_of file = BACKUP_ROOT @ file"

definition backup_file :: "env \<Rightarrow> string \<Rightarrow> unit xio" where
  "backup_file env file =
     bindx (fs_exists env file) (\<lambda>there. whenx there
       (seqx (call_or_throw env (CreateDirs (parent_path (backup_of file))) ''Unable to prepare bootstrap backup path: '')
         (call_or_throw env (CopyFile file (backup_of file)) (''Unable to back up '' @ file @ '': ''))))"

definition backup_adavalinux_core_files :: "env \<Rightarrow> unit xio" where
  "backup_adavalinux_core_files env =
     seqx (call_ignored env (RemoveAll BACKUP_ROOT))
     (seqx (call_or_throw env (CreateDirs BACKUP_ROOT) ''Unable to create AdavaLinux bootstrap backup: '')
       (eachx (backup_file env) adavalinux_core_files))"

definition restore_file :: "env \<Rightarrow> string \<Rightarrow> unit xio" where
  "restore_file env file =
     bindx (fs_exists env (backup_of file)) (\<lambda>there. whenx there
       (seqx (call_ignored env (CreateDirs (parent_path file)))
         (call_ignored env (CopyFile (backup_of file) file))))"

definition restore_adavalinux_core_files :: "env \<Rightarrow> unit xio" where
  "restore_adavalinux_core_files env = eachx (restore_file env) adavalinux_core_files"

definition activate_fedora_shell :: "env \<Rightarrow> unit xio" where
  "activate_fedora_shell env =
     bindx (fs_exists env ''/usr/bin/bash'') (\<lambda>bash. whenx bash
       (bindx (fs_present env ''/usr/bin/sh'') (\<lambda>sh.
         seqx (whenx sh (call_or_throw env (Remove ''/usr/bin/sh'') ''Unable to replace /usr/bin/sh: ''))
           (call_or_throw env (Symlink ''bash'' ''/usr/bin/sh'') ''Unable to activate Fedora bash as /bin/sh: ''))))"

definition activate_fedora_runtime :: "env \<Rightarrow> unit xio" where
  "activate_fedora_runtime env =
     seqx (require (fs_exists env ''/usr/lib64/ld-linux-x86-64.so.2'')
             ''Fedora bootstrap completed without /usr/lib64/ld-linux-x86-64.so.2'')
     (seqx (require (fs_is_symlink env ''/lib64'') ''Fedora runtime requires usr-merged /lib64 -> usr/lib64'')
       (activate_fedora_shell env))"

definition run_bootstrap_command :: "env \<Rightarrow> string \<Rightarrow> unit xio" where
  "run_bootstrap_command env command = lift (do { _ \<leftarrow> run_system env command; ret () })"

definition refresh_ca_bundle :: "env \<Rightarrow> unit xio" where
  "refresh_ca_bundle env =
     bindx (lift (succeeds env (CreateDirs ''/etc/ssl/certs''))) (\<lambda>ok.
       whenx ok (call_ignored env (CopyFile CA_BUNDLE ''/etc/ssl/certs/ca-certificates.crt'')))"

definition link_tool :: "env \<Rightarrow> string \<Rightarrow> unit xio" where
  "link_tool env name =
     seqx (call_ignored env (CreateDirs ''/usr/sbin''))
     (bindx (fs_exists env (''/usr/sbin/'' @ name)) (\<lambda>there.
       whenx (\<not> there) (call_ignored env (Symlink (''../bin/'' @ name) (''/usr/sbin/'' @ name)))))"

definition rebuild_linker_cache :: "env \<Rightarrow> unit xio" where
  "rebuild_linker_cache env =
     bindx (lift (access env ''/usr/bin/ldconfig'' X_OK)) (\<lambda>ok.
       whenx ok (seqx (link_tool env ''ldconfig'') (run_bootstrap_command env ''/usr/bin/ldconfig'')))"

definition rebuild_gconv_cache :: "env \<Rightarrow> unit xio" where
  "rebuild_gconv_cache env =
     bindx (lift (access env ''/usr/bin/iconvconfig'' X_OK)) (\<lambda>ok.
       whenx ok (seqx (link_tool env ''iconvconfig'')
         (bindx (fs_exists env ''/usr/lib64/gconv/gconv-modules'') (\<lambda>there.
           whenx there (run_bootstrap_command env
             (''/usr/bin/iconvconfig -o /usr/lib64/gconv/gconv-modules.cache '' @ ''--nostdlib /usr/lib64/gconv''))))))"

definition write_bootstrap_marker :: "env \<Rightarrow> unit xio" where
  "write_bootstrap_marker env =
     require (lift (succeeds env (WriteFile ''/var/lib/syspckg/fedora-base.ready'' (''ready'' @ [LF]))))
       ''Unable to write Fedora bootstrap marker''"

definition finalize_fedora_bootstrap :: "env \<Rightarrow> unit xio" where
  "finalize_fedora_bootstrap env =
     seqx (restore_adavalinux_core_files env)
     (seqx (activate_fedora_runtime env)
     (seqx (check_private_ca_bundle env)
     (seqx (refresh_ca_bundle env)
     (seqx (call_or_throw env (CreateDirs ''/var/lib/syspckg'') ''Unable to create /var/lib/syspckg: '')
     (seqx (rebuild_linker_cache env)
     (seqx (rebuild_gconv_cache env) (write_bootstrap_marker env)))))))"

section \<open>Lemmas: the move loses nothing\<close>

definition present_at :: "env \<Rightarrow> history \<Rightarrow> string \<Rightarrow> bool" where
  "present_at env h path \<longleftrightarrow> (\<exists>st. e_stat env h path = Inr st) \<or> (\<exists>st. e_lstat env h path = Inr st \<and> st_kind st = S_LNK)"

definition directory_at :: "env \<Rightarrow> history \<Rightarrow> string \<Rightarrow> bool" where
  "directory_at env h path \<longleftrightarrow> (\<exists>st. e_stat env h path = Inr st \<and> st_kind st = S_DIR)"

lemma status_test_Inr: "status_test p r = Inr b \<longleftrightarrow> (case r of Inr st \<Rightarrow> b = p st | Inl e \<Rightarrow> e = ENOENT \<and> \<not> b)"
  by (auto simp: status_test_def split: sum.splits errno.splits)

lemma result_fs_present: "result (fs_present env p) h = Inr b \<Longrightarrow> b \<longleftrightarrow> present_at env h p"
  by (auto simp: fs_present_def fs_exists_def fs_is_symlink_def present_at_def status_test_Inr split: sum.splits if_splits)

lemma result_fs_real_directory: "result (fs_real_directory env p) h = Inr True \<Longrightarrow> directory_at env h p"
  by (auto simp: fs_real_directory_def fs_is_directory_def directory_at_def status_test_Inr split: sum.splits if_splits)

text \<open>
  The copy of a path: made after the destination was found free, and after a failed \<^verbatim>\<open>rename\<close> for
  the two slower ways. \<open>free_before\<close> is the history of that test.
\<close>

definition copy_onto_free :: "env \<Rightarrow> string \<Rightarrow> string \<Rightarrow> history \<Rightarrow> event \<Rightarrow> bool" where
  "copy_onto_free env x y h e \<longleftrightarrow>
     (\<exists>free_before. \<not> present_at env free_before y \<and>
       (h = free_before @ [CreateDirs (parent_path y)] \<and> e = Rename x y
        \<or> h = free_before @ [CreateDirs (parent_path y), Rename x y] \<and>
          (e = CopyFile x y \<or> (\<exists>t. e_readlink env h x = Some t \<and> e = Symlink t y))))"

text \<open>
  The admissible events of a move from \<open>src\<close> to \<open>dst\<close>: directories are created; a path is moved or
  copied to the same place below \<open>dst\<close> when that place is free; a path is deleted with all below it
  only when there is something at its place below \<open>dst\<close>; any other path is removed either as a
  directory, which has to be empty then, or right after it was copied.
\<close>

definition merge_ok :: "env \<Rightarrow> string \<Rightarrow> string \<Rightarrow> history \<Rightarrow> event \<Rightarrow> bool" where
  "merge_ok env src dst h e \<longleftrightarrow>
     (\<exists>p. e = CreateDirs p)
     \<or> (\<exists>rel. copy_onto_free env (src @ rel) (dst @ rel) h e)
     \<or> (\<exists>rel. e = RemoveAll (src @ rel) \<and> present_at env h (dst @ rel))
     \<or> (\<exists>rel. e = Remove (src @ rel) \<and>
          ((\<exists>h'. prefix h' h \<and> directory_at env h' (src @ rel))
           \<or> (\<exists>h' copy. h = h' @ [copy] \<and> copy_onto_free env (src @ rel) (dst @ rel) h' copy \<and> e_call env h' copy = None)))"

lemma merge_ok_child: "merge_ok env (src @ rel) (dst @ rel) h e \<Longrightarrow> merge_ok env src dst h e"
  unfolding merge_ok_def append_assoc by blast

lemma merge_ok_simps [simp]: "merge_ok env src dst h (CreateDirs p)"
  by (simp add: merge_ok_def)

lemma migrate_path_ok:
  assumes free: "\<not> present_at env h dst"
  shows "emits_at (merge_ok env src dst) (h @ [CreateDirs (parent_path dst), Rename src dst]) (migrate_path env src dst)"
proof -
  let ?h = "h @ [CreateDirs (parent_path dst), Rename src dst]"
  have copied: "merge_ok env src dst ?h e" if "copy_onto_free env src dst ?h e" for e
    using that unfolding merge_ok_def by (metis append_Nil2)
  have removed: "merge_ok env src dst (?h @ [e]) (Remove src)"
    if "copy_onto_free env src dst ?h e" "e_call env ?h e = None" for e
    using that unfolding merge_ok_def by (metis append_Nil2)
  have ways: "copy_onto_free env src dst ?h (CopyFile src dst)"
    "e_readlink env ?h src = Some t \<Longrightarrow> copy_onto_free env src dst ?h (Symlink t dst)" for t
    using free by (auto simp: copy_onto_free_def)
  show ?thesis
    unfolding migrate_path_def
    by (intro emits_at_query_x emits_at_seqx)
       (auto simp: readlink_def intro!: emits_at_query_x emits_at_call emits_at_throw copied ways removed [simplified]
        split: if_splits option.splits)
qed

lemma merge_leaf_ok: "emits_at (merge_ok env src dst) h (merge_leaf env src dst)"
proof -
  have moved: "merge_ok env src dst (h @ [CreateDirs (parent_path dst)]) (Rename src dst)"
    if "\<not> present_at env h dst"
    unfolding merge_ok_def copy_onto_free_def using that by (metis append_Nil2)
  have gone: "merge_ok env src dst h (RemoveAll src)" if "present_at env h dst"
    unfolding merge_ok_def using that by (metis append_Nil2)
  show ?thesis
    unfolding merge_leaf_def
  proof (rule emits_at_query_x)
    fix there
    assume "result (fs_present env dst) h = Inr there"
    then have there: "there \<longleftrightarrow> present_at env h dst" by (rule result_fs_present)
    then show "emits_at (merge_ok env src dst) h
       (if there then call_or_throw env (RemoveAll src) (''Unable to remove duplicate bootstrap path '' @ src @ '': '')
        else seqx (call_or_throw env (CreateDirs (parent_path dst))
                   (''Unable to prepare usr-merge destination '' @ parent_path dst @ '': ''))
         (bindx (lift (succeeds env (Rename src dst))) (\<lambda>moved.
           if moved then okx () else migrate_path env src dst)))"
      using migrate_path_ok [of env h dst src]
      by (auto simp: succeeds_def intro!: emits_at_call emits_at_seqx emits_at_bindx emits_at_lift emits_at_bind
          emits_at_effect emits_at_ret emits_at_okx gone moved)
  qed simp
qed

lemma merge_bootstrap_tree_ok: "emits_at (merge_ok env src dst) h (merge_bootstrap_tree fuel env src dst)"
proof (induction fuel arbitrary: src dst h)
  case (Suc fuel)
  have child: "emits_at (merge_ok env src dst) h' (merge_bootstrap_tree fuel env (src @ ''/'' @ name) (dst @ ''/'' @ name))"
    for h' name
    using Suc [of "src @ ''/'' @ name" "dst @ ''/'' @ name" h'] by (rule emits_at_mono) (rule merge_ok_child)
  have emptied: "merge_ok env src dst h' (Remove src)" if "directory_at env h src" "prefix h h'" for h'
    unfolding merge_ok_def using that by (metis append_Nil2)
  let ?rest = "\<lambda>names. seqx (eachx (\<lambda>name. merge_bootstrap_tree fuel env (src @ ''/'' @ name) (dst @ ''/'' @ name)) names)
               (call_or_throw env (Remove src) (''Unable to remove old usr-merge directory '' @ src @ '': ''))"
  have rest: "emits_at (merge_ok env src dst) h' (?rest names)" if "directory_at env h src" "prefix h h'" for h' names
  proof (rule emits_at_seqx)
    show kids: "emits_at (merge_ok env src dst) h'
        (eachx (\<lambda>name. merge_bootstrap_tree fuel env (src @ ''/'' @ name) (dst @ ''/'' @ name)) names)"
      by (rule emits_at_eachx) (rule child)
    from that(2) emits_at_prefix [OF kids] show "emits_at (merge_ok env src dst)
        (after (eachx (\<lambda>name. merge_bootstrap_tree fuel env (src @ ''/'' @ name) (dst @ ''/'' @ name)) names) h')
        (call_or_throw env (Remove src) (''Unable to remove old usr-merge directory '' @ src @ '': ''))"
      by (intro emits_at_call emptied [OF that(1)]) (rule prefix_order.trans)
  qed
  have dir: "emits_at (merge_ok env src dst) h (seqx
      (call_or_throw env (CreateDirs dst) (''Unable to create usr-merge directory '' @ dst @ '': ''))
      (bindx (fs_entries env src) ?rest))" if "directory_at env h src"
    by (rule emits_at_seqx) (auto intro!: emits_at_call emits_at_query_x rest [OF that] simp del: append.simps)
  have body: "emits_at (merge_ok env src dst) h (bindx (fs_real_directory env src) (\<lambda>d.
      if d then seqx (call_or_throw env (CreateDirs dst) (''Unable to create usr-merge directory '' @ dst @ '': ''))
        (bindx (fs_entries env src) ?rest) else merge_leaf env src dst))"
    by (rule emits_at_query_x) (use dir merge_leaf_ok result_fs_real_directory in \<open>auto simp del: append.simps\<close>)
  show ?case
    unfolding merge_bootstrap_tree.simps
    by (rule emits_at_query_x) (use body emits_at_okx in \<open>auto simp del: append.simps\<close>)
qed (simp add: emits_at_throw)

text \<open>A bound on the depth that is large enough does not matter.\<close>

definition long_paths_refused :: "env \<Rightarrow> bool" where
  "long_paths_refused env \<longleftrightarrow> (\<forall>h p. 4096 \<le> length p \<longrightarrow> e_stat env h p = Inl EOTHER)"

lemma bindx_throw [simp]: "bindx (throw what) f = throw what"
  by (simp add: bindx_def throw_def)

lemma fs_present_long:
  "long_paths_refused env \<Longrightarrow> 4096 \<le> length p \<Longrightarrow> fs_present env p = throw ''filesystem error''"
  by (simp add: fs_present_def fs_exists_def long_paths_refused_def status_test_def query_def throw_def
      bindx_def State_Monad.return_def State_Monad.bind_def)

lemma eachx_cong: "(\<And>x. x \<in> set xs \<Longrightarrow> f x = g x) \<Longrightarrow> eachx f xs = eachx g xs"
  by (induction xs) auto

lemma merge_fuel:
  assumes "long_paths_refused env"
  shows "4096 < length src + fuel \<Longrightarrow> 0 < fuel \<Longrightarrow>
    merge_bootstrap_tree (fuel + k) env src dst = merge_bootstrap_tree fuel env src dst"
proof (induction fuel arbitrary: src dst)
  case (Suc fuel)
  show ?case
  proof (cases "4096 \<le> length src")
    case True
    then show ?thesis by (simp add: fs_present_long [OF assms])
  next
    case False
    with Suc.prems(1) have "merge_bootstrap_tree (fuel + k) env (src @ ''/'' @ name) (dst @ ''/'' @ name) =
        merge_bootstrap_tree fuel env (src @ ''/'' @ name) (dst @ ''/'' @ name)" for name
      by (intro Suc.IH) simp_all
    then show ?thesis by (simp only: merge_bootstrap_tree.simps add_Suc)
  qed
qed simp

section \<open>Lemmas: links and identity files\<close>

lemma emits_extends: "emits P m \<Longrightarrow> prefix h (after m h)"
  unfolding emits_def by (metis prefixI)

lemma clear_legacy_path_ok:
  "emits_at (\<lambda>h e. merge_ok env legacy usr h e \<or> e = Remove legacy \<and> (\<exists>st. e_lstat env h legacy = Inr st \<and> st_kind st = S_LNK))
     h (clear_legacy_path env legacy usr target)"
  unfolding clear_legacy_path_def
  by (auto intro!: emits_at_query_x emits_at_okx emits_at_seqx emits_at_call
      emits_at_mono [OF merge_bootstrap_tree_ok] simp: readlink_def fs_is_symlink_def status_test_Inr whenx_def
      split: sum.splits)

definition usr_merge_ok :: "env \<Rightarrow> history \<Rightarrow> event \<Rightarrow> bool" where
  "usr_merge_ok env h e \<longleftrightarrow>
     (\<exists>(legacy, usr, target) \<in> set usr_merge_links.
        merge_ok env legacy usr h e \<or> e = Symlink target legacy
        \<or> e = Remove legacy \<and> (\<exists>st. e_lstat env h legacy = Inr st \<and> st_kind st = S_LNK))"

lemma ensure_usr_merge_link_ok:
  assumes "(legacy, usr, target) \<in> set usr_merge_links"
  shows "emits_at (usr_merge_ok env) h (ensure_usr_merge_link env legacy usr target)"
  unfolding ensure_usr_merge_link_def
proof (rule emits_at_bindx)
  show "emits_at (usr_merge_ok env) h (clear_legacy_path env legacy usr target)"
    by (rule emits_at_mono [OF clear_legacy_path_ok]) (use assms in \<open>auto simp: usr_merge_ok_def\<close>)
  have "usr_merge_ok env h (CreateDirs p)" "usr_merge_ok env h (Symlink target legacy)" for h p
    using assms by (force simp: usr_merge_ok_def)+
  then show "emits_at (usr_merge_ok env) (after (clear_legacy_path env legacy usr target) h)
      (if right then okx ()
       else seqx (call_or_throw env (CreateDirs usr) (''Unable to create usr-merge target '' @ usr @ '': ''))
         (call_or_throw env (Symlink target legacy)
           (''Unable to create usr-merge link '' @ legacy @ '' -> '' @ target @ '': '')))" for right
    by (auto intro!: emits_at_okx emits_at_seqx emits_at_call)
qed

lemma ensure_usr_merge_link_extends: "emits_at (\<lambda>h e. True) h (ensure_usr_merge_link env legacy usr target)"
  unfolding ensure_usr_merge_link_def
  by (rule emits_at_bindx) (auto intro!: emits_at_okx emits_at_seqx emits_at_call emits_at_mono [OF clear_legacy_path_ok])

lemma clear_legacy_path_right:
  assumes "result (clear_legacy_path env legacy usr target) h = Inr True"
  shows "after (clear_legacy_path env legacy usr target) h = h \<and> e_readlink env h legacy = Some target"
proof -
  have "result (fs_is_symlink env legacy) h = Inr True"
    using assms unfolding clear_legacy_path_def by (simp split: sum.splits if_splits)
  moreover from this have "e_readlink env h legacy = Some target"
    using assms unfolding clear_legacy_path_def by (simp add: readlink_def split: sum.splits if_splits)
  ultimately show ?thesis unfolding clear_legacy_path_def by (simp add: readlink_def)
qed

lemma ensure_usr_merge_link_done:
  assumes "result (ensure_usr_merge_link env legacy usr target) h = Inr ()"
  shows "(after (ensure_usr_merge_link env legacy usr target) h = h \<and> e_readlink env h legacy = Some target)
    \<or> (\<exists>h'. after (ensure_usr_merge_link env legacy usr target) h = h' @ [Symlink target legacy] \<and>
         e_call env h' (Symlink target legacy) = None)"
proof (cases "result (clear_legacy_path env legacy usr target) h = Inr True")
  case True
  with clear_legacy_path_right [OF this] show ?thesis unfolding ensure_usr_merge_link_def by simp
next
  case False
  then have "result (clear_legacy_path env legacy usr target) h = Inr False"
    using assms unfolding ensure_usr_merge_link_def by (auto split: sum.splits)
  with assms show ?thesis
    unfolding ensure_usr_merge_link_def by (auto simp: result_call split: if_splits)
qed

lemma emits_restore_file [emits_intros]:
  "emits (\<lambda>e. (\<exists>p. e = CreateDirs p) \<or> (\<exists>f. e = CopyFile (backup_of f) f)) (restore_file env f)"
  unfolding restore_file_def by (intro emits_intros) auto

definition backups_readable :: "env \<Rightarrow> bool" where
  "backups_readable env \<longleftrightarrow> (\<forall>h. \<forall>f \<in> set adavalinux_core_files. e_stat env h (backup_of f) \<in> insert (Inl ENOENT) (range Inr))"

lemma restore_file_result:
  assumes "backups_readable env" and "f \<in> set adavalinux_core_files"
  shows "result (restore_file env f) h = Inr ()"
    and "e_stat env h (backup_of f) = Inr st \<Longrightarrow> CopyFile (backup_of f) f \<in> set (after (restore_file env f) h)"
proof -
  have "e_stat env h (backup_of f) \<in> insert (Inl ENOENT) (range Inr)"
    using assms by (simp add: backups_readable_def)
  then show "result (restore_file env f) h = Inr ()"
    by (auto simp: restore_file_def fs_exists_def status_test_def whenx_def)
  show "CopyFile (backup_of f) f \<in> set (after (restore_file env f) h)" if "e_stat env h (backup_of f) = Inr st"
    using that by (simp add: restore_file_def fs_exists_def status_test_def)
qed

lemma restore_result:
  assumes "backups_readable env"
  shows "result (restore_adavalinux_core_files env) h = Inr ()"
proof -
  have "result (eachx (restore_file env) fs) h = Inr ()" if "set fs \<subseteq> set adavalinux_core_files" for fs
    using that restore_file_result(1) [OF assms] by (induction fs arbitrary: h) auto
  then show ?thesis by (simp add: restore_adavalinux_core_files_def)
qed

text \<open>Every identity file with a backup is written again.\<close>

lemma restore_copies:
  assumes "backups_readable env" and "f \<in> set adavalinux_core_files" and "\<And>h. \<exists>st. e_stat env h (backup_of f) = Inr st"
  shows "\<exists>h' t. after (restore_adavalinux_core_files env) h = h @ h' @ CopyFile (backup_of f) f # t"
proof -
  have "\<exists>h'. prefix h h' \<and> result (restore_file env f) h' = Inr () \<and>
      prefix (after (restore_file env f) h') (after (restore_adavalinux_core_files env) h)"
    unfolding restore_adavalinux_core_files_def
    by (rule eachx_step [OF assms(2)]) (use restore_result [OF assms(1)] emits_extends [OF emits_restore_file] in
      \<open>simp_all add: restore_adavalinux_core_files_def\<close>)
  then obtain h' where h': "prefix h h'" "prefix (after (restore_file env f) h') (after (restore_adavalinux_core_files env) h)"
    by blast
  obtain st where "e_stat env h' (backup_of f) = Inr st" using assms(3) by blast
  then have "after (restore_file env f) h' = h' @ [CreateDirs (parent_path f), CopyFile (backup_of f) f]"
    by (simp add: restore_file_def fs_exists_def status_test_def)
  with h' obtain zs zs' where "after (restore_adavalinux_core_files env) h =
      h @ (zs @ [CreateDirs (parent_path f)]) @ CopyFile (backup_of f) f # zs'" by (auto simp: prefix_def)
  then show ?thesis by blast
qed

section \<open>Lemmas: what the preparations leave alone\<close>

text \<open>Neither the library for packages nor its macros and flags are touched, and nothing is asked.\<close>

abbreviation PUSH_SYSUSERS :: event where "PUSH_SYSUSERS \<equiv> Rpm ''rpmPushMacro __systemd_sysusers''"
abbreviation POP_SYSUSERS :: event where "POP_SYSUSERS \<equiv> Rpm ''rpmPopMacro __systemd_sysusers''"

definition dnf_quiet :: "event \<Rightarrow> bool" where
  "dnf_quiet e \<longleftrightarrow> e \<notin> range Dnf \<and> e \<notin> range Tsflags \<and> e \<noteq> Prompt \<and> e \<noteq> PUSH_SYSUSERS \<and> e \<noteq> POP_SYSUSERS"

lemma dnf_quiet_events [simp]:
  "dnf_quiet (Run argv)" "dnf_quiet (CreateDirs p)" "dnf_quiet (Remove p)" "dnf_quiet (RemoveAll p)" "dnf_quiet (CopyFile p q)"
  "dnf_quiet (Symlink p q)" "dnf_quiet (Rename p q)" "dnf_quiet (Chmod p m)" "dnf_quiet (WriteFile p c)" "dnf_quiet (Setenv n v)"
  "dnf_quiet (Append p c)" "\<not> dnf_quiet (Dnf name)" "\<not> dnf_quiet (Tsflags fs)" "\<not> dnf_quiet Prompt"
  "dnf_quiet (Rpm f) \<longleftrightarrow> Rpm f \<noteq> PUSH_SYSUSERS \<and> Rpm f \<noteq> POP_SYSUSERS"
  by (auto simp: dnf_quiet_def)

lemma emits_require [emits_intros]: "emits P m \<Longrightarrow> emits P (require m what)"
  unfolding require_def by (intro emits_intros) auto

lemma emits_layout_quiet [emits_intros]:
  "emits dnf_quiet (ensure_fedora_glibc_bootstrap_layout env)" "emits dnf_quiet (check_private_ca_bundle env)"
  unfolding ensure_fedora_glibc_bootstrap_layout_def prepare_file_def check_private_ca_bundle_def set_ca_environment_def
  by (intro emits_intros dnf_quiet_events(1-11) | simp split: option.split)+

lemma emits_run_system [emits_intros]: "emits dnf_quiet (run_system env command)"
  unfolding run_system_def by (intro emits_intros dnf_quiet_events(1-11))

lemma emits_rpm_database [emits_intros]: "emits dnf_quiet (ensure_rpm_database env)"
  unfolding ensure_rpm_database_def create_rpm_database_def rpm_init_db_def
  by (intro emits_intros | simp)+

lemma emits_check_runtime_layout [emits_intros]: "emits dnf_quiet (check_runtime_layout env)"
  unfolding check_runtime_layout_def by (intro emits_intros)

lemma emits_merge_quiet [emits_intros]: "emits dnf_quiet (merge_bootstrap_tree fuel env src dst)"
  by (induction fuel arbitrary: src dst)
    (simp add: emits_x, unfold merge_bootstrap_tree.simps merge_leaf_def migrate_path_def,
     (intro emits_intros dnf_quiet_events(1-11) | assumption | simp split: option.split)+)

lemma emits_usr_merge_quiet [emits_intros]: "emits dnf_quiet (prepare_fedora_usr_merge env)"
  unfolding prepare_fedora_usr_merge_def ensure_usr_merge_link_def clear_legacy_path_def
  by (intro emits_intros dnf_quiet_events(1-11) | simp split: prod.split)+

lemma emits_identity_quiet [emits_intros]:
  "emits dnf_quiet (backup_adavalinux_core_files env)" "emits dnf_quiet (restore_adavalinux_core_files env)"
  unfolding backup_adavalinux_core_files_def restore_adavalinux_core_files_def backup_file_def restore_file_def
  by (intro emits_intros dnf_quiet_events(1-11))+

lemma emits_finalize_parts [emits_intros]:
  "emits dnf_quiet (activate_fedora_runtime env)" "emits dnf_quiet (refresh_ca_bundle env)" "emits dnf_quiet (rebuild_linker_cache env)"
  "emits dnf_quiet (rebuild_gconv_cache env)" "emits dnf_quiet (write_bootstrap_marker env)"
  unfolding activate_fedora_runtime_def activate_fedora_shell_def refresh_ca_bundle_def
    rebuild_linker_cache_def rebuild_gconv_cache_def link_tool_def run_bootstrap_command_def write_bootstrap_marker_def
  by (intro emits_intros dnf_quiet_events(1-11))+

lemma emits_finalize_quiet [emits_intros]: "emits dnf_quiet (finalize_fedora_bootstrap env)"
  unfolding finalize_fedora_bootstrap_def by (intro emits_intros dnf_quiet_events(1-11))

section \<open>The move below \<^verbatim>\<open>/usr\<close>\<close>

text \<open>
  C9. The preparation of the merged layout loses nothing: a path of an old directory is deleted with
  what is below it only while something is at its place below \<^verbatim>\<open>/usr\<close>; it is removed otherwise only
  as a directory or link found there, or right after it was copied to its place, which was free; and
  a place below \<^verbatim>\<open>/usr\<close> is written only when it was free.
\<close>

theorem usr_merge_loses_nothing: "emits_at (usr_merge_ok env) h (prepare_fedora_usr_merge env)"
  unfolding prepare_fedora_usr_merge_def
  by (rule emits_at_eachx) (auto intro: ensure_usr_merge_link_ok)

text \<open>
  When the preparation returns without an exception, each of the four old directories is a link
  to its counterpart: it was one when its turn came, or the link has been created then.
\<close>

theorem usr_merge_complete:
  assumes "(legacy, usr, target) \<in> set usr_merge_links" and "result (prepare_fedora_usr_merge env) h = Inr ()"
  shows "\<exists>h'. prefix h h' \<and> prefix h' (after (prepare_fedora_usr_merge env) h) \<and>
    (e_readlink env h' legacy = Some target
     \<or> (\<exists>h''. h' = h'' @ [Symlink target legacy] \<and> e_call env h'' (Symlink target legacy) = None))"
proof -
  let ?f = "\<lambda>(legacy, usr, target). ensure_usr_merge_link env legacy usr target"
  have extends: "prefix h (after (?f x) h)" for x h
    by (cases x) (auto intro: emits_at_prefix ensure_usr_merge_link_extends)
  obtain h' where h': "prefix h h'" "result (?f (legacy, usr, target)) h' = Inr ()"
    "prefix (after (?f (legacy, usr, target)) h') (after (prepare_fedora_usr_merge env) h)"
    using eachx_step [OF assms(1), of ?f h] assms(2) extends unfolding prepare_fedora_usr_merge_def by blast
  let ?fin = "after (ensure_usr_merge_link env legacy usr target) h'"
  have "prefix h ?fin" using h'(1) extends [of h' "(legacy, usr, target)"] by (auto intro: prefix_order.trans)
  with h'(3) ensure_usr_merge_link_done [OF h'(2) [simplified]] show ?thesis
    by (intro exI [of _ ?fin]) auto
qed

definition merged_env :: env where
  "merged_env = (listing_env []) \<lparr>
     e_lstat := \<lambda>h p. Inr \<lparr>st_kind = S_LNK, st_mode = 511\<rparr>,
     e_readlink := \<lambda>h p. if p = ''/lib'' then Some ''usr/lib64'' else Some (''usr'' @ p)\<rparr>"

text \<open>One of the four links is wrong and gets replaced.\<close>

lemma usr_merge_complete_witness:
  "(''/lib'', ''/usr/lib'', ''usr/lib'') \<in> set usr_merge_links \<and> result (prepare_fedora_usr_merge merged_env) [] = Inr () \<and>
   (\<exists>h'. prefix [] h' \<and> prefix h' (after (prepare_fedora_usr_merge merged_env) []) \<and>
    (e_readlink merged_env h' ''/lib'' = Some ''usr/lib''
     \<or> (\<exists>h''. h' = h'' @ [Symlink ''usr/lib'' ''/lib''] \<and> e_call merged_env h'' (Symlink ''usr/lib'' ''/lib'') = None)))"
proof (intro conjI)
  show links: "(''/lib'', ''/usr/lib'', ''usr/lib'') \<in> set usr_merge_links" by (simp add: usr_merge_links_def)
  show ok: "result (prepare_fedora_usr_merge merged_env) [] = Inr ()" by code_simp
  show "\<exists>h'. prefix [] h' \<and> prefix h' (after (prepare_fedora_usr_merge merged_env) []) \<and>
    (e_readlink merged_env h' ''/lib'' = Some ''usr/lib''
     \<or> (\<exists>h''. h' = h'' @ [Symlink ''usr/lib'' ''/lib''] \<and> e_call merged_env h'' (Symlink ''usr/lib'' ''/lib'') = None))"
    by (rule usr_merge_complete [OF links ok])
qed

text \<open>
  C34. The bound on the depth does not show: where paths of \<open>4096\<close> bytes and more are refused by the
  system, the move of a tree is the same with any larger bound.
\<close>

theorem merge_depth_enough:
  assumes "long_paths_refused env" and "source \<noteq> []"
  shows "merge_bootstrap_tree (MAX_DEPTH + k) env source destination = merge_bootstrap_tree MAX_DEPTH env source destination"
  using merge_fuel [OF assms(1), of source MAX_DEPTH k destination] assms(2) by (cases source) simp_all

definition deep_env :: env where
  "deep_env = (listing_env []) \<lparr>
     e_stat := \<lambda>h p. if 4096 \<le> length p then Inl EOTHER else Inr \<lparr>st_kind = S_DIR, st_mode = 493\<rparr>,
     e_opendir := \<lambda>h p. Some [''.'', ''..'', ''deeper'']\<rparr>"

text \<open>Directories without an end, as a loop of mounts would give them.\<close>

lemma merge_depth_enough_witness:
  "long_paths_refused deep_env \<and> ''/bin'' \<noteq> [] \<and>
   merge_bootstrap_tree (MAX_DEPTH + 1) deep_env ''/bin'' ''/usr/bin'' =
   merge_bootstrap_tree MAX_DEPTH deep_env ''/bin'' ''/usr/bin''"
proof (intro conjI)
  show refused: "long_paths_refused deep_env" by (simp add: long_paths_refused_def deep_env_def)
  show named: "''/bin'' \<noteq> []" by simp
  show "merge_bootstrap_tree (MAX_DEPTH + 1) deep_env ''/bin'' ''/usr/bin'' =
      merge_bootstrap_tree MAX_DEPTH deep_env ''/bin'' ''/usr/bin''"
    by (rule merge_depth_enough [OF refused named])
qed

end
