(* ===== verification/Syspckg.thy ===== *)
theory Syspckg
  imports Bootstrap Console
begin

unbundle bit_operations_syntax

text \<open>
  The program \<^verbatim>\<open>tools/syspckg/main.cpp\<close> above its file system functions, first part: the command line,
  and the choice and the loading of the repositories. The package libraries are the record \<open>dnf\<close>, a
  parameter of everything that uses them: its functions give what the library answers after a
  history, and a call of the library that may throw is an event whose failure is the exception.
  Log messages are not modelled; what a command prints to the standard output is.
\<close>

section \<open>Command line\<close>

datatype SourceMode = AUTO | ADAVA | FEDORA

record Options =
  op_command :: string
  op_args :: "string list"
  op_source :: SourceMode
  op_assume_yes :: bool

definition is_command :: "string \<Rightarrow> bool" where
  "is_command v \<longleftrightarrow>
     v \<in> set [''install'', ''remove'', ''update'', ''upgrade'', ''search'', ''info'', ''list'', ''repos'', ''clean'']"

definition parse_source :: "string \<Rightarrow> string + SourceMode" where
  "parse_source v =
     (if v = ''auto'' then Inr AUTO
      else if v = ''adava'' \<or> v = ''adavalinux'' then Inr ADAVA
      else if v = ''fedora'' then Inr FEDORA
      else Inl (''Unknown source: '' @ v))"

fun parse_arguments :: "string list \<Rightarrow> Options \<times> string list \<Rightarrow> string + Options \<times> string list" where
  "parse_arguments [] s = Inr s"
| "parse_arguments (arg # rest) (opts, positional) =
     (if arg = ''-y'' \<or> arg = ''--assumeyes'' then parse_arguments rest (opts \<lparr>op_assume_yes := True\<rparr>, positional)
      else if arg = ''--adava'' then parse_arguments rest (opts \<lparr>op_source := ADAVA\<rparr>, positional)
      else if arg = ''--fedora'' then parse_arguments rest (opts \<lparr>op_source := FEDORA\<rparr>, positional)
      else if prefix ''--source='' arg then
        (case parse_source (drop 9 arg) of
           Inl what \<Rightarrow> Inl what
         | Inr m \<Rightarrow> parse_arguments rest (opts \<lparr>op_source := m\<rparr>, positional))
      else if arg = ''--source'' then
        (case rest of
           [] \<Rightarrow> Inl ''--source expects auto, adava or fedora''
         | v # rest' \<Rightarrow>
             (case parse_source v of
                Inl what \<Rightarrow> Inl what
              | Inr m \<Rightarrow> parse_arguments rest' (opts \<lparr>op_source := m\<rparr>, positional)))
      else parse_arguments rest (opts, positional @ [arg]))"

text \<open>The arguments are those after the name of the program.\<close>

definition dnf_parse_options :: "string list \<Rightarrow> string + Options" where
  "dnf_parse_options args =
     (case parse_arguments args (\<lparr>op_command = [], op_args = [], op_source = AUTO, op_assume_yes = False\<rparr>, []) of
        Inl what \<Rightarrow> Inl what
      | Inr (opts, []) \<Rightarrow> Inl ''No command specified''
      | Inr (opts, front # behind) \<Rightarrow>
          if \<not> is_command front
          then Inl (''Unknown command '' @ [SQ] @ front @ [SQ] @
            ''. Package names must follow an explicit command, for example: syspckg install '' @ front)
          else Inr (opts \<lparr>op_command := front, op_args := behind\<rparr>))"

definition is_transaction_command :: "string \<Rightarrow> bool" where
  "is_transaction_command c \<longleftrightarrow> c = ''install'' \<or> c = ''remove'' \<or> c = ''update'' \<or> c = ''upgrade''"

section \<open>The package libraries\<close>

datatype repo_type = AVAILABLE | SYSTEM | COMMANDLINE

record repo =
  rp_id :: string
  rp_type :: repo_type
  rp_enabled :: bool
  rp_name :: string

record package_t =
  pk_name :: string
  pk_version :: string
  pk_release :: string
  pk_arch :: string
  pk_nevra :: string
  pk_full_nevra :: string
  pk_repo_id :: string
  pk_repo_type :: repo_type
  pk_location :: string
  pk_summary :: string
  pk_license :: string
  pk_description :: string

record transaction_item =
  ti_action :: string
  ti_inbound :: bool
  ti_package :: package_t

record dnf_transaction =
  dt_items :: "transaction_item list"
  dt_empty :: bool
  dt_problems :: "32 word"
  dt_download_local_pkgs :: bool

datatype job = InstallJob string "string list" | RemoveJob string | UpgradeJob string "string list" | UpgradeAll "string list"

text \<open>What the library does with the callbacks and the logger while it loads the repositories.\<close>

datatype loading =
    Logged string
  | NewDownload string "string option" int
  | Downloaded nat int int
  | MirrorFailure nat "string option" "string option" "string option"
  | Ended nat TransferStatus "string option"

record problem_flags =
  SOLVER_ERROR :: "32 word"
  NOT_FOUND :: "32 word"
  NOT_FOUND_IN_REPOSITORIES :: "32 word"
  NOT_INSTALLED :: "32 word"
  NOT_AVAILABLE :: "32 word"
  UNSUPPORTED_ACTION :: "32 word"

record dnf =
  n_flags :: problem_flags
  n_repos :: "history \<Rightarrow> repo list"
  n_optional_metadata :: "string list"
  n_loading :: "history \<Rightarrow> loading list"
  n_visible :: "history \<Rightarrow> string \<Rightarrow> bool"
  n_tsflags :: "history \<Rightarrow> string list"
  n_resolve :: "history \<Rightarrow> job list \<Rightarrow> dnf_transaction"
  n_failed :: "history \<Rightarrow> (package_t \<times> DownloadContext) list \<Rightarrow> package_t list"
  n_success :: "history \<Rightarrow> bool"
  n_script_output :: "history \<Rightarrow> string"
  n_messages :: "history \<Rightarrow> string list"
  n_transaction_problems :: "history \<Rightarrow> string list"
  n_gpg_problems :: "history \<Rightarrow> string list"
  n_packages :: "history \<Rightarrow> package_t list"
  n_installed :: "package_t \<Rightarrow> bool"
  n_icontains :: "string \<Rightarrow> string \<Rightarrow> bool"
  n_filter_priority :: "package_t list \<Rightarrow> package_t list"
  n_filter_latest_evr :: "package_t list \<Rightarrow> package_t list"
  n_cachedir :: string

definition has_problem :: "32 word \<Rightarrow> 32 word \<Rightarrow> bool" where
  "has_problem problems flag \<longleftrightarrow> problems AND flag \<noteq> 0"

definition fatal_resolve_problem :: "problem_flags \<Rightarrow> 32 word \<Rightarrow> bool" where
  "fatal_resolve_problem f problems \<longleftrightarrow>
     has_problem problems (SOLVER_ERROR f) \<or> has_problem problems (NOT_FOUND f)
     \<or> has_problem problems (NOT_FOUND_IN_REPOSITORIES f) \<or> has_problem problems (NOT_INSTALLED f)
     \<or> has_problem problems (NOT_AVAILABLE f) \<or> has_problem problems (UNSUPPORTED_ACTION f)"

text \<open>A call of the library; the text of its exception is the library's.\<close>

definition dnf_call :: "env \<Rightarrow> string \<Rightarrow> unit xio" where
  "dnf_call env name = call_or_throw env (Dnf name) []"

section \<open>Repositories\<close>

fun selected_repo_ids :: "SourceMode \<Rightarrow> string list" where
  "selected_repo_ids ADAVA = [''adavalinux'']"
| "selected_repo_ids FEDORA = [''fedora'', ''updates'']"
| "selected_repo_ids AUTO = []"

definition apply_repo_selection :: "SourceMode \<Rightarrow> repo list \<Rightarrow> repo list" where
  "apply_repo_selection source repos =
     (if source = AUTO then repos
      else map (\<lambda>r. if rp_type r \<noteq> AVAILABLE then r
                    else r \<lparr>rp_enabled := (rp_id r \<in> set (selected_repo_ids source))\<rparr>) repos)"

definition metadata_items :: "string list \<Rightarrow> string list" where
  "metadata_items optional =
     [''repomd.xml'', ''primary''] @
     filter (\<lambda>m. m \<in> set optional) [''filelists'', ''other'', ''presto'', ''updateinfo'', ''comps'']"

definition enabled_repo_ids :: "repo list \<Rightarrow> string list" where
  "enabled_repo_ids repos = map rp_id (filter (\<lambda>r. rp_type r = AVAILABLE \<and> rp_enabled r) repos)"

text \<open>\<^verbatim>\<open>unordered_map::emplace\<close> keeps an entry that is there.\<close>

definition emplace :: "(string \<times> 'v) list \<Rightarrow> string \<times> 'v \<Rightarrow> (string \<times> 'v) list" where
  "emplace m kv = (if map_of m (fst kv) = None then m @ [kv] else m)"

definition metadata_plans :: "dnf \<Rightarrow> string list \<Rightarrow> (string \<times> string list) list" where
  "metadata_plans dnf ids = foldl emplace [] (map (\<lambda>i. (i, metadata_items (n_optional_metadata dnf))) ids)"

text \<open>
  One step of the loading. The user data of a repository is its fetch context; a download is named
  by its position among the downloads that have been announced.
\<close>

definition repo_context :: "(string \<times> string list) list \<Rightarrow> string \<Rightarrow> DownloadContext" where
  "repo_context contexts repo = (case map_of contexts repo of Some items \<Rightarrow> RepoFetch repo items | None \<Rightarrow> NoContext)"

fun loading_step ::
  "bool \<Rightarrow> (string \<times> string list) list \<Rightarrow> callbacks \<times> DownloadState list \<Rightarrow> loading \<Rightarrow> callbacks \<times> DownloadState list" where
  "loading_step tty contexts (cb, ds) (Logged message) =
     (cb \<lparr>cb_activity := SyspckgLogger_write message (cb_activity cb)\<rparr>, ds)"
| "loading_step tty contexts (cb, ds) (NewDownload repo description tot) =
     (cb, ds @ [fst (add_new_download tty (repo_context contexts repo) description tot)])"
| "loading_step tty contexts (cb, ds) (Downloaded i tot bytes) =
     (if i < length ds then (case fst (progress tty tot bytes (cb, ds ! i)) of (cb', st) \<Rightarrow> (cb', ds[i := st])) else (cb, ds))"
| "loading_step tty contexts (cb, ds) (MirrorFailure i msg url metadata) =
     (if i < length ds then (cb, ds[i := fst (mirror_failure tty msg url metadata (ds ! i))]) else (cb, ds))"
| "loading_step tty contexts (cb, ds) (Ended i status msg) =
     (if i < length ds then (fst (end_download tty status msg (ds ! i) cb), ds) else (cb, ds))"

definition usable :: "dnf \<Rightarrow> history \<Rightarrow> callbacks \<Rightarrow> string \<Rightarrow> bool" where
  "usable dnf h cb repo =
     (case result_for cb repo of
        Some r \<Rightarrow> r_successful r > 0 \<or> r_failed r = 0 \<and> n_visible dnf h repo
      | None \<Rightarrow> n_visible dnf h repo)"

definition base_options :: "(string \<times> string) list" where
  "base_options =
     [(''plugins'', ''0''), (''installroot'', ''/''), (''sslcacert'', CA_BUNDLE), (''timeout'', ''10''),
      (''max_parallel_downloads'', ''8''), (''max_downloads_per_mirror'', ''4'')]"

definition set_option :: "env \<Rightarrow> string \<times> string \<Rightarrow> unit xio" where
  "set_option env opt = dnf_call env (fst opt @ ''='' @ snd opt)"

definition set_repo_options :: "env \<Rightarrow> string \<Rightarrow> unit xio" where
  "set_repo_options env repo =
     seqx (set_option env (repo @ ''.skip_if_unavailable'', ''1''))
     (seqx (set_option env (repo @ ''.timeout'', ''10'')) (set_option env (repo @ ''.max_mirror_tries'', ''3'')))"

definition lock_name :: "bool \<Rightarrow> string" where
  "lock_name write_lock = (if write_lock then ''lock_system_repo WRITE'' else ''lock_system_repo READ'')"

definition load_repositories :: "env \<Rightarrow> dnf \<Rightarrow> bool \<Rightarrow> string list \<Rightarrow> unit xio" where
  "load_repositories env dnf write_lock ids =
     seqx (dnf_call env (lock_name write_lock))
     (seqx (dnf_call env ''load_repos'')
     (bindx (lift (query (\<lambda>h.
        let contexts = metadata_plans dnf ids;
            start = (\<lparr>cb_activity = Some (MetadataActivity ids contexts), cb_results = []\<rparr>, []);
            (cb, ds) = foldl (loading_step (e_isatty env 1) contexts) start (n_loading dnf h);
            cb = cb \<lparr>cb_activity := map_option finish_processing (cb_activity cb)\<rparr>
        in filter (usable dnf h cb) ids))) (\<lambda>good.
      if good = [] then throw ''Unable to fetch any enabled package repository'' else okx ())))"

definition prepare_base :: "env \<Rightarrow> dnf \<Rightarrow> SourceMode \<Rightarrow> bool \<Rightarrow> bool \<Rightarrow> repo list xio" where
  "prepare_base env dnf source write_lock load =
     seqx (check_runtime_layout env)
     (seqx (eachx (set_option env) base_options)
     (seqx (dnf_call env ''setup'')
     (seqx (dnf_call env ''create_repos_from_system_configuration'')
     (bindx (lift (query (n_repos dnf))) (\<lambda>repos.
        let repos = apply_repo_selection source repos; ids = enabled_repo_ids repos in
        if \<not> load then okx repos
        else seqx (eachx (set_repo_options env) ids)
          (if ids = [] then throw ''No enabled package repositories''
           else seqx (load_repositories env dnf write_lock ids) (okx repos)))))))"

section \<open>The grammar of the command line\<close>

text \<open>The arguments as the usage message describes them: options anywhere, the other words in their order.\<close>

datatype cli_item = AssumeYes bool | AdavaFlag | FedoraFlag | SourceOption bool string | Plain string

fun spelled :: "cli_item \<Rightarrow> string list" where
  "spelled (AssumeYes long) = [if long then ''--assumeyes'' else ''-y'']"
| "spelled AdavaFlag = [''--adava'']"
| "spelled FedoraFlag = [''--fedora'']"
| "spelled (SourceOption joined v) = (if joined then [''--source='' @ v] else [''--source'', v])"
| "spelled (Plain w) = [w]"

fun admissible :: "cli_item \<Rightarrow> bool" where
  "admissible (SourceOption joined v) \<longleftrightarrow> v \<in> {''auto'', ''adava'', ''adavalinux'', ''fedora''}"
| "admissible (Plain w) \<longleftrightarrow>
     w \<notin> {''-y'', ''--assumeyes'', ''--adava'', ''--fedora'', ''--source''} \<and> \<not> prefix ''--source='' w"
| "admissible _ \<longleftrightarrow> True"

fun chosen_source :: "cli_item \<Rightarrow> SourceMode option" where
  "chosen_source AdavaFlag = Some ADAVA"
| "chosen_source FedoraFlag = Some FEDORA"
| "chosen_source (SourceOption joined v) =
     Some (if v = ''auto'' then AUTO else if v = ''fedora'' then FEDORA else ADAVA)"
| "chosen_source _ = None"

definition plain_words :: "cli_item list \<Rightarrow> string list" where
  "plain_words xs = concat (map (\<lambda>x. case x of Plain w \<Rightarrow> [w] | _ \<Rightarrow> []) xs)"

definition last_source :: "cli_item list \<Rightarrow> SourceMode" where
  "last_source xs = (case List.map_filter chosen_source (rev xs) of [] \<Rightarrow> AUTO | m # _ \<Rightarrow> m)"

definition yes_given :: "cli_item list \<Rightarrow> bool" where
  "yes_given xs \<longleftrightarrow> list_ex (\<lambda>x. case x of AssumeYes long \<Rightarrow> True | _ \<Rightarrow> False) xs"

definition absorbed :: "cli_item \<Rightarrow> Options \<times> string list \<Rightarrow> Options \<times> string list" where
  "absorbed x s =
     (case s of (opts, positional) \<Rightarrow>
        (opts \<lparr>op_assume_yes := op_assume_yes opts \<or> yes_given [x],
               op_source := (case chosen_source x of None \<Rightarrow> op_source opts | Some m \<Rightarrow> m)\<rparr>,
         positional @ plain_words [x]))"

lemma parse_source_Inr:
  "parse_source v = Inr m \<longleftrightarrow> v \<in> {''auto'', ''adava'', ''adavalinux'', ''fedora''} \<and>
     m = (if v = ''auto'' then AUTO else if v = ''fedora'' then FEDORA else ADAVA)"
  by (auto simp: parse_source_def)

lemma option_eta:
  "opts \<lparr>op_assume_yes := op_assume_yes opts, op_source := op_source opts\<rparr> = (opts :: Options)"
  "opts \<lparr>op_assume_yes := op_assume_yes opts, op_source := m\<rparr> = opts \<lparr>op_source := m\<rparr>"
  "opts \<lparr>op_assume_yes := b, op_source := op_source opts\<rparr> = opts \<lparr>op_assume_yes := b\<rparr>"
  by simp_all

lemmas absorbed_simps = absorbed_def option_eta plain_words_def yes_given_def

lemma parse_spelled:
  "admissible x \<Longrightarrow> parse_arguments (spelled x @ rest) s = parse_arguments rest (absorbed x s)"
proof (cases s; cases x)
  fix opts positional joined v
  assume "admissible x" "s = (opts, positional)" and x: "x = SourceOption joined v"
  then show ?thesis
    by (cases joined) (auto simp: absorbed_simps parse_source_def)
qed (auto simp: absorbed_simps)

lemma parse_spelled_all:
  "list_all admissible xs \<Longrightarrow> parse_arguments (concat (map spelled xs)) s = Inr (foldl (\<lambda>s x. absorbed x s) s xs)"
  by (induction xs arbitrary: s) (simp_all add: parse_spelled)

lemma first_item:
  assumes "parse_arguments (arg # rest) s = Inr s'"
  shows "\<exists>x rest'. admissible x \<and> arg # rest = spelled x @ rest'"
proof -
  obtain opts positional where s: "s = (opts, positional)" by (cases s)
  consider "arg \<in> {''-y'', ''--assumeyes'', ''--adava'', ''--fedora''}" | "prefix ''--source='' arg" | "arg = ''--source''"
    | "admissible (Plain arg)" by (auto simp: admissible.simps)
  then show ?thesis
  proof cases
    case 1
    then have "\<exists>x \<in> {AssumeYes False, AssumeYes True, AdavaFlag, FedoraFlag}. [arg] = spelled x" by auto
    then obtain x where "x \<in> {AssumeYes False, AssumeYes True, AdavaFlag, FedoraFlag}" "[arg] = spelled x" by blast
    moreover from this have "admissible x" by auto
    ultimately show ?thesis by (metis append_Cons append_Nil)
  next
    case 2
    then obtain v where v: "arg = ''--source='' @ v" by (auto simp: prefix_def)
    with assms s have "parse_source v = Inr (the (chosen_source (SourceOption True v)))"
      by (auto simp: parse_source_def split: if_splits)
    then have "admissible (SourceOption True v)" by (simp add: parse_source_Inr)
    with v show ?thesis by (intro exI [of _ "SourceOption True v"] exI [of _ rest]) simp
  next
    case 3
    with assms s obtain v rest' where r: "rest = v # rest'" by (auto split: list.splits)
    with 3 assms s have "admissible (SourceOption False v)"
      by (auto simp: parse_source_def split: if_splits)
    with 3 r show ?thesis by (intro exI [of _ "SourceOption False v"] exI [of _ rest']) simp
  next
    case 4
    then show ?thesis by (intro exI [of _ "Plain arg"] exI [of _ rest]) simp
  qed
qed

lemma spelled_nonempty: "0 < length (spelled x)"
  by (cases x) auto

lemma parse_only_spelled:
  "parse_arguments args s = Inr s' \<Longrightarrow>
     \<exists>xs. list_all admissible xs \<and> args = concat (map spelled xs) \<and> s' = foldl (\<lambda>s x. absorbed x s) s xs"
proof (induction args arbitrary: s rule: length_induct)
  case (1 args)
  show ?case
  proof (cases args)
    case Nil
    with 1 show ?thesis by (intro exI [of _ "[]"]) simp
  next
    case (Cons arg rest)
    with first_item 1(2) obtain x rest' where x: "admissible x" "args = spelled x @ rest'" by blast
    then have "parse_arguments rest' (absorbed x s) = Inr s'" using 1(2) by (simp add: parse_spelled)
    moreover have "length rest' < length args" using x(2) spelled_nonempty [of x] by simp
    ultimately obtain xs where "list_all admissible xs" "rest' = concat (map spelled xs)"
      "s' = foldl (\<lambda>s x. absorbed x s) (absorbed x s) xs" using 1(1) by blast
    with x show ?thesis by (intro exI [of _ "x # xs"]) simp
  qed
qed

lemma absorbed_all:
  "foldl (\<lambda>s x. absorbed x s) (opts, positional) xs =
     (opts \<lparr>op_assume_yes := op_assume_yes opts \<or> yes_given xs,
            op_source := (case List.map_filter chosen_source (rev xs) of [] \<Rightarrow> op_source opts | m # _ \<Rightarrow> m)\<rparr>,
      positional @ plain_words xs)"
proof (induction xs rule: rev_induct)
  case (snoc x xs)
  then show ?case
    by (auto simp: absorbed_def yes_given_def plain_words_def List.map_filter_def split: option.split list.split)
qed (simp add: yes_given_def plain_words_def List.map_filter_def option_eta)


section \<open>Usable repositories\<close>

text \<open>
  The outcomes of the transfers by what they were for: \<open>keys\<close> are those of the downloads announced so
  far. A download for a repository with a fetch context is for that repository.
\<close>

fun outcomes :: "(string \<times> string list) list \<Rightarrow> string list \<Rightarrow> loading list \<Rightarrow> (string \<times> TransferStatus) list" where
  "outcomes contexts keys [] = []"
| "outcomes contexts keys (NewDownload repo description tot # ls) =
     outcomes contexts
       (keys @ [if map_of contexts repo \<noteq> None then repo
                else case description of Some d \<Rightarrow> d | None \<Rightarrow> ''(unknown download)'']) ls"
| "outcomes contexts keys (Ended i status msg # ls) =
     (if i < length keys then [(keys ! i, status)] else []) @ outcomes contexts keys ls"
| "outcomes contexts keys (_ # ls) = outcomes contexts keys ls"

definition tally :: "callbacks \<Rightarrow> string \<Rightarrow> nat \<times> nat" where
  "tally cb repo = (case result_for cb repo of None \<Rightarrow> (0, 0) | Some r \<Rightarrow> (r_successful r, r_failed r))"

abbreviation ended_well :: "string \<Rightarrow> string \<times> TransferStatus \<Rightarrow> bool" where
  "ended_well repo x \<equiv> fst x = repo \<and> snd x \<noteq> ERROR"

lemma usable_tally: "usable dnf h cb repo \<longleftrightarrow> fst (tally cb repo) > 0 \<or> snd (tally cb repo) = 0 \<and> n_visible dnf h repo"
  by (simp add: usable_def tally_def split: option.split)

lemma key_of_new:
  "ds_result_key (fst (add_new_download tty (repo_context contexts repo) description tot)) =
    (if map_of contexts repo \<noteq> None then repo else case description of Some d \<Rightarrow> d | None \<Rightarrow> ''(unknown download)'')"
  by (simp add: add_new_download_def new_download_def repo_context_def Let_def split: option.split)

lemma key_of_progress: "ds_result_key (snd (fst (progress tty tot bytes (cb, st)))) = ds_result_key st"
  and results_of_progress: "cb_results (fst (fst (progress tty tot bytes (cb, st)))) = cb_results cb"
  by (simp_all add: progress_def Let_def)

lemma key_of_mirror_failure: "ds_result_key (fst (mirror_failure tty msg url metadata st)) = ds_result_key st"
  by (simp add: mirror_failure_def Let_def)

lemma tally_results: "cb_results cb = cb_results cb' \<Longrightarrow> tally cb repo = tally cb' repo"
  by (simp add: tally_def result_for_def)

lemma tally_end:
  "tally (fst (end_download tty status msg st cb)) repo =
    (fst (tally cb repo) + (if ended_well repo (ds_result_key st, status) then 1 else 0),
     snd (tally cb repo) + (if ds_result_key st = repo \<and> status = ERROR then 1 else 0))"
  by (auto simp: end_download_def Let_def tally_def result_for_def update_conv' at_key_def count_result_def new_result_def
      split: option.split)

lemma map_update_same: "f y = f (xs ! i) \<Longrightarrow> map f (xs[i := y]) = map f xs"
  by (metis list_update_id map_update)

lemma tally_loading:
  "tally (fst (foldl (loading_step tty contexts) (cb, ds) ls)) repo =
    (fst (tally cb repo) + length (filter (ended_well repo) (outcomes contexts (map ds_result_key ds) ls)),
     snd (tally cb repo) + length (filter (\<lambda>x. x = (repo, ERROR)) (outcomes contexts (map ds_result_key ds) ls)))"
proof (induction ls arbitrary: cb ds)
  case (Cons l ls)
  show ?case
  proof (cases l)
    case (Downloaded i tot bytes)
    obtain cb' st where p: "fst (progress tty tot bytes (cb, ds ! i)) = (cb', st)" by (metis surj_pair)
    have "ds_result_key st = ds_result_key (ds ! i)" "cb_results cb' = cb_results cb"
      using key_of_progress [of tty tot bytes cb "ds ! i"] results_of_progress [of tty tot bytes cb "ds ! i"] p by simp_all
    note same = map_update_same [of ds_result_key, OF this(1)] tally_results [OF this(2)]
    have "loading_step tty contexts (cb, ds) l = (if i < length ds then (cb', ds[i := st]) else (cb, ds))"
      by (simp add: Downloaded p)
    then show ?thesis by (simp only: foldl_Cons Downloaded outcomes.simps) (simp add: Cons same)
  next
    case (MirrorFailure i msg url metadata)
    obtain st where st: "fst (mirror_failure tty msg url metadata (ds ! i)) = st" by blast
    note same = map_update_same [of ds_result_key, OF key_of_mirror_failure [of tty msg url metadata "ds ! i", unfolded st]]
    have "loading_step tty contexts (cb, ds) l = (if i < length ds then (cb, ds[i := st]) else (cb, ds))"
      by (simp add: MirrorFailure st)
    then show ?thesis by (simp only: foldl_Cons MirrorFailure outcomes.simps) (simp add: Cons same)
  next
    case (Logged message)
    have "tally (cb \<lparr>cb_activity := a\<rparr>) repo = tally cb repo" for a by (simp add: tally_def result_for_def)
    with Logged show ?thesis by (simp add: Cons)
  next
    case (NewDownload r description tot)
    then show ?thesis by (simp only: foldl_Cons loading_step.simps outcomes.simps Cons map_append list.map key_of_new)
  next
    case (Ended i status msg)
    obtain cb' where e: "fst (end_download tty status msg (ds ! i) cb) = cb'" by blast
    have step: "loading_step tty contexts (cb, ds) l = (if i < length ds then (cb', ds) else (cb, ds))"
      using Ended e by simp
    have "tally cb' repo = (fst (tally cb repo) + (if ended_well repo (ds_result_key (ds ! i), status) then 1 else 0),
        snd (tally cb repo) + (if ds_result_key (ds ! i) = repo \<and> status = ERROR then 1 else 0))"
      using tally_end [of tty status msg "ds ! i" cb repo] e by simp
    with Ended show ?thesis by (simp only: foldl_Cons step) (auto simp: Cons e)
  qed
qed simp

lemma filter_any: "0 < length (filter P xs) \<longleftrightarrow> (\<exists>x \<in> set xs. P x)" "length (filter P xs) = 0 \<longleftrightarrow> (\<forall>x \<in> set xs. \<not> P x)"
  by (auto simp: filter_empty_conv)

lemma usable_after_loading:
  assumes "cb_results cb = []" and "fst (foldl (loading_step tty contexts) (cb, []) ls) = cb'"
    and "cb_results cb'' = cb_results cb'"
  shows "usable dnf h cb'' repo \<longleftrightarrow>
    (\<exists>status. status \<noteq> ERROR \<and> (repo, status) \<in> set (outcomes contexts [] ls))
    \<or> (repo, ERROR) \<notin> set (outcomes contexts [] ls) \<and> n_visible dnf h repo"
proof -
  have start: "tally cb repo = (0, 0)" using assms(1) by (simp add: tally_def result_for_def)
  have "tally cb'' repo = (length (filter (ended_well repo) (outcomes contexts [] ls)),
      length (filter (\<lambda>x. x = (repo, ERROR)) (outcomes contexts [] ls)))"
    using tally_loading [of tty contexts cb "[]" ls repo] start assms(2) tally_results [OF assms(3)] by simp
  then show ?thesis
    unfolding usable_tally by (simp only: fst_conv snd_conv filter_any) force
qed

lemma emits_dnf_call [emits_intros]: "P (Dnf name) \<Longrightarrow> emits P (dnf_call env name)"
  unfolding dnf_call_def by (rule emits_x)

lemma dnf_call_simps [simp]:
  "after (dnf_call env name) h = h @ [Dnf name]"
  "result (dnf_call env name) h = Inr x \<longleftrightarrow> e_call env h (Dnf name) = None"
  by (simp_all add: dnf_call_def)

lemma selection_respected:
  "source = AUTO \<or> set (enabled_repo_ids (apply_repo_selection source repos)) \<subseteq> set (selected_repo_ids source)"
  by (auto simp: apply_repo_selection_def enabled_repo_ids_def)

lemma load_repositories_steps:
  assumes "result (load_repositories env dnf write_lock ids) h = Inr ()"
  shows "after (load_repositories env dnf write_lock ids) h = h @ [Dnf (lock_name write_lock), Dnf ''load_repos'']"
    and "\<exists>repo \<in> set ids. (\<exists>status. status \<noteq> ERROR \<and>
          (repo, status) \<in> set (outcomes (metadata_plans dnf ids) []
            (n_loading dnf (h @ [Dnf (lock_name write_lock), Dnf ''load_repos'']))))
        \<or> (repo, ERROR) \<notin> set (outcomes (metadata_plans dnf ids) []
            (n_loading dnf (h @ [Dnf (lock_name write_lock), Dnf ''load_repos'']))) \<and>
          n_visible dnf (h @ [Dnf (lock_name write_lock), Dnf ''load_repos'']) repo"
proof -
  let ?h = "h @ [Dnf (lock_name write_lock), Dnf ''load_repos'']"
  let ?ctx = "metadata_plans dnf ids"
  let ?cb = "fst (foldl (loading_step (e_isatty env 1) ?ctx)
    (\<lparr>cb_activity = Some (MetadataActivity ids ?ctx), cb_results = []\<rparr>, []) (n_loading dnf ?h))"
  let ?good = "filter (usable dnf ?h (?cb \<lparr>cb_activity := map_option finish_processing (cb_activity ?cb)\<rparr>)) ids"
  have good: "?good \<noteq> []"
    using assms by (auto simp: load_repositories_def seqx_Inr bindx_Inr Let_def case_prod_beta simp del: result_x(3,4) split: if_splits)
  show "after (load_repositories env dnf write_lock ids) h = ?h"
    using assms good by (simp add: load_repositories_def seqx_Inr bindx_Inr Let_def case_prod_beta del: result_x(3,4) after_x(3,4))
  from good obtain repo where "repo \<in> set ids" "usable dnf ?h (?cb \<lparr>cb_activity := map_option finish_processing (cb_activity ?cb)\<rparr>) repo"
    by (auto simp: filter_empty_conv)
  then show "\<exists>repo \<in> set ids. (\<exists>status. status \<noteq> ERROR \<and> (repo, status) \<in> set (outcomes ?ctx [] (n_loading dnf ?h)))
      \<or> (repo, ERROR) \<notin> set (outcomes ?ctx [] (n_loading dnf ?h)) \<and> n_visible dnf ?h repo"
    by (subst (asm) usable_after_loading [OF _ refl]) auto
qed

lemma emits_repo_options [emits_intros]: "emits (\<lambda>e. e \<in> range Dnf) (eachx (set_repo_options env) ids)"
  unfolding set_repo_options_def set_option_def by (intro emits_intros) auto

lemma emits_base_options [emits_intros]: "emits (\<lambda>e. e \<in> range Dnf) (eachx (set_option env) base_options)"
  unfolding set_option_def by (intro emits_intros) auto

lemma prepare_base_steps:
  assumes "result (prepare_base env dnf source write_lock True) h = Inr repos"
  defines "ids \<equiv> enabled_repo_ids repos"
  shows "\<exists>h1. prefix h h1 \<and> repos = apply_repo_selection source (n_repos dnf h1) \<and>
    result (load_repositories env dnf write_lock ids) (after (eachx (set_repo_options env) ids) h1) = Inr () \<and>
    after (prepare_base env dnf source write_lock True) h =
      after (load_repositories env dnf write_lock ids) (after (eachx (set_repo_options env) ids) h1)"
proof -
  let ?a = "after (check_runtime_layout env) h"
  let ?b = "after (eachx (set_option env) base_options) ?a"
  let ?h1 = "?b @ [Dnf ''setup'', Dnf ''create_repos_from_system_configuration'']"
  have "prefix h ?a" "prefix ?a ?b"
    by (rule emits_extends, rule emits_check_runtime_layout) (rule emits_extends, rule emits_base_options)
  then have "prefix h ?h1" by (meson prefix_order.trans prefixI)
  then show ?thesis
    using assms(1) unfolding ids_def prepare_base_def
    by (intro exI [of _ ?h1]) (auto simp: seqx_Inr bindx_Inr Let_def simp del: result_x(3,4) after_x(3,4) split: if_splits)
qed

text \<open>
  C21. When the repositories are loaded without an exception, those in use are the configured ones after
  the choice of the source, with a source other than \<^verbatim>\<open>auto\<close> only its own repositories are among them,
  and at least one of them is really there: a transfer for it was successful, or none failed and
  the library shows packages of it.
\<close>

theorem prepared_base_sound:
  assumes "result (prepare_base env dnf source write_lock True) h = Inr repos"
  defines "h' \<equiv> after (prepare_base env dnf source write_lock True) h"
    and "ids \<equiv> enabled_repo_ids repos"
  shows "(\<exists>h1. prefix h h1 \<and> prefix h1 h' \<and> repos = apply_repo_selection source (n_repos dnf h1))
    \<and> (source = AUTO \<or> set ids \<subseteq> set (selected_repo_ids source))
    \<and> (\<exists>repo \<in> set ids. (\<exists>status. status \<noteq> ERROR \<and>
          (repo, status) \<in> set (outcomes (metadata_plans dnf ids) [] (n_loading dnf h')))
        \<or> (repo, ERROR) \<notin> set (outcomes (metadata_plans dnf ids) [] (n_loading dnf h')) \<and> n_visible dnf h' repo)"
proof -
  obtain h1 where h1: "prefix h h1" "repos = apply_repo_selection source (n_repos dnf h1)"
    "h' = after (load_repositories env dnf write_lock ids) (after (eachx (set_repo_options env) ids) h1)"
    "result (load_repositories env dnf write_lock ids) (after (eachx (set_repo_options env) ids) h1) = Inr ()"
    using prepare_base_steps [OF assms(1)] unfolding h'_def ids_def by blast
  note loaded = load_repositories_steps [OF h1(4)]
  have "prefix h1 h'" using h1(3) loaded(1) emits_extends [OF emits_repo_options, of h1 env ids] by (auto intro: prefix_order.trans)
  moreover obtain repo where "repo \<in> set ids" "(\<exists>status. status \<noteq> ERROR \<and>
          (repo, status) \<in> set (outcomes (metadata_plans dnf ids) [] (n_loading dnf h')))
        \<or> (repo, ERROR) \<notin> set (outcomes (metadata_plans dnf ids) [] (n_loading dnf h')) \<and> n_visible dnf h' repo"
    using loaded(2) unfolding h1(3) loaded(1) by auto
  ultimately show ?thesis using h1(1,2) selection_respected unfolding ids_def by blast
qed

text \<open>A system on which every file is there and every call succeeds, and a library with two repositories.\<close>

definition ready_env :: env where
  "ready_env = (listing_env []) \<lparr>
     e_stat := \<lambda>h p. Inr \<lparr>st_kind = S_REG, st_mode = 420\<rparr>, e_access := \<lambda>h p m. True,
     e_file_size := \<lambda>h p. Some 200000\<rparr>"

definition sample_package :: package_t where
  "sample_package =
     \<lparr>pk_name = ''bash'', pk_version = ''5.3'', pk_release = ''1'', pk_arch = ''x86_64'', pk_nevra = ''bash-5.3-1.x86_64'',
      pk_full_nevra = ''bash-0:5.3-1.x86_64'', pk_repo_id = ''fedora'', pk_repo_type = AVAILABLE,
      pk_location = ''Packages/b/bash-5.3-1.x86_64.rpm'', pk_summary = [], pk_license = [], pk_description = []\<rparr>"

definition sample_dnf :: dnf where
  "sample_dnf =
     \<lparr>n_flags = \<lparr>SOLVER_ERROR = 1, NOT_FOUND = 2, NOT_FOUND_IN_REPOSITORIES = 4, NOT_INSTALLED = 8, NOT_AVAILABLE = 16,
        UNSUPPORTED_ACTION = 32\<rparr>,
      n_repos = \<lambda>h.
        [\<lparr>rp_id = ''fedora'', rp_type = AVAILABLE, rp_enabled = True, rp_name = ''Fedora''\<rparr>,
         \<lparr>rp_id = ''adavalinux'', rp_type = AVAILABLE, rp_enabled = False, rp_name = ''AdavaLinux''\<rparr>],
      n_optional_metadata = [''comps''],
      n_loading = \<lambda>h. [NewDownload ''adavalinux'' None 10, Ended 0 SUCCESSFUL None],
      n_visible = \<lambda>h repo. False, n_tsflags = \<lambda>h. [''nodocs''],
      n_resolve = \<lambda>h jobs.
        \<lparr>dt_items = [\<lparr>ti_action = ''Install'', ti_inbound = True, ti_package = sample_package\<rparr>], dt_empty = False,
         dt_problems = 0, dt_download_local_pkgs = False\<rparr>,
      n_failed = \<lambda>h ps. [], n_success = \<lambda>h. True, n_script_output = \<lambda>h. [], n_messages = \<lambda>h. [],
      n_transaction_problems = \<lambda>h. [], n_gpg_problems = \<lambda>h. [], n_packages = \<lambda>h. [sample_package],
      n_installed = \<lambda>p. False, n_icontains = \<lambda>s t. sublist t s, n_filter_priority = \<lambda>ps. ps,
      n_filter_latest_evr = \<lambda>ps. ps, n_cachedir = ''/var/cache/libdnf5''\<rparr>"

definition sample_repos :: "repo list" where
  "sample_repos =
     [\<lparr>rp_id = ''fedora'', rp_type = AVAILABLE, rp_enabled = False, rp_name = ''Fedora''\<rparr>,
      \<lparr>rp_id = ''adavalinux'', rp_type = AVAILABLE, rp_enabled = True, rp_name = ''AdavaLinux''\<rparr>]"

lemma ready_env_simps [simp]:
  "e_call ready_env = (\<lambda>h e. None)" "e_stat ready_env = (\<lambda>h p. Inr \<lparr>st_kind = S_REG, st_mode = 420\<rparr>)"
  "e_lstat ready_env = (\<lambda>h p. Inl ENOENT)"
  "e_access ready_env = (\<lambda>h p m. True)" "e_file_size ready_env = (\<lambda>h p. Some 200000)"
  "e_run ready_env = (\<lambda>h argv. Exited 0)" "e_euid ready_env = 0" "e_isatty ready_env = (\<lambda>fd. False)"
  by (simp_all add: ready_env_def listing_env_def)

lemma ready_layout: "result (check_runtime_layout ready_env) h = Inr ()"
  by (simp add: check_runtime_layout_def check_private_ca_bundle_def set_ca_environment_def require_def run_system_def
      ensure_rpm_database_def ensure_fedora_glibc_bootstrap_layout_def prepare_file_def fs_exists_def
      status_test_def access_def file_size_def and_then_def succeeds_def result_call)

lemma ready_options: "result (eachx (\<lambda>x. dnf_call ready_env (f x)) xs) h = Inr ()"
  by (induction xs arbitrary: h) (simp_all add: seqx_Inr del: result_x(3,4))

lemma prepared_base_sound_witness:
  "result (prepare_base ready_env sample_dnf ADAVA False True) [] = Inr sample_repos \<and>
   set (enabled_repo_ids sample_repos) \<subseteq> set (selected_repo_ids ADAVA)"
proof
  have options: "result (eachx (set_option ready_env) xs) h = Inr ()" "result (eachx (set_repo_options ready_env) ids) h = Inr ()"
    for xs ids h
    unfolding set_option_def set_repo_options_def
    by (rule ready_options, induction ids arbitrary: h) (simp_all add: seqx_Inr del: result_x(3,4))
  have repos: "apply_repo_selection ADAVA (n_repos sample_dnf h) = sample_repos" "enabled_repo_ids sample_repos = [''adavalinux'']" for h
    by (simp_all add: sample_dnf_def sample_repos_def apply_repo_selection_def enabled_repo_ids_def)
  have load: "result (load_repositories ready_env sample_dnf False [''adavalinux'']) h = Inr ()" for h
    by (simp add: load_repositories_def sample_dnf_def seqx_Inr bindx_Inr metadata_plans_def emplace_def repo_context_def
        add_new_download_def new_download_def end_download_def usable_def result_for_def count_result_def at_key_def
        new_result_def Let_def del: result_x(3,4))
  show prepared: "result (prepare_base ready_env sample_dnf ADAVA False True) [] = Inr sample_repos"
    by (simp add: prepare_base_def seqx_Inr bindx_Inr ready_layout options repos load Let_def del: result_x(3,4))
  from prepared_base_sound [OF prepared] show "set (enabled_repo_ids sample_repos) \<subseteq> set (selected_repo_ids ADAVA)"
    by blast
qed

end
