(* ===== verification/SyspckgRun.thy ===== *)
theory SyspckgRun
  imports Syspckg
begin

text \<open>
  The program \<^verbatim>\<open>tools/syspckg/main.cpp\<close> above its file system functions, second part: the run of a
  transaction with its error handling, the commands and \<^verbatim>\<open>main\<close>. The lemmas are about the conditions
  under which RPM is started and about what is put back when it ends, in whatever way it ends.
\<close>

section \<open>Transactions\<close>

definition confirm_transaction :: "env \<Rightarrow> bool \<Rightarrow> bool io" where
  "confirm_transaction env assume_yes =
     (if assume_yes \<or> \<not> e_isatty env 0 then ret True
      else do {
        input \<leftarrow> read_stdin env;
        let answer = (case input of None \<Rightarrow> [] | Some l \<Rightarrow> takeWhile (\<lambda>c. c \<noteq> LF) l);
        ret (answer \<in> set [[], ''y'', ''Y'', ''yes'', ''YES''])
      })"

definition transaction_contains_fedora_packages :: "dnf_transaction \<Rightarrow> bool" where
  "transaction_contains_fedora_packages t \<longleftrightarrow>
     list_ex (\<lambda>i. ti_inbound i \<and> (pk_repo_id (ti_package i) = ''fedora'' \<or> pk_repo_id (ti_package i) = ''updates'')) (dt_items t)"

definition set_bootstrap_tsflags :: "env \<Rightarrow> unit xio" where
  "set_bootstrap_tsflags env =
     call_or_throw env (Tsflags [[], ''noscripts'', ''notriggers'', ''nocontexts'', ''nocaps'', ''nodocs'']) []"

definition restore_tsflags :: "env \<Rightarrow> string list \<Rightarrow> unit xio" where
  "restore_tsflags env original = call_or_throw env (Tsflags ([] # original)) []"

definition enable_bootstrap_rpm_overrides :: "env \<Rightarrow> unit xio" where
  "enable_bootstrap_rpm_overrides env =
     require (lift (succeeds env (Rpm ''rpmPushMacro __systemd_sysusers'')))
       ''Unable to disable RPM sysusers for bootstrap transaction''"

definition disable_bootstrap_rpm_overrides :: "env \<Rightarrow> unit xio" where
  "disable_bootstrap_rpm_overrides env = call_ignored env (Rpm ''rpmPopMacro __systemd_sysusers'')"

definition print_out :: "env \<Rightarrow> string \<Rightarrow> unit xio" where
  "print_out env line = lift (emit (Append ''/dev/stdout'' line))"

definition print_err :: "env \<Rightarrow> string \<Rightarrow> unit xio" where
  "print_err env line = lift (emit (Append ''/dev/stderr'' line))"

definition indented_red :: "string \<Rightarrow> string \<Rightarrow> string" where
  "indented_red before line = ''  '' @ COLOR_RED @ before @ line @ COLOR_RESET @ [LF]"

text \<open>The lines of a text as \<^verbatim>\<open>getline\<close> gives them; an empty one may follow at the end.\<close>

fun split_lines :: "string \<Rightarrow> string list" where
  "split_lines [] = [[]]"
| "split_lines (c # s) =
     (if c = LF then [] # split_lines s
      else case split_lines s of [] \<Rightarrow> [[c]] | l # ls \<Rightarrow> (c # l) # ls)"

definition failure_details :: "dnf \<Rightarrow> history \<Rightarrow> string list" where
  "failure_details dnf h =
     map (indented_red []) (filter (\<lambda>l. l \<noteq> []) (split_lines (n_script_output dnf h))) @
     map (indented_red ''RPM: '') (filter (\<lambda>l. l \<noteq> []) (n_messages dnf h)) @
     map (indented_red []) (filter (\<lambda>l. l \<noteq> []) (n_transaction_problems dnf h)) @
     map (indented_red ''GPG: '') (filter (\<lambda>l. l \<noteq> []) (n_gpg_problems dnf h))"

definition print_rpm_failure_details :: "env \<Rightarrow> dnf \<Rightarrow> unit xio" where
  "print_rpm_failure_details env dnf =
     bindx (lift (query (failure_details dnf))) (eachx (print_err env))"

definition action_color :: "string \<Rightarrow> string" where
  "action_color action =
     (if sublist ''Install'' action \<or> sublist ''INSTALL'' action then COLOR_GREEN
      else if sublist ''Remove'' action \<or> sublist ''Erase'' action \<or> sublist ''REMOVE'' action \<or> sublist ''ERASE'' action
      then COLOR_RED
      else if sublist ''Upgrade'' action \<or> sublist ''Downgrade'' action \<or> sublist ''UPGRADE'' action \<or> sublist ''DOWNGRADE'' action
      then COLOR_YELLOW
      else COLOR_CYAN)"

definition item_line :: "transaction_item \<Rightarrow> string" where
  "item_line i =
     ''  '' @ action_color (ti_action i) @ ti_action i @ COLOR_RESET @ ''  '' @ pk_nevra (ti_package i) @ ''  ['' @
     pk_repo_id (ti_package i) @ '']'' @ [LF]"

definition print_transaction :: "env \<Rightarrow> dnf_transaction \<Rightarrow> unit xio" where
  "print_transaction env t =
     whenx (dt_items t \<noteq> [])
       (eachx (print_out env)
         (([LF] @ COLOR_YELLOW @ ''Transaction:'' @ COLOR_RESET @ [LF]) # map item_line (dt_items t) @ [[LF]]))"

text \<open>The packages to download, and the contexts that name and number them for the callbacks.\<close>

definition to_download :: "dnf_transaction \<Rightarrow> package_t list" where
  "to_download t =
     filter (\<lambda>p. \<not> (\<not> dt_download_local_pkgs t \<and> pk_repo_type p = COMMANDLINE))
       (map ti_package (filter ti_inbound (dt_items t)))"

definition filename_of :: "string \<Rightarrow> string" where
  "filename_of path = (case strrchr path (CHR ''/'') of None \<Rightarrow> path | Some i \<Rightarrow> drop (i + 1) path)"

definition archive_name :: "package_t \<Rightarrow> string" where
  "archive_name p = (if filename_of (pk_location p) = [] then pk_full_nevra p @ ''.rpm'' else filename_of (pk_location p))"

definition package_contexts :: "dnf_transaction \<Rightarrow> DownloadContext list" where
  "package_contexts t =
     map (\<lambda>(i, p). PackageFetch (archive_name p) i (length (to_download t))) (enumerate 1 (to_download t))"

definition download_requests :: "dnf_transaction \<Rightarrow> (package_t \<times> DownloadContext) list" where
  "download_requests t = zip (to_download t) (package_contexts t)"

definition resolve_goal :: "env \<Rightarrow> dnf \<Rightarrow> bool \<Rightarrow> string list \<Rightarrow> job list \<Rightarrow> dnf_transaction xio" where
  "resolve_goal env dnf bootstrap original jobs =
     bindx (catchx (dnf_call env ''resolve'')
             (\<lambda>what. seqx (whenx bootstrap (restore_tsflags env original)) (throw what)))
       (\<lambda>_. lift (query (\<lambda>h. n_resolve dnf h jobs)))"

text \<open>A mode for Fedora packages is left when the resolved transaction has none.\<close>

definition settle_bootstrap_mode :: "env \<Rightarrow> bool \<Rightarrow> string list \<Rightarrow> dnf_transaction \<Rightarrow> bool xio" where
  "settle_bootstrap_mode env bootstrap original t =
     (if bootstrap \<and> \<not> transaction_contains_fedora_packages t
      then seqx (restore_tsflags env original) (okx False) else okx bootstrap)"

text \<open>The downloads: \<open>True\<close> when there is no failed package.\<close>

definition download_packages_dnf :: "env \<Rightarrow> dnf \<Rightarrow> dnf_transaction \<Rightarrow> bool xio" where
  "download_packages_dnf env dnf t =
     seqx (dnf_call env ''download'') (lift (query (\<lambda>h. n_failed dnf h (download_requests t) = [])))"

text \<open>
  The call of the transaction. It is the only one that can throw while \<^verbatim>\<open>rpm_overrides_active\<close> is
  set, so the first step of the handler of \<^verbatim>\<open>run_goal\<close> is done here.
\<close>

definition run_rpm :: "env \<Rightarrow> dnf \<Rightarrow> bool \<Rightarrow> bool xio" where
  "run_rpm env dnf bootstrap =
     seqx (whenx bootstrap (enable_bootstrap_rpm_overrides env))
     (seqx (catchx (dnf_call env ''run'')
             (\<lambda>what. seqx (whenx bootstrap (disable_bootstrap_rpm_overrides env)) (throw what)))
     (bindx (lift (query (n_success dnf))) (\<lambda>success.
        seqx (whenx bootstrap (disable_bootstrap_rpm_overrides env)) (okx success))))"

definition transaction_body :: "env \<Rightarrow> dnf \<Rightarrow> bool \<Rightarrow> string list \<Rightarrow> dnf_transaction \<Rightarrow> int xio" where
  "transaction_body env dnf bootstrap original t =
     bindx (download_packages_dnf env dnf t) (\<lambda>complete.
       if \<not> complete then okx 3
       else bindx (run_rpm env dnf bootstrap) (\<lambda>success.
         seqx (whenx bootstrap (restore_tsflags env original))
           (if \<not> success
            then seqx (whenx bootstrap (restore_adavalinux_core_files env))
              (seqx (print_rpm_failure_details env dnf) (okx 3))
            else seqx (whenx bootstrap (finalize_fedora_bootstrap env)) (okx 0))))"

definition transaction_handler :: "env \<Rightarrow> dnf \<Rightarrow> bool \<Rightarrow> string list \<Rightarrow> string \<Rightarrow> int xio" where
  "transaction_handler env dnf bootstrap original what =
     seqx (whenx bootstrap (catchx (restore_tsflags env original) (\<lambda>_. okx ())))
     (seqx (whenx bootstrap (catchx (restore_adavalinux_core_files env) (\<lambda>_. okx ())))
     (seqx (print_rpm_failure_details env dnf) (okx 3)))"

definition run_transaction :: "env \<Rightarrow> dnf \<Rightarrow> bool \<Rightarrow> string list \<Rightarrow> dnf_transaction \<Rightarrow> int xio" where
  "run_transaction env dnf bootstrap original t =
     seqx (whenx bootstrap (seqx (backup_adavalinux_core_files env) (prepare_fedora_usr_merge env)))
       (catchx (transaction_body env dnf bootstrap original t) (transaction_handler env dnf bootstrap original))"

definition finish_goal :: "env \<Rightarrow> dnf \<Rightarrow> bool \<Rightarrow> bool \<Rightarrow> string list \<Rightarrow> dnf_transaction \<Rightarrow> int xio" where
  "finish_goal env dnf assume_yes bootstrap original t =
     (let restore_pre_resolve_flags = whenx bootstrap (restore_tsflags env original) in
      if fatal_resolve_problem (n_flags dnf) (dt_problems t) then seqx restore_pre_resolve_flags (okx 2)
      else if dt_empty t then seqx restore_pre_resolve_flags (okx 0)
      else seqx (print_transaction env t)
        (bindx (lift (confirm_transaction env assume_yes)) (\<lambda>yes.
          if \<not> yes then seqx restore_pre_resolve_flags (okx 0)
          else run_transaction env dnf bootstrap original t)))"

definition run_goal :: "env \<Rightarrow> dnf \<Rightarrow> job list \<Rightarrow> bool \<Rightarrow> bool \<Rightarrow> int xio" where
  "run_goal env dnf jobs assume_yes allow_fedora_bootstrap =
     bindx (lift (query (n_tsflags dnf))) (\<lambda>original.
     bindx (if allow_fedora_bootstrap then fedora_bootstrap_marker_missing env else okx False) (\<lambda>bootstrap.
     seqx (whenx bootstrap (set_bootstrap_tsflags env))
     (bindx (resolve_goal env dnf bootstrap original jobs) (\<lambda>t.
      bindx (settle_bootstrap_mode env bootstrap original t) (\<lambda>bootstrap.
      finish_goal env dnf assume_yes bootstrap original t)))))"

section \<open>Commands\<close>

definition command_install :: "env \<Rightarrow> dnf \<Rightarrow> Options \<Rightarrow> int xio" where
  "command_install env dnf opts =
     (if op_args opts = [] then throw ''install requires at least one package''
      else run_goal env dnf (map (\<lambda>spec. InstallJob spec (selected_repo_ids (op_source opts))) (op_args opts))
        (op_assume_yes opts) True)"

definition command_remove :: "env \<Rightarrow> dnf \<Rightarrow> Options \<Rightarrow> int xio" where
  "command_remove env dnf opts =
     (if op_args opts = [] then throw ''remove requires at least one package''
      else run_goal env dnf (map RemoveJob (op_args opts)) (op_assume_yes opts) False)"

definition command_upgrade :: "env \<Rightarrow> dnf \<Rightarrow> Options \<Rightarrow> int xio" where
  "command_upgrade env dnf opts =
     (let repos = selected_repo_ids (op_source opts) in
      run_goal env dnf
        (if op_args opts = [] then [UpgradeAll repos] else map (\<lambda>spec. UpgradeJob spec repos) (op_args opts))
        (op_assume_yes opts) False)"

definition package_line :: "package_t \<Rightarrow> string" where
  "package_line p =
     COLOR_GREEN @ pk_name p @ COLOR_RESET @ ''.'' @ pk_arch p @ [HT] @ pk_version p @ ''-'' @ pk_release p @ [HT] @
     COLOR_YELLOW @ pk_repo_id p @ COLOR_RESET @ (if pk_summary p = [] then [] else HT # pk_summary p) @ [LF]"

definition search_matches :: "dnf \<Rightarrow> string list \<Rightarrow> package_t \<Rightarrow> bool" where
  "search_matches dnf terms p \<longleftrightarrow>
     list_ex (\<lambda>term. n_icontains dnf (pk_name p) term \<or> n_icontains dnf (pk_summary p) term
       \<or> n_icontains dnf (pk_description p) term) terms"

definition preferred :: "dnf \<Rightarrow> package_t list \<Rightarrow> package_t list" where
  "preferred dnf ps = n_filter_latest_evr dnf (n_filter_priority dnf ps)"

definition command_search :: "env \<Rightarrow> dnf \<Rightarrow> Options \<Rightarrow> int xio" where
  "command_search env dnf opts =
     (if op_args opts = [] then throw ''search requires a term''
      else bindx (lift (query (\<lambda>h. preferred dnf (filter (search_matches dnf (op_args opts)) (n_packages dnf h))))) (\<lambda>found.
        if found = [] then okx 1 else seqx (eachx (\<lambda>p. print_out env (package_line p)) found) (okx 0)))"

definition info_text :: "package_t \<Rightarrow> string" where
  "info_text p =
     COLOR_GREEN @ ''Name:        '' @ COLOR_RESET @ pk_name p @ [LF] @
     COLOR_GREEN @ ''Version:     '' @ COLOR_RESET @ pk_version p @ ''-'' @ pk_release p @ [LF] @
     COLOR_GREEN @ ''Architecture:'' @ COLOR_RESET @ '' '' @ pk_arch p @ [LF] @
     COLOR_GREEN @ ''Repository:  '' @ COLOR_RESET @ COLOR_YELLOW @ pk_repo_id p @ COLOR_RESET @ [LF] @
     ''License:     '' @ pk_license p @ [LF] @ ''Summary:     '' @ pk_summary p @ [LF] @
     ''Description: '' @ pk_description p @ [LF, LF]"

definition command_info :: "env \<Rightarrow> dnf \<Rightarrow> Options \<Rightarrow> int xio" where
  "command_info env dnf opts =
     (if op_args opts = [] then throw ''info requires at least one package''
      else bindx (lift (query (\<lambda>h. concat (map (\<lambda>name.
             preferred dnf (filter (\<lambda>p. pk_name p = name) (n_packages dnf h))) (op_args opts))))) (\<lambda>found.
        seqx (eachx (\<lambda>p. print_out env (info_text p)) found) (okx (if found \<noteq> [] then 0 else 1))))"

definition command_list :: "env \<Rightarrow> dnf \<Rightarrow> Options \<Rightarrow> int xio" where
  "command_list env dnf opts =
     bindx (lift (query (\<lambda>h. preferred dnf
       (if op_args opts \<noteq> [] \<and> hd (op_args opts) = ''installed'' then filter (n_installed dnf) (n_packages dnf h)
        else n_packages dnf h)))) (\<lambda>found.
     seqx (eachx (\<lambda>p. print_out env (package_line p)) found) (okx 0))"

definition repo_line :: "repo \<Rightarrow> string" where
  "repo_line r =
     COLOR_GREEN @ rp_id r @ COLOR_RESET @ [HT] @ (if rp_enabled r then COLOR_GREEN else COLOR_RED) @
     (if rp_enabled r then ''enabled'' else ''disabled'') @ COLOR_RESET @ [HT] @ rp_name r @ [LF]"

definition command_repos :: "env \<Rightarrow> repo list \<Rightarrow> int xio" where
  "command_repos env repos =
     seqx (eachx (\<lambda>r. print_out env (repo_line r)) (filter (\<lambda>r. rp_type r \<noteq> SYSTEM) repos)) (okx 0)"

definition command_clean :: "env \<Rightarrow> dnf \<Rightarrow> int xio" where
  "command_clean env dnf =
     (if n_cachedir dnf = [] then okx 0
      else bindx (lift (succeeds env (RemoveAll (n_cachedir dnf)))) (\<lambda>ok. okx (if ok then 0 else 1)))"

definition dnf_dispatch :: "env \<Rightarrow> dnf \<Rightarrow> Options \<Rightarrow> int xio" where
  "dnf_dispatch env dnf opts =
     (if op_command opts = ''clean'' then
        bindx (prepare_base env dnf (op_source opts) False False) (\<lambda>_. command_clean env dnf)
      else if op_command opts = ''repos'' then
        bindx (prepare_base env dnf (op_source opts) False False) (command_repos env)
      else bindx (prepare_base env dnf (op_source opts) (is_transaction_command (op_command opts)) True) (\<lambda>_.
        if op_command opts = ''install'' then command_install env dnf opts
        else if op_command opts = ''remove'' then command_remove env dnf opts
        else if op_command opts = ''update'' \<or> op_command opts = ''upgrade'' then command_upgrade env dnf opts
        else if op_command opts = ''search'' then command_search env dnf opts
        else if op_command opts = ''info'' then command_info env dnf opts
        else if op_command opts = ''list'' then command_list env dnf opts
        else okx 1))"

definition dnf_main :: "env \<Rightarrow> dnf \<Rightarrow> string list \<Rightarrow> int io" where
  "dnf_main env dnf args =
     (case args of
        [] \<Rightarrow> ret 0
      | first # _ \<Rightarrow>
          if first = ''--help'' \<or> first = ''-h'' then ret 0
          else if first = ''--version'' then do { emit (Append ''/dev/stdout'' (''1.0 (AdavaLinux)'' @ [LF])); ret 0 }
          else
            (case dnf_parse_options args of
               Inl what \<Rightarrow> ret 1
             | Inr opts \<Rightarrow>
                 if is_transaction_command (op_command opts) \<and> e_euid env \<noteq> 0 then ret 1
                 else do {
                   r \<leftarrow> seqx (dnf_call env ''Base'') (dnf_dispatch env dnf opts);
                   ret (case r of Inl what \<Rightarrow> 1 | Inr code \<Rightarrow> code)
                 }))"

section \<open>Lemmas: when RPM is started\<close>

definition never_run :: "event \<Rightarrow> bool" where
  "never_run e \<longleftrightarrow> e \<noteq> Dnf ''run''"

lemma never_run_simps [simp]:
  "dnf_quiet e \<Longrightarrow> never_run e" "never_run (Tsflags fs)" "never_run Prompt" "never_run (Rpm f)"
  "never_run (Dnf name) \<longleftrightarrow> name \<noteq> ''run''"
  by (auto simp: never_run_def)

lemma emits_never_run: "emits dnf_quiet m \<Longrightarrow> emits never_run m"
  by (erule emits_mono) simp

lemma emits_set_option [emits_intros]: "emits never_run (set_option env opt)"
proof -
  have "fst opt @ ''='' @ snd opt \<noteq> ''run''"
  proof
    assume "fst opt @ ''='' @ snd opt = ''run''"
    then have "CHR ''='' \<in> set ''run''" by (metis append_Cons in_set_conv_decomp)
    then show False by simp
  qed
  then show ?thesis unfolding set_option_def by (intro emits_intros) simp
qed

lemma emits_prepare_base [emits_intros]: "emits never_run (prepare_base env dnf source write_lock load)"
  unfolding prepare_base_def load_repositories_def set_repo_options_def lock_name_def Let_def
  by (intro emits_intros emits_never_run [OF emits_check_runtime_layout] | simp)+

lemma emits_prints [emits_intros]:
  "emits dnf_quiet (print_out env line)" "emits dnf_quiet (print_err env line)"
  "emits dnf_quiet (print_transaction env t)" "emits dnf_quiet (print_rpm_failure_details env dnf)"
  unfolding print_transaction_def print_rpm_failure_details_def print_out_def print_err_def
  by (intro emits_intros dnf_quiet_events(1-11))+

lemma emits_tsflags [emits_intros]:
  "P (Tsflags ([] # original)) \<Longrightarrow> emits P (restore_tsflags env original)"
  "P (Tsflags [[], ''noscripts'', ''notriggers'', ''nocontexts'', ''nocaps'', ''nodocs'']) \<Longrightarrow> emits P (set_bootstrap_tsflags env)"
  unfolding restore_tsflags_def set_bootstrap_tsflags_def by (intro emits_intros; assumption)+

lemma emits_overrides [emits_intros]:
  "P PUSH_SYSUSERS \<Longrightarrow> emits P (enable_bootstrap_rpm_overrides env)"
  "P POP_SYSUSERS \<Longrightarrow> emits P (disable_bootstrap_rpm_overrides env)"
  unfolding enable_bootstrap_rpm_overrides_def disable_bootstrap_rpm_overrides_def by (intro emits_intros; assumption)+

text \<open>The conditions for the start of RPM, one for each stage that is passed before it.\<close>

definition downloaded :: "env \<Rightarrow> dnf \<Rightarrow> dnf_transaction \<Rightarrow> history \<Rightarrow> bool" where
  "downloaded env dnf t h \<longleftrightarrow>
     (\<exists>h'. prefix (h' @ [Dnf ''download'']) h \<and> e_call env h' (Dnf ''download'') = None \<and>
        n_failed dnf (h' @ [Dnf ''download'']) (download_requests t) = [])"

definition consent :: "env \<Rightarrow> bool \<Rightarrow> history \<Rightarrow> bool" where
  "consent env assume_yes h \<longleftrightarrow>
     assume_yes \<or> \<not> e_isatty env 0
     \<or> (\<exists>h'. prefix (h' @ [Prompt]) h \<and>
          (case e_stdin env h' of None \<Rightarrow> True | Some l \<Rightarrow> takeWhile (\<lambda>c. c \<noteq> LF) l \<in> set [[], ''y'', ''Y'', ''yes'', ''YES'']))"

definition resolved :: "env \<Rightarrow> dnf \<Rightarrow> job list \<Rightarrow> dnf_transaction \<Rightarrow> history \<Rightarrow> bool" where
  "resolved env dnf jobs t h \<longleftrightarrow>
     (\<exists>h'. prefix h' h \<and> t = n_resolve dnf h' jobs) \<and> \<not> fatal_resolve_problem (n_flags dnf) (dt_problems t) \<and> \<not> dt_empty t"

lemma stages_mono:
  "downloaded env dnf t h \<Longrightarrow> prefix h h' \<Longrightarrow> downloaded env dnf t h'"
  "consent env yes h \<Longrightarrow> prefix h h' \<Longrightarrow> consent env yes h'"
  "resolved env dnf jobs t h \<Longrightarrow> prefix h h' \<Longrightarrow> resolved env dnf jobs t h'"
  unfolding downloaded_def consent_def resolved_def by (blast intro: prefix_order.trans)+

abbreviation run_if :: "(history \<Rightarrow> bool) \<Rightarrow> history \<Rightarrow> event \<Rightarrow> bool" where
  "run_if C h e \<equiv> e = Dnf ''run'' \<longrightarrow> C h"

lemma run_if_never: "emits never_run m \<Longrightarrow> emits_at (run_if C) h m"
  by (erule emits_at_emits) (simp add: never_run_def)

lemma run_if_quiet: "emits dnf_quiet m \<Longrightarrow> emits_at (run_if C) h m"
  by (rule run_if_never) (rule emits_never_run)

lemma run_rpm_at:
  assumes "\<And>h'. prefix h h' \<Longrightarrow> C h'"
  shows "emits_at (run_if C) h (run_rpm env dnf bootstrap)"
proof -
  have pushes: "emits never_run (whenx bootstrap (enable_bootstrap_rpm_overrides env))"
    by (intro emits_intros) simp
  have start: "emits_at (run_if C) h' (dnf_call env ''run'')" if "prefix h h'" for h'
    unfolding dnf_call_def using that assms by (intro emits_at_call) blast
  have rest: "emits never_run (whenx bootstrap (disable_bootstrap_rpm_overrides env))"
    by (intro emits_intros) simp
  show ?thesis
    unfolding run_rpm_def
    by (intro emits_at_seqx emits_at_catchx emits_at_bindx run_if_never [OF pushes] run_if_never [OF rest] start
        emits_at_throw emits_at_okx emits_at_lift emits_at_query emits_extends [OF pushes])
qed

lemma transaction_body_at: "emits_at (run_if (downloaded env dnf t)) h (transaction_body env dnf bootstrap original t)"
proof -
  have ended: "emits never_run (seqx (whenx bootstrap (restore_tsflags env original))
      (if \<not> success
       then seqx (whenx bootstrap (restore_adavalinux_core_files env)) (seqx (print_rpm_failure_details env dnf) (okx 3))
       else seqx (whenx bootstrap (finalize_fedora_bootstrap env)) (okx 0)))" for success
    by (intro emits_intros emits_never_run [OF emits_identity_quiet(2)] emits_never_run [OF emits_finalize_quiet]
        emits_never_run [OF emits_prints(4)]) simp_all
  have started: "emits_at (run_if (downloaded env dnf t)) (after (download_packages_dnf env dnf t) h) (run_rpm env dnf bootstrap)"
    if "result (download_packages_dnf env dnf t) h = Inr True"
  proof (rule run_rpm_at)
    fix h'
    assume "prefix (after (download_packages_dnf env dnf t) h) h'"
    with that show "downloaded env dnf t h'"
      by (auto simp: download_packages_dnf_def downloaded_def seqx_Inr simp del: result_x(4) after_x(4))
  qed
  have loads: "emits never_run (download_packages_dnf env dnf t)"
    unfolding download_packages_dnf_def by (intro emits_intros) simp
  show ?thesis
    unfolding transaction_body_def
    by (intro emits_at_bindx run_if_never [OF loads]) (auto intro!: emits_at_okx emits_at_bindx started run_if_never [OF ended])
qed

lemma run_transaction_at: "emits_at (run_if (downloaded env dnf t)) h (run_transaction env dnf bootstrap original t)"
proof -
  have prepares: "emits dnf_quiet (whenx bootstrap (seqx (backup_adavalinux_core_files env) (prepare_fedora_usr_merge env)))"
    by (intro emits_intros)
  have handles: "emits never_run (transaction_handler env dnf bootstrap original what)" for what
    unfolding transaction_handler_def
    by (intro emits_intros emits_never_run [OF emits_identity_quiet(2)] emits_never_run [OF emits_prints(4)]) simp_all
  show ?thesis
    unfolding run_transaction_def
    by (intro emits_at_seqx emits_at_catchx run_if_quiet [OF prepares] run_if_never [OF handles] transaction_body_at)
qed

lemma confirm_consent:
  "result (confirm_transaction env yes) h = True \<Longrightarrow> consent env yes (after (confirm_transaction env yes) h)"
  unfolding confirm_transaction_def consent_def by (auto simp: Let_def split: if_splits option.splits)

lemma emits_confirm [emits_intros]: "P Prompt \<Longrightarrow> emits P (confirm_transaction env yes)"
  unfolding confirm_transaction_def Let_def by (intro emits_intros; assumption)

abbreviation started_properly :: "env \<Rightarrow> dnf \<Rightarrow> bool \<Rightarrow> job list \<Rightarrow> history \<Rightarrow> bool" where
  "started_properly env dnf yes jobs h \<equiv>
     consent env yes h \<and> (\<exists>t. resolved env dnf jobs t h \<and> downloaded env dnf t h)"

lemma finish_goal_at:
  assumes "prefix h' h" and "t = n_resolve dnf h' jobs"
  shows "emits_at (run_if (started_properly env dnf yes jobs)) h (finish_goal env dnf yes bootstrap original t)"
proof -
  have restores: "emits never_run (seqx (whenx bootstrap (restore_tsflags env original)) (okx code))" for code :: int
    by (intro emits_intros) simp
  have prints: "emits dnf_quiet (print_transaction env t)" by (rule emits_prints)
  have asks: "emits never_run (lift (confirm_transaction env yes))" by (intro emits_intros) simp
  let ?h = "after (print_transaction env t) h"
  have run: "emits_at (run_if (started_properly env dnf yes jobs)) (after (lift (confirm_transaction env yes)) ?h)
      (run_transaction env dnf bootstrap original t)"
    if "resolved env dnf jobs t h" and "result (lift (confirm_transaction env yes)) ?h = Inr True"
  proof (rule emits_at_mono [OF run_transaction_at])
    let ?h' = "after (lift (confirm_transaction env yes)) ?h"
    fix h'' e
    assume "prefix ?h' h''" and "run_if (downloaded env dnf t) h'' e"
    moreover have "consent env yes ?h'" using confirm_consent that(2) by simp
    moreover have "resolved env dnf jobs t ?h'"
      using that(1) emits_extends [OF prints, of h] emits_extends [OF asks, of ?h] by (blast intro: stages_mono(3) prefix_order.trans)
    ultimately show "run_if (started_properly env dnf yes jobs) h'' e" by (blast intro: stages_mono)
  qed
  have "resolved env dnf jobs t h" if "\<not> fatal_resolve_problem (n_flags dnf) (dt_problems t)" "\<not> dt_empty t"
    using that assms by (auto simp: resolved_def)
  then show ?thesis
    unfolding finish_goal_def Let_def
    by (auto intro!: run_if_never [OF restores] emits_at_seqx [OF run_if_quiet [OF prints]] emits_at_bindx
        run_if_never [OF asks] run simp del: result_x after_x)
qed

lemma run_goal_at: "emits_at (run_if (started_properly env dnf yes jobs)) h (run_goal env dnf jobs yes allow)"
proof -
  have marker: "emits never_run (if allow then fedora_bootstrap_marker_missing env else okx False)"
    unfolding fedora_bootstrap_marker_missing_def by (intro emits_intros)
  have sets: "emits never_run (whenx bootstrap (set_bootstrap_tsflags env))" for bootstrap
    by (intro emits_intros) simp
  have resolves: "emits never_run (resolve_goal env dnf bootstrap original jobs)" for bootstrap original
    unfolding resolve_goal_def by (intro emits_intros) simp_all
  have settles: "emits never_run (settle_bootstrap_mode env bootstrap original t)" for bootstrap original t
    unfolding settle_bootstrap_mode_def by (intro emits_intros) simp
  have yields: "t = n_resolve dnf (after (resolve_goal env dnf bootstrap original jobs) h') jobs"
    if "result (resolve_goal env dnf bootstrap original jobs) h' = Inr t" for bootstrap original t h'
    using that by (auto simp: resolve_goal_def bindx_Inr simp del: result_x(3,4) after_x(3,4) split: sum.splits)
  show ?thesis
    unfolding run_goal_def
    by (intro emits_at_bindx emits_at_seqx emits_at_lift emits_at_query run_if_never [OF marker] run_if_never [OF sets]
        run_if_never [OF resolves] run_if_never [OF settles] finish_goal_at [OF emits_extends [OF settles] yields])
qed

text \<open>The goal of a command with its options.\<close>

definition jobs_of :: "Options \<Rightarrow> job list" where
  "jobs_of opts =
     (let repos = selected_repo_ids (op_source opts) in
      if op_command opts = ''install'' then map (\<lambda>spec. InstallJob spec repos) (op_args opts)
      else if op_command opts = ''remove'' then map RemoveJob (op_args opts)
      else if op_args opts = [] then [UpgradeAll repos] else map (\<lambda>spec. UpgradeJob spec repos) (op_args opts))"

lemma emits_read_commands [emits_intros]:
  "emits dnf_quiet (command_search env dnf opts)" "emits dnf_quiet (command_info env dnf opts)"
  "emits dnf_quiet (command_list env dnf opts)" "emits dnf_quiet (command_repos env repos)" "emits dnf_quiet (command_clean env dnf)"
  unfolding command_search_def command_info_def command_list_def command_repos_def command_clean_def
  by (intro emits_intros dnf_quiet_events(1-11))+

lemma dispatch_at:
  "emits_at (run_if (\<lambda>h. is_transaction_command (op_command opts) \<and>
      started_properly env dnf (op_assume_yes opts) (jobs_of opts) h)) h (dnf_dispatch env dnf opts)"
  (is "emits_at ?P h _")
proof -
  define P where "P = ?P"
  have readers: "emits_at P h' (command_search env dnf opts)" "emits_at P h' (command_info env dnf opts)"
    "emits_at P h' (command_list env dnf opts)" "emits_at P h' (command_repos env repos)" "emits_at P h' (command_clean env dnf)"
    for h' repos
    unfolding P_def by (intro run_if_quiet emits_read_commands)+
  have prepares: "emits_at P h (prepare_base env dnf source write_lock load)" for source write_lock load
    unfolding P_def by (rule run_if_never [OF emits_prepare_base])
  have installs: "emits_at P h' (command_install env dnf opts)" if "op_command opts = ''install''" for h'
    unfolding P_def command_install_def using that
    by (auto intro!: emits_at_throw emits_at_mono [OF run_goal_at] simp: jobs_of_def is_transaction_command_def Let_def)
  have removes: "emits_at P h' (command_remove env dnf opts)" if "op_command opts = ''remove''" for h'
    unfolding P_def command_remove_def using that
    by (auto intro!: emits_at_throw emits_at_mono [OF run_goal_at] simp: jobs_of_def is_transaction_command_def)
  have upgrades: "emits_at P h' (command_upgrade env dnf opts)" if "op_command opts = ''update'' \<or> op_command opts = ''upgrade''" for h'
    unfolding P_def command_upgrade_def using that
    by (auto intro!: emits_at_mono [OF run_goal_at] simp: jobs_of_def is_transaction_command_def Let_def)
  have "emits_at P h (dnf_dispatch env dnf opts)"
    unfolding dnf_dispatch_def
    by (auto intro!: emits_at_bindx prepares installs removes upgrades emits_at_okx readers)
  then show ?thesis by (simp only: P_def)
qed

definition rpm_run_ok :: "env \<Rightarrow> dnf \<Rightarrow> string list \<Rightarrow> history \<Rightarrow> event \<Rightarrow> bool" where
  "rpm_run_ok env dnf args h e \<longleftrightarrow>
     (e = Dnf ''run'' \<longrightarrow>
       (\<exists>opts t. dnf_parse_options args = Inr opts \<and> is_transaction_command (op_command opts) \<and> e_euid env = 0 \<and>
          consent env (op_assume_yes opts) h \<and> resolved env dnf (jobs_of opts) t h \<and> downloaded env dnf t h))"

section \<open>Starting RPM\<close>

text \<open>
  C4. Whatever the arguments and whatever the system and the library do, the program starts an RPM
  transaction only as root, for a command line with a command that changes packages, for the
  transaction that the library resolved for exactly the requests of that command line, when that is
  not empty and has none of the fatal problems, after consent, and after all its packages have been
  downloaded. Consent is the option, an accepted answer, or an input that is not a terminal.
\<close>

theorem rpm_transaction_guarded: "emits_at (rpm_run_ok env dnf args) h (dnf_main env dnf args)"
proof (cases "\<exists>first rest opts. args = first # rest \<and> first \<notin> {''--help'', ''-h'', ''--version''} \<and>
    dnf_parse_options args = Inr opts \<and> \<not> (is_transaction_command (op_command opts) \<and> e_euid env \<noteq> 0)")
  case True
  then obtain first rest opts where args: "args = first # rest" "first \<notin> {''--help'', ''-h'', ''--version''}"
    and parsed: "dnf_parse_options args = Inr opts" and root: "\<not> (is_transaction_command (op_command opts) \<and> e_euid env \<noteq> 0)"
    by blast
  have "emits_at (rpm_run_ok env dnf args) h' (dnf_dispatch env dnf opts)" for h'
    by (rule emits_at_mono [OF dispatch_at]) (use parsed root in \<open>auto simp: rpm_run_ok_def\<close>)
  moreover have "emits_at (rpm_run_ok env dnf args) h (dnf_call env ''Base'')"
    unfolding dnf_call_def by (rule emits_at_call) (simp add: rpm_run_ok_def)
  ultimately have "emits_at (rpm_run_ok env dnf args) h (seqx (dnf_call env ''Base'') (dnf_dispatch env dnf opts))"
    by (intro emits_at_seqx)
  with args parsed root show ?thesis unfolding dnf_main_def by (auto intro: emits_at_bind emits_at_ret simp del: after_x result_x)
next
  case False
  then have "dnf_main env dnf args \<in> {ret 0, ret 1, do { emit (Append ''/dev/stdout'' (''1.0 (AdavaLinux)'' @ [LF])); ret 0 }}"
    unfolding dnf_main_def by (auto split: list.splits sum.splits)
  moreover have "emits_at (rpm_run_ok env dnf args) h (do { emit (Append ''/dev/stdout'' (''1.0 (AdavaLinux)'' @ [LF])); ret 0 })"
    by (rule run_if_never [where C = "\<lambda>h. False", THEN emits_at_mono]) (intro emits_intros, simp, simp add: rpm_run_ok_def)
  ultimately show ?thesis by (auto simp: emits_at_ret)
qed

section \<open>Lemmas: what is put back\<close>

text \<open>In a list of events, the identity file \<open>f\<close> is written from its backup after every run of RPM.\<close>

definition restored :: "string \<Rightarrow> event list \<Rightarrow> bool" where
  "restored f u \<longleftrightarrow> (\<forall>a b. u = a @ Dnf ''run'' # b \<longrightarrow> CopyFile (backup_of f) f \<in> set b)"

lemma restored_never: "list_all never_run u \<Longrightarrow> restored f u"
  by (auto simp: restored_def never_run_def)

lemma restored_by:
  assumes "CopyFile (backup_of f) f \<in> set v" and "list_all never_run v" and "list_all never_run w"
  shows "restored f (u @ v @ w)"
  unfolding restored_def
proof (intro allI impI)
  fix a b
  assume eq: "u @ v @ w = a @ Dnf ''run'' # b"
  have "Dnf ''run'' \<notin> set (v @ w)" using assms(2,3) by (auto simp: list_all_iff never_run_def)
  then have no: "v @ w \<noteq> us @ Dnf ''run'' # b" for us by (metis in_set_conv_decomp)
  from eq obtain us where "us @ v @ w = Dnf ''run'' # b" using no by (auto simp: append_eq_append_conv2)
  with no [of "[]"] assms(1) show "CopyFile (backup_of f) f \<in> set b" by (cases us) auto
qed

text \<open>A computation that writes the file from its backup and does not run RPM.\<close>

definition restoring :: "string \<Rightarrow> history \<Rightarrow> 'a io \<Rightarrow> bool" where
  "restoring f h m \<longleftrightarrow> (\<exists>x. after m h = h @ x \<and> list_all never_run x \<and> CopyFile (backup_of f) f \<in> set x)"

lemma restoring_core:
  assumes "backups_readable env" and "f \<in> set adavalinux_core_files" and "\<And>h. \<exists>st. e_stat env h (backup_of f) = Inr st"
  shows "restoring f h (restore_adavalinux_core_files env)"
proof -
  obtain x where x: "after (restore_adavalinux_core_files env) h = h @ x" "list_all never_run x"
    using emits_after [OF emits_never_run [OF emits_identity_quiet(2)]] by blast
  with restore_copies [OF assms, of h] show ?thesis by (auto simp: restoring_def)
qed

lemma restoring_later:
  assumes "emits never_run m" and "result m h = Inr ()" and "restoring f (after m h) k"
  shows "restoring f h (seqx m k)"
  using emits_after [OF assms(1), of h] assms(2,3) by (auto simp: restoring_def)

lemma restoring_first:
  assumes "restoring f h m" and "emits never_run k"
  shows "restoring f h (seqx m k)"
proof (cases "result m h")
  case (Inr x)
  with assms(1) emits_after [OF assms(2), of "after m h"] show ?thesis by (auto simp: restoring_def)
qed (use assms(1) in \<open>simp add: restoring_def\<close>)

lemma restoring_catchx:
  "restoring f h m \<Longrightarrow> (\<And>what. emits never_run (g what)) \<Longrightarrow> restoring f h (catchx m g)"
  "emits never_run m \<Longrightarrow> result m h = Inl what \<Longrightarrow> restoring f (after m h) (g what) \<Longrightarrow> restoring f h (catchx m g)"
proof -
  show "restoring f h (catchx m g)" if "restoring f h m" "\<And>what. emits never_run (g what)"
  proof (cases "result m h")
    case (Inl what)
    with that(1) emits_after [OF that(2) [of what], of "after m h"] show ?thesis by (auto simp: restoring_def)
  qed (use that(1) in \<open>simp add: restoring_def\<close>)
  show "restoring f h (catchx m g)" if "emits never_run m" "result m h = Inl what" "restoring f (after m h) (g what)"
    using emits_after [OF that(1), of h] that(2,3) by (auto simp: restoring_def)
qed

lemma emits_details_never [emits_intros]: "emits never_run (print_rpm_failure_details env dnf)"
  and emits_finalize_never [emits_intros]: "emits never_run (finalize_fedora_bootstrap env)"
  and emits_restore_never [emits_intros]: "emits never_run (restore_adavalinux_core_files env)"
  by (intro emits_never_run emits_intros)+

lemma emits_handler_never [emits_intros]: "emits never_run (transaction_handler env dnf bootstrap original what)"
  unfolding transaction_handler_def by (intro emits_intros) simp_all

text \<open>
  The end of a transaction in the first mode: what follows the call of RPM, whether it returns or
  throws.
\<close>

definition ending :: "env \<Rightarrow> dnf \<Rightarrow> string list \<Rightarrow> bool \<Rightarrow> int xio" where
  "ending env dnf original success =
     seqx (restore_tsflags env original)
       (if \<not> success
        then seqx (restore_adavalinux_core_files env) (seqx (print_rpm_failure_details env dnf) (okx 3))
        else seqx (finalize_fedora_bootstrap env) (okx 0))"

definition aftermath :: "env \<Rightarrow> dnf \<Rightarrow> string list \<Rightarrow> string + bool \<Rightarrow> int xio" where
  "aftermath env dnf original r =
     catchx (case r of Inl what \<Rightarrow> throw what | Inr success \<Rightarrow> ending env dnf original success)
       (transaction_handler env dnf True original)"

definition backed_up :: "env \<Rightarrow> string \<Rightarrow> bool" where
  "backed_up env f \<longleftrightarrow> backups_readable env \<and> f \<in> set adavalinux_core_files \<and> (\<forall>h. \<exists>st. e_stat env h (backup_of f) = Inr st)"

lemma restoring_handler:
  assumes "backed_up env f"
  shows "restoring f h (transaction_handler env dnf True original what)"
  unfolding transaction_handler_def whenx_simps
proof (rule restoring_later)
  show "emits never_run (catchx (restore_tsflags env original) (\<lambda>_. okx ()))" by (intro emits_intros) simp
  show "result (catchx (restore_tsflags env original) (\<lambda>_. okx ())) h = Inr ()" by (simp split: sum.split)
  show "restoring f h' (seqx (catchx (restore_adavalinux_core_files env) (\<lambda>_. okx ()))
      (seqx (print_rpm_failure_details env dnf) (okx 3)))" for h'
    using assms by (intro restoring_first restoring_catchx(1) restoring_core emits_intros) (auto simp: backed_up_def)
qed

lemma restoring_finalize:
  assumes "backed_up env f"
  shows "restoring f h (finalize_fedora_bootstrap env)"
proof -
  have "emits never_run (seqx (activate_fedora_runtime env) (seqx (check_private_ca_bundle env) (seqx (refresh_ca_bundle env)
      (seqx (call_or_throw env (CreateDirs ''/var/lib/syspckg'') ''Unable to create /var/lib/syspckg: '')
      (seqx (rebuild_linker_cache env) (seqx (rebuild_gconv_cache env) (write_bootstrap_marker env)))))))"
    by (rule emits_never_run) (intro emits_intros dnf_quiet_events(1-11))
  then show ?thesis
    unfolding finalize_fedora_bootstrap_def
    by (rule restoring_first [rotated]) (use assms in \<open>auto simp: backed_up_def intro: restoring_core\<close>)
qed

lemma restoring_aftermath:
  assumes "backed_up env f"
  shows "restoring f h (aftermath env dnf original r)"
proof (cases r)
  case (Inl what)
  then show ?thesis
    unfolding aftermath_def by (auto intro: restoring_catchx(2) restoring_handler [OF assms] emits_x)
next
  case (Inr success)
  have flags: "emits never_run (restore_tsflags env original)" by (intro emits_intros) simp
  have parts: "emits never_run (ending env dnf original success)"
    unfolding ending_def by (intro emits_intros) simp_all
  show ?thesis
  proof (cases "result (restore_tsflags env original) h")
    case (Inl what)
    then have "result (ending env dnf original success) h = Inl what" by (simp add: ending_def)
    with Inr show ?thesis
      unfolding aftermath_def by (auto intro: restoring_catchx(2) restoring_handler [OF assms] parts)
  next
    case (Inr u)
    have core: "restoring f h' (restore_adavalinux_core_files env)" for h'
      using assms by (intro restoring_core) (auto simp: backed_up_def)
    from Inr have "restoring f h (ending env dnf original success)"
      unfolding ending_def
      by (intro restoring_later flags) (auto intro!: restoring_first core restoring_finalize [OF assms] emits_intros)
    then show ?thesis
      unfolding aftermath_def \<open>r = Inr success\<close> by (auto intro!: restoring_catchx(1) emits_intros)
  qed
qed

lemma transaction_restored:
  assumes "backed_up env f"
  shows "\<exists>u. after (catchx (transaction_body env dnf True original t) (transaction_handler env dnf True original)) h = h @ u
    \<and> restored f u"
proof -
  let ?d = "download_packages_dnf env dnf t"
  let ?all = "catchx (transaction_body env dnf True original t) (transaction_handler env dnf True original)"
  have loads: "emits never_run ?d" unfolding download_packages_dnf_def by (intro emits_intros) simp
  show ?thesis
  proof (cases "result ?d h = Inr True")
    case True
    have "after ?all h = after (aftermath env dnf original (result (run_rpm env dnf True) (after ?d h)))
        (after (run_rpm env dnf True) (after ?d h))"
      using True unfolding transaction_body_def aftermath_def ending_def by (simp split: sum.split)
    moreover obtain x where "after (aftermath env dnf original (result (run_rpm env dnf True) (after ?d h)))
        (after (run_rpm env dnf True) (after ?d h)) = after (run_rpm env dnf True) (after ?d h) @ x"
      "list_all never_run x" "CopyFile (backup_of f) f \<in> set x"
      using restoring_aftermath [OF assms] unfolding restoring_def by blast
    moreover obtain y where "after (run_rpm env dnf True) (after ?d h) = h @ y"
      using emits_at_prefix [OF run_rpm_at [of "after ?d h" "\<lambda>h. True"]] emits_extends [OF loads, of h]
      by (metis prefix_def prefix_order.trans)
    ultimately show ?thesis using restored_by [of f x "[]" y] by (intro exI [of _ "y @ x"]) simp
  next
    case False
    have "emits never_run (catchx (bindx ?d (\<lambda>complete. okx 3)) (transaction_handler env dnf True original))"
      by (intro emits_intros loads)
    from emits_after [OF this, of h] obtain u where "after (catchx (bindx ?d (\<lambda>complete. okx 3))
        (transaction_handler env dnf True original)) h = h @ u" "list_all never_run u" by blast
    moreover have "after ?all h = after (catchx (bindx ?d (\<lambda>complete. okx 3)) (transaction_handler env dnf True original)) h"
      using False unfolding transaction_body_def by (auto split: sum.split)
    ultimately show ?thesis using restored_never by auto
  qed
qed

section \<open>After RPM\<close>


text \<open>A system with the merged layout on which the certificates have gone after the run.\<close>

definition linked_env :: env where
  "linked_env = (listing_env []) \<lparr>
     e_stat := \<lambda>h p. Inr \<lparr>st_kind = S_REG, st_mode = 420\<rparr>,
     e_lstat := \<lambda>h p. Inr \<lparr>st_kind = S_LNK, st_mode = 511\<rparr>,
     e_readlink := \<lambda>h p. Some (''usr'' @ p)\<rparr>"

abbreviation sample_run :: history where
  "sample_run \<equiv> after (run_transaction linked_env sample_dnf True [''nodocs''] (n_resolve sample_dnf [] [])) []"


section \<open>Lemmas: macros and flags\<close>

text \<open>How deep the macro for system users is overridden: by how much a list of events changes that.\<close>

fun macro_depth :: "env \<Rightarrow> history \<Rightarrow> event list \<Rightarrow> int" where
  "macro_depth env h [] = 0"
| "macro_depth env h (e # es) =
     (if e = PUSH_SYSUSERS \<and> e_call env h e = None then 1 else if e = POP_SYSUSERS then - 1 else 0) + macro_depth env (h @ [e]) es"

definition balanced :: "env \<Rightarrow> history \<Rightarrow> 'a io \<Rightarrow> bool" where
  "balanced env h m \<longleftrightarrow> (\<exists>u. after m h = h @ u \<and> macro_depth env h u = 0)"

lemma macro_depth_append: "macro_depth env h (u @ v) = macro_depth env h u + macro_depth env (h @ u) v"
  by (induction u arbitrary: h) simp_all

lemma balanced_bind:
  "balanced env h m \<Longrightarrow> balanced env (after m h) (f (result m h)) \<Longrightarrow> balanced env h (State_Monad.bind m f)"
  unfolding balanced_def by (auto simp: macro_depth_append)

lemma balanced_ret: "balanced env h (ret x)" "balanced env h (query f)" "balanced env h (throw what)" "balanced env h (okx x)"
  by (simp_all add: balanced_def)

lemma balanced_bindx:
  assumes "balanced env h m" and "\<And>x. result m h = Inr x \<Longrightarrow> balanced env (after m h) (f x)"
  shows "balanced env h (bindx m f)"
  unfolding bindx_def using assms by (auto intro!: balanced_bind simp: balanced_ret split: sum.split)

lemma balanced_seqx:
  "balanced env h m \<Longrightarrow> (result m h = Inr () \<Longrightarrow> balanced env (after m h) k) \<Longrightarrow> balanced env h (seqx m k)"
  unfolding seqx_def by (auto intro!: balanced_bindx)

lemma balanced_catchx:
  assumes "balanced env h m" and "\<And>what. result m h = Inl what \<Longrightarrow> balanced env (after m h) (f what)"
  shows "balanced env h (catchx m f)"
  unfolding catchx_def using assms by (auto intro!: balanced_bind simp: balanced_ret split: sum.split)

definition no_macro :: "event \<Rightarrow> bool" where
  "no_macro e \<longleftrightarrow> e \<noteq> PUSH_SYSUSERS \<and> e \<noteq> POP_SYSUSERS"

lemma no_macro_simps [simp]:
  "dnf_quiet e \<Longrightarrow> no_macro e" "no_macro (Dnf name)" "no_macro (Tsflags fs)" "no_macro Prompt"
  by (auto simp: no_macro_def dnf_quiet_def)

lemma macro_depth_none: "list_all no_macro u \<Longrightarrow> macro_depth env h u = 0"
  by (induction u arbitrary: h) (auto simp: no_macro_def)

lemma balanced_emits: "emits no_macro m \<Longrightarrow> balanced env h m"
  using emits_after [of no_macro m h] by (auto simp: balanced_def macro_depth_none)

lemma balanced_quiet: "emits dnf_quiet m \<Longrightarrow> balanced env h m"
  by (rule balanced_emits, erule emits_mono) simp

lemma run_rpm_balanced: "balanced env h (run_rpm env dnf bootstrap)"
proof (cases bootstrap)
  case True
  show ?thesis
    unfolding balanced_def run_rpm_def enable_bootstrap_rpm_overrides_def disable_bootstrap_rpm_overrides_def require_def succeeds_def
    by (auto simp: True dnf_call_def result_call)
next
  case False
  then show ?thesis
    unfolding run_rpm_def by (intro balanced_emits) (simp, intro emits_intros, simp)
qed

lemma run_transaction_balanced: "balanced env h (run_transaction env dnf bootstrap original t)"
proof -
  have prepares: "emits dnf_quiet (whenx bootstrap (seqx (backup_adavalinux_core_files env) (prepare_fedora_usr_merge env)))"
    by (intro emits_intros)
  have loads: "emits no_macro (download_packages_dnf env dnf t)"
    unfolding download_packages_dnf_def by (intro emits_intros) simp
  have flags: "emits no_macro (restore_tsflags env original)" by (intro emits_intros) simp
  have ends: "emits dnf_quiet (whenx bootstrap (restore_adavalinux_core_files env))"
    "emits dnf_quiet (whenx bootstrap (finalize_fedora_bootstrap env))" "emits dnf_quiet (print_rpm_failure_details env dnf)"
    "emits dnf_quiet (whenx bootstrap (catchx (restore_adavalinux_core_files env) (\<lambda>_. okx ())))"
    by (intro emits_intros)+
  have "balanced env h' (transaction_body env dnf bootstrap original t)" for h'
    unfolding transaction_body_def
    by (intro balanced_bindx balanced_emits [OF loads])
      (auto intro!: balanced_bindx balanced_seqx balanced_ret run_rpm_balanced balanced_quiet [OF ends(1)] balanced_quiet [OF ends(2)]
        balanced_quiet [OF ends(3)] balanced_emits [OF emits_x(9)] flags)
  moreover have "balanced env h' (transaction_handler env dnf bootstrap original what)" for h' what
    unfolding transaction_handler_def
    by (intro balanced_seqx balanced_ret balanced_quiet [OF ends(3)] balanced_quiet [OF ends(4)]
        balanced_emits [OF emits_x(9)] emits_x(5) flags emits_x(2))
  ultimately show ?thesis
    unfolding run_transaction_def by (intro balanced_seqx balanced_catchx balanced_quiet [OF prepares])
qed

text \<open>
  C25. The override of the RPM macro for system users is confined to the transaction: on every way out
  of \<^verbatim>\<open>run_goal\<close>, with a result or with an exception, it has been removed as often as it was pushed.
\<close>

theorem overrides_balanced:
  "\<exists>u. after (run_goal env dnf jobs yes allow) h = h @ u \<and> macro_depth env h u = 0"
proof -
  have marker: "emits dnf_quiet (if allow then fedora_bootstrap_marker_missing env else okx False)"
    unfolding fedora_bootstrap_marker_missing_def by (intro emits_intros)
  have before: "emits no_macro (whenx bootstrap (set_bootstrap_tsflags env))"
    "emits no_macro (resolve_goal env dnf bootstrap original jobs)"
    "emits no_macro (settle_bootstrap_mode env bootstrap original t)"
    "emits no_macro (seqx (whenx bootstrap (restore_tsflags env original)) (okx code))"
    "emits no_macro (lift (confirm_transaction env yes))"
    for bootstrap original t and code :: int
    unfolding resolve_goal_def settle_bootstrap_mode_def by (intro emits_intros; simp)+
  have "balanced env h' (finish_goal env dnf yes bootstrap original t)" for h' bootstrap original t
    unfolding finish_goal_def Let_def
    by (auto intro!: balanced_emits [OF before(4)] balanced_emits [OF before(5)] balanced_seqx balanced_bindx
        balanced_quiet [OF emits_prints(3)] run_transaction_balanced simp del: result_x after_x)
  then have "balanced env h (run_goal env dnf jobs yes allow)"
    unfolding run_goal_def
    by (intro balanced_bindx balanced_seqx balanced_quiet [OF marker] balanced_emits [OF before(1)] balanced_emits [OF before(2)]
        balanced_emits [OF before(3)] balanced_quiet [OF emits_x(6)] emits_query)
  then show ?thesis by (simp only: balanced_def)
qed

text \<open>The transaction flags as they were set last.\<close>

definition flags_now :: "history \<Rightarrow> event option" where
  "flags_now h = (case filter (\<lambda>e. e \<in> range Tsflags) (rev h) of [] \<Rightarrow> None | e # _ \<Rightarrow> Some e)"

definition no_flags :: "event \<Rightarrow> bool" where
  "no_flags e \<longleftrightarrow> e \<notin> range Tsflags"

lemma no_flags_simps [simp]:
  "dnf_quiet e \<Longrightarrow> no_flags e" "no_flags (Dnf name)" "no_flags (Rpm f)" "no_flags Prompt"
  by (auto simp: no_flags_def dnf_quiet_def)

lemma flags_now_simps [simp]: "flags_now (h @ [Tsflags fs]) = Some (Tsflags fs)" "flags_now (h @ [Dnf name]) = flags_now h"
  by (auto simp: flags_now_def)

lemma flags_now_emits:
  assumes "emits no_flags m"
  shows "flags_now (after m h) = flags_now h"
proof -
  obtain u where u: "after m h = h @ u" "list_all no_flags u" using emits_after [OF assms] by blast
  have "filter (\<lambda>e. e \<in> range Tsflags) (rev u) = []"
    using u(2) by (auto simp: filter_empty_conv list_all_iff no_flags_def)
  then show ?thesis by (simp add: flags_now_def u(1))
qed

lemma flags_now_quiet: "emits dnf_quiet m \<Longrightarrow> flags_now (after m h) = flags_now h"
  by (rule flags_now_emits, erule emits_mono) simp

lemma flags_now_restore: "flags_now (after (restore_tsflags env original) h) = Some (Tsflags ([] # original))"
  by (simp add: restore_tsflags_def)

lemma flags_now_seqx: "flags_now (after m h) = F \<Longrightarrow> emits dnf_quiet k \<Longrightarrow> flags_now (after (seqx m k) h) = F"
  by (simp add: flags_now_quiet split: sum.split)

lemma handler_flags:
  "flags_now (after (transaction_handler env dnf True original what) h) = Some (Tsflags ([] # original))"
proof -
  have "flags_now (after (catchx (restore_tsflags env original) (\<lambda>_. okx ())) h) = Some (Tsflags ([] # original))"
    by (simp add: flags_now_restore split: sum.split)
  then show ?thesis
    unfolding transaction_handler_def whenx_simps by (rule flags_now_seqx) (intro emits_intros)
qed

abbreviation attempt :: "env \<Rightarrow> dnf \<Rightarrow> string list \<Rightarrow> dnf_transaction \<Rightarrow> int xio" where
  "attempt env dnf original t \<equiv>
     catchx (transaction_body env dnf True original t) (transaction_handler env dnf True original)"

lemma transaction_flags:
  assumes "result (attempt env dnf original t) h = Inr code"
  shows "flags_now (after (attempt env dnf original t) h) = Some (Tsflags ([] # original))
    \<or> code = 3 \<and> after (attempt env dnf original t) h = h @ [Dnf ''download''] \<and> n_failed dnf (h @ [Dnf ''download'']) (download_requests t) \<noteq> []"
proof (cases "result (transaction_body env dnf True original t) h")
  case (Inl what)
  then show ?thesis by (simp add: handler_flags)
next
  case (Inr c)
  let ?d = "download_packages_dnf env dnf t"
  from Inr obtain complete where d: "result ?d h = Inr complete"
    unfolding transaction_body_def by (auto simp: bindx_Inr simp del: result_x(3,4))
  show ?thesis
  proof (cases complete)
    case False
    with d Inr assms show ?thesis by (auto simp: transaction_body_def download_packages_dnf_def split: sum.splits)
  next
    case True
    let ?h = "after ?d h"
    from d Inr True obtain success where r: "result (run_rpm env dnf True) ?h = Inr success"
      unfolding transaction_body_def by (auto simp: bindx_Inr simp del: result_x(3,4))
    have "after (attempt env dnf original t) h = after (ending env dnf original success) (after (run_rpm env dnf True) ?h)"
      using d True r by (simp add: Inr) (simp add: transaction_body_def ending_def split: sum.split)
    moreover have "flags_now (after (ending env dnf original success) h') = Some (Tsflags ([] # original))" for h'
    proof -
      let ?k = "if \<not> success then seqx (restore_adavalinux_core_files env) (seqx (print_rpm_failure_details env dnf) (okx (3 :: int)))
        else seqx (finalize_fedora_bootstrap env) (okx 0)"
      have "emits dnf_quiet ?k" by (intro emits_intros)
      then show ?thesis unfolding ending_def by (intro flags_now_seqx flags_now_restore)
    qed
    ultimately show ?thesis by simp
  qed
qed

lemma run_transaction_flags:
  assumes "result (run_transaction env dnf True original t) h = Inr code"
  shows "flags_now (after (run_transaction env dnf True original t) h) = Some (Tsflags ([] # original))
    \<or> code = 3 \<and> flags_now (after (run_transaction env dnf True original t) h) = flags_now h \<and>
      (\<exists>h'. after (run_transaction env dnf True original t) h = h' @ [Dnf ''download''] \<and>
        n_failed dnf (h' @ [Dnf ''download'']) (download_requests t) \<noteq> [])"
proof -
  let ?p = "seqx (backup_adavalinux_core_files env) (prepare_fedora_usr_merge env)"
  have "emits dnf_quiet ?p" by (intro emits_intros)
  then have same: "flags_now (after ?p h) = flags_now h" by (rule flags_now_quiet)
  from assms have p: "result ?p h = Inr ()" "result (attempt env dnf original t) (after ?p h) = Inr code"
    unfolding run_transaction_def whenx_simps by (simp_all only: seqx_Inr(1))
  then have "after (run_transaction env dnf True original t) h = after (attempt env dnf original t) (after ?p h)"
    unfolding run_transaction_def whenx_simps by (intro seqx_Inr(2))
  with transaction_flags [OF p(2)] same show ?thesis by auto
qed

lemma finish_goal_flags:
  assumes "result (finish_goal env dnf yes True original t) h = Inr code"
  shows "flags_now (after (finish_goal env dnf yes True original t) h) = Some (Tsflags ([] # original))
    \<or> code = 3 \<and> flags_now (after (finish_goal env dnf yes True original t) h) = flags_now h \<and>
      (\<exists>h'. after (finish_goal env dnf yes True original t) h = h' @ [Dnf ''download''] \<and>
        n_failed dnf (h' @ [Dnf ''download'']) (download_requests t) \<noteq> [])"
proof (cases "fatal_resolve_problem (n_flags dnf) (dt_problems t) \<or> dt_empty t")
  case True
  have "flags_now (after (seqx (restore_tsflags env original) (okx c)) h) = Some (Tsflags ([] # original))" for c :: int
    by (rule flags_now_seqx [OF flags_now_restore]) (rule emits_x)
  with True show ?thesis unfolding finish_goal_def Let_def whenx_simps by (auto simp del: after_x result_x)
next
  case False
  let ?print = "print_transaction env t" and ?ask = "lift (confirm_transaction env yes)"
  let ?h = "after ?ask (after ?print h)"
  let ?rest = "\<lambda>yes. if \<not> yes then seqx (restore_tsflags env original) (okx 0) else run_transaction env dnf True original t"
  have goal: "finish_goal env dnf yes True original t = seqx ?print (bindx ?ask ?rest)"
    using False by (simp add: finish_goal_def)
  have "emits no_flags ?ask" by (intro emits_intros) simp
  then have same: "flags_now ?h = flags_now h"
    by (simp add: flags_now_emits flags_now_quiet [OF emits_prints(3)] del: after_x)
  obtain b where b: "result ?print h = Inr ()" "result ?ask (after ?print h) = Inr b" "result (?rest b) ?h = Inr code"
    using assms unfolding goal seqx_Inr bindx_Inr by blast
  have ends: "after (finish_goal env dnf yes True original t) h = after (?rest b) ?h"
    unfolding goal seqx_Inr(2) [OF b(1)] by (rule bindx_Inr(2) [OF b(2)])
  show ?thesis
  proof (cases b)
    case True
    with b(3) have "result (run_transaction env dnf True original t) ?h = Inr code" by simp
    from run_transaction_flags [OF this] same show ?thesis unfolding ends using True by simp
  next
    case False
    have "flags_now (after (seqx (restore_tsflags env original) (okx (0 :: int))) ?h) = Some (Tsflags ([] # original))"
      by (rule flags_now_seqx [OF flags_now_restore]) (rule emits_x)
    with False show ?thesis unfolding ends by simp
  qed
qed

lemma emits_no_flags: "emits dnf_quiet m \<Longrightarrow> emits no_flags m"
  by (erule emits_mono) simp

text \<open>Outside the first mode no flags are set.\<close>

lemma finish_goal_no_flags: "emits no_flags (finish_goal env dnf yes False original t)"
proof -
  have run: "emits no_flags (run_rpm env dnf False)" "emits no_flags (download_packages_dnf env dnf t)"
    unfolding run_rpm_def download_packages_dnf_def whenx_simps by (intro emits_intros; simp)+
  have prints: "emits no_flags (print_transaction env t)" "emits no_flags (print_rpm_failure_details env dnf)"
    by (intro emits_no_flags emits_prints)+
  show ?thesis
    unfolding finish_goal_def Let_def whenx_simps run_transaction_def transaction_body_def transaction_handler_def
    by (intro emits_intros run prints) simp
qed

lemma resolve_goal_flags:
  assumes "result (resolve_goal env dnf bootstrap original jobs) h = Inr t"
  shows "flags_now (after (resolve_goal env dnf bootstrap original jobs) h) = flags_now h"
proof -
  have "result (dnf_call env ''resolve'') h = Inr ()"
    using assms by (auto simp: resolve_goal_def split: sum.splits)
  then show ?thesis by (simp add: resolve_goal_def dnf_call_def result_call)
qed


text \<open>
  C36. Without write access to the directory of the RPM data base every command fails with status 1, those
  that only read included; only the help and the version are available to an ordinary user.
\<close>

theorem unwritable_database_refused:
  assumes "\<And>h. \<not> e_access env h ''/var/lib/rpm'' WX_OK" and "args \<noteq> []" and "hd args \<notin> {''--help'', ''-h'', ''--version''}"
  shows "result (dnf_main env dnf args) h = 1"
proof -
  have db: "result (ensure_rpm_database env) h \<noteq> Inr x" for h x
    using assms(1) unfolding ensure_rpm_database_def
    by (simp add: seqx_Inr bindx_Inr access_def del: result_x(3,4))
  have layout: "result (check_runtime_layout env) h \<noteq> Inr x" for h x
    unfolding check_runtime_layout_def by (simp add: seqx_Inr db del: result_x(3,4))
  have base: "result (prepare_base env dnf source w l) h \<noteq> Inr x" for source w l h x
    unfolding prepare_base_def by (simp add: seqx_Inr layout del: result_x(3,4))
  have "result (dnf_dispatch env dnf opts) h \<noteq> Inr x" for opts h x
    unfolding dnf_dispatch_def by (simp add: bindx_Inr base del: result_x(3,4))
  with assms(2,3) show ?thesis
    unfolding dnf_main_def by (cases args) (auto split: sum.split)
qed

definition fresh_env :: env where
  "fresh_env = linked_env \<lparr>
     e_stat := \<lambda>h p. if p = ''/var/lib/syspckg/fedora-base.ready'' then Inl ENOENT
       else Inr \<lparr>st_kind = S_REG, st_mode = 420\<rparr>\<rparr>"


definition locked_env :: env where
  "locked_env = ready_env \<lparr>e_access := \<lambda>h p m. p \<noteq> ''/var/lib/rpm'', e_euid := 1000\<rparr>"

lemma unwritable_database_refused_witness:
  "\<not> e_access locked_env [] ''/var/lib/rpm'' WX_OK \<and> result (dnf_main locked_env sample_dnf [''search'', ''bash'']) [] = 1"
proof
  have locked: "\<not> e_access locked_env h ''/var/lib/rpm'' WX_OK" for h by (simp add: locked_env_def)
  show "\<not> e_access locked_env [] ''/var/lib/rpm'' WX_OK" by (rule locked)
  show "result (dnf_main locked_env sample_dnf [''search'', ''bash'']) [] = 1"
    using locked by (rule unwritable_database_refused) simp_all
qed

end
