(* ===== verification/Shell.thy ===== *)
theory Shell
  imports World
begin

text \<open>
  What the scripts of the root file system need of the shell: words, lines, substitution, tests and
  commands. A command is a \<^const>\<open>Run\<close> event with its words, whose status is up to the environment; the
  tests that look at a file are the function \<open>sh_test\<close>. An unquoted expansion is split at blanks; the
  words are assumed to have no wildcards of the shell in them.
\<close>

section \<open>Words and lines of the shell\<close>

definition is_ifs :: "char \<Rightarrow> bool" where
  "is_ifs c \<longleftrightarrow> c = CHR '' '' \<or> c = HT \<or> c = LF"

fun words_from :: "string \<Rightarrow> string \<Rightarrow> string list" where
  "words_from w [] = (if w = [] then [] else [w])"
| "words_from w (c # s) =
     (if is_ifs c then (if w = [] then [] else [w]) @ words_from [] s else words_from (w @ [c]) s)"

definition words :: "string \<Rightarrow> string list" where
  "words s = words_from [] s"

fun unwords :: "string list \<Rightarrow> string" where
  "unwords [] = []"
| "unwords [w] = w"
| "unwords (w # ws) = w @ '' '' @ unwords ws"

text \<open>The lines of a text; what follows the last line break is a line only if it is not empty.\<close>

fun lines_from :: "string \<Rightarrow> string \<Rightarrow> string list" where
  "lines_from l [] = (if l = [] then [] else [l])"
| "lines_from l (c # s) = (if c = LF then l # lines_from [] s else lines_from (l @ [c]) s)"

definition text_lines :: "string \<Rightarrow> string list" where
  "text_lines s = lines_from [] s"

text \<open>A command substitution drops the line breaks at the end.\<close>

definition substituted :: "string \<Rightarrow> string" where
  "substituted s = rev (dropWhile (\<lambda>c. c = LF) (rev s))"

text \<open>What a command has written, whatever its status.\<close>

definition output_of :: "exec_result \<Rightarrow> string" where
  "output_of r = (case r of Ran out status \<Rightarrow> out | _ \<Rightarrow> [])"

record shell =
  sh_env :: env
  sh_test :: "history \<Rightarrow> char \<Rightarrow> string \<Rightarrow> bool"

definition test :: "shell \<Rightarrow> char \<Rightarrow> string \<Rightarrow> bool io" where
  "test sh flag path = query (\<lambda>h. sh_test sh h flag path)"

definition run :: "shell \<Rightarrow> string list \<Rightarrow> bool io" where
  "run sh argv = do { status \<leftarrow> spawn (sh_env sh) argv; ret (status = Exited 0) }"

section \<open>Lemmas\<close>

definition word_ok :: "string \<Rightarrow> bool" where
  "word_ok w \<longleftrightarrow> w \<noteq> [] \<and> list_all (\<lambda>c. \<not> is_ifs c) w"

lemma words_from_append: "list_all (\<lambda>c. \<not> is_ifs c) u \<Longrightarrow> words_from w (u @ s) = words_from (w @ u) s"
  by (induction u arbitrary: w) auto

lemma words_from_blank: "is_ifs c \<Longrightarrow> words_from w (a @ c # b) = words_from w a @ words b"
  by (induction a arbitrary: w) (auto simp: words_def)

lemma words_blank [simp]: "words (a @ CHR '' '' # b) = words a @ words b"
  using words_from_blank [of "CHR '' ''"] by (simp add: words_def is_ifs_def)

lemma words_Nil [simp]: "words [] = []"
  by (simp add: words_def)

lemma words_word: "word_ok w \<Longrightarrow> words w = [w]"
  using words_from_append [of w "[]" "[]"] by (simp add: words_def word_ok_def)

lemma words_from_ok: "list_all (\<lambda>c. \<not> is_ifs c) w \<Longrightarrow> list_all word_ok (words_from w s)"
  by (induction s arbitrary: w) (auto simp: word_ok_def)

lemma words_ok: "list_all word_ok (words s)"
  by (simp add: words_def words_from_ok)

text \<open>Reading back the words that have been joined.\<close>

lemma words_unwords: "list_all word_ok ws \<Longrightarrow> words (unwords ws) = ws"
  by (induction ws rule: unwords.induct) (simp_all add: words_word)

lemma text_lines_line: "LF \<notin> set l \<Longrightarrow> text_lines (l @ LF # s) = l # text_lines s"
proof -
  have "lines_from k (l @ LF # s) = (k @ l) # lines_from [] s" if "LF \<notin> set l" for k
    using that by (induction l arbitrary: k) auto
  then show "LF \<notin> set l \<Longrightarrow> text_lines (l @ LF # s) = l # text_lines s" by (simp add: text_lines_def)
qed

lemma text_lines_Nil [simp]: "text_lines [] = []"
  by (simp add: text_lines_def)

lemma text_lines_concat:
  "list_all (\<lambda>l. LF \<notin> set l) ls \<Longrightarrow> text_lines (concat (map (\<lambda>l. l @ [LF]) ls)) = ls"
  by (induction ls) (simp_all add: text_lines_line)

lemma shell_results [simp]:
  "after (test sh c p) h = h" "result (test sh c p) h = sh_test sh h c p"
  "after (run sh argv) h = h @ [Run argv]" "result (run sh argv) h = (e_run (sh_env sh) h argv = Exited 0)"
  by (simp_all add: test_def run_def)

lemma emits_shell [emits_intros]:
  "emits P (test sh c p)" "P (Run argv) \<Longrightarrow> emits P (run sh argv)"
  by (simp_all add: emits_def)

section \<open>Files by their writes\<close>

text \<open>The content of a file, by the writes of a trace.\<close>

fun written :: "string \<Rightarrow> string \<Rightarrow> history \<Rightarrow> string" where
  "written path content [] = content"
| "written path content (WriteFile p t # h) = written path (if p = path then t else content) h"
| "written path content (Append p t # h) = written path (if p = path then content @ t else content) h"
| "written path content (_ # h) = written path content h"

lemma written_append [simp]: "written path content (h @ k) = written path (written path content h) k"
  by (induction path content h rule: written.induct) auto

definition keeps_file :: "string \<Rightarrow> event \<Rightarrow> bool" where
  "keeps_file path e \<longleftrightarrow> (\<forall>c. e \<noteq> WriteFile path c \<and> e \<noteq> Append path c)"

lemma written_keeps:
  assumes "emits (keeps_file path) m"
  shows "written path content (after m h) = written path content h"
proof -
  have keep: "list_all (keeps_file path) t \<Longrightarrow> written path c t = c" for c t
    by (induction path c t rule: written.induct) (auto simp: keeps_file_def)
  obtain t where "after m h = h @ t" "list_all (keeps_file path) t" using emits_after [OF assms] by blast
  then show ?thesis by (simp add: keep)
qed

end
