(* ===== verification/Initramfs.thy ===== *)
theory Initramfs
  imports Shell Throwing
begin

text \<open>
  The scripts that bring up a system: \<^verbatim>\<open>initramfs-disk/init\<close>, which finds and mounts the root file system,
  \<^verbatim>\<open>rootfs/init\<close> of the live system and its start script \<^verbatim>\<open>etc/init.d/rcS\<close>. The redirections of the standard streams to a
  console, the messages and the exported variables are not modelled.
\<close>

section \<open>The initial RAM disk\<close>

text \<open>\<^verbatim>\<open>awk '$2=="/dev"'\<close> on the table of mounts.\<close>

definition dev_mounted :: "shell \<Rightarrow> bool io" where
  "dev_mounted sh = do {
     table \<leftarrow> open_file (sh_env sh) ''/proc/mounts'';
     ret (case table of None \<Rightarrow> False
          | Some t \<Rightarrow> list_ex (\<lambda>l. length (words l) \<ge> 2 \<and> words l ! 1 = ''/dev'') (text_lines t))
   }"

definition mount_dev :: "shell \<Rightarrow> bool io" where
  "mount_dev sh = do {
     there \<leftarrow> dev_mounted sh;
     if there then ret True
     else or_else (run sh [''mount'', ''-t'', ''devtmpfs'', ''devtmpfs'', ''/dev''])
       (run sh [''mount'', ''-t'', ''tmpfs'', ''none'', ''/dev''])
   }"

definition ensure_node :: "shell \<Rightarrow> string \<Rightarrow> string \<Rightarrow> string \<Rightarrow> string \<Rightarrow> bool io" where
  "ensure_node sh path mode major minor =
     or_else (test sh (CHR ''c'') path) (run sh [''mknod'', ''-m'', mode, path, ''c'', major, minor])"

text \<open>The status is that of the last command, the node of the serial line.\<close>

definition mount_essential_fs :: "shell \<Rightarrow> bool io" where
  "mount_essential_fs sh = do {
     _ \<leftarrow> run sh [''mount'', ''-t'', ''proc'', ''none'', ''/proc''];
     _ \<leftarrow> run sh [''mount'', ''-t'', ''sysfs'', ''none'', ''/sys''];
     dev \<leftarrow> mount_dev sh;
     if \<not> dev then ret False
     else do {
       _ \<leftarrow> run sh [''mdev'', ''-s''];
       _ \<leftarrow> ensure_node sh ''/dev/console'' ''600'' ''5'' ''1'';
       _ \<leftarrow> ensure_node sh ''/dev/tty'' ''666'' ''5'' ''0'';
       _ \<leftarrow> ensure_node sh ''/dev/tty1'' ''600'' ''4'' ''1'';
       ensure_node sh ''/dev/ttyS0'' ''600'' ''4'' ''64''
     }
   }"

fun parse_arg :: "string \<times> string \<Rightarrow> string \<Rightarrow> string \<times> string" where
  "parse_arg (root_arg, root_fstype) arg =
     (if prefix ''root='' arg then (drop 5 arg, root_fstype)
      else if prefix ''rootfstype='' arg then (root_arg, drop 11 arg)
      else (root_arg, root_fstype))"

definition parse_cmdline :: "string \<Rightarrow> string \<times> string" where
  "parse_cmdline cmdline = foldl parse_arg ([], []) (words cmdline)"

definition blkid :: "shell \<Rightarrow> string \<Rightarrow> string \<Rightarrow> string io" where
  "blkid sh flag what = do {
     there \<leftarrow> run sh [''command'', ''-v'', ''blkid''];
     if \<not> there then ret []
     else do { r \<leftarrow> capture_cmd (sh_env sh) [''blkid'', flag, what]; ret (substituted (output_of r)) }
   }"

text \<open>\<^verbatim>\<open>$(resolve_root_spec || true)\<close>\<close>

definition resolve_root_spec :: "shell \<Rightarrow> string \<Rightarrow> string io" where
  "resolve_root_spec sh root_arg =
     (if prefix ''UUID='' root_arg then
        if prefix ''/dev/'' (drop 5 root_arg) then ret (drop 5 root_arg) else blkid sh ''-U'' (drop 5 root_arg)
      else if prefix ''LABEL='' root_arg then blkid sh ''-L'' (drop 6 root_arg)
      else ret root_arg)"

fun wait_loop :: "nat \<Rightarrow> shell \<Rightarrow> string \<Rightarrow> bool io" where
  "wait_loop 0 sh root_dev = test sh (CHR ''b'') root_dev"
| "wait_loop (Suc n) sh root_dev = do {
     there \<leftarrow> test sh (CHR ''b'') root_dev;
     if there then ret True
     else do {
       _ \<leftarrow> run sh [''mdev'', ''-s''];
       _ \<leftarrow> run sh [''sleep'', ''1''];
       wait_loop n sh root_dev
     }
   }"

definition wait_for_root :: "shell \<Rightarrow> string \<Rightarrow> bool io" where
  "wait_for_root sh root_dev = (if prefix ''/dev/'' root_dev then wait_loop 10 sh root_dev else ret True)"

definition mount_argv :: "string \<Rightarrow> string \<Rightarrow> string list" where
  "mount_argv root_fstype root_dev =
     (if root_fstype \<noteq> [] then [''mount'', ''-t'', root_fstype, root_dev, ''/newroot'']
      else [''mount'', root_dev, ''/newroot''])"

definition mount_root :: "shell \<Rightarrow> string \<Rightarrow> string \<Rightarrow> bool io" where
  "mount_root sh root_fstype root_dev = do {
     _ \<leftarrow> run sh [''mkdir'', ''-p'', ''/newroot''];
     run sh (mount_argv root_fstype root_dev)
   }"

definition move_mounts_to_newroot :: "shell \<Rightarrow> bool io" where
  "move_mounts_to_newroot sh = do {
     _ \<leftarrow> run sh [''mkdir'', ''-p'', ''/newroot/dev'', ''/newroot/proc'', ''/newroot/sys''];
     and_then (run sh [''mount'', ''--move'', ''/dev'', ''/newroot/dev''])
       (and_then (run sh [''mount'', ''--move'', ''/proc'', ''/newroot/proc''])
         (run sh [''mount'', ''--move'', ''/sys'', ''/newroot/sys'']))
   }"

text \<open>
  The rescue shell replaces the script, so that \<open>Panic\<close> is an end of it. With both consoles a second
  shell is started on the serial line.
\<close>

datatype boot_end = SwitchRoot | Panic string

definition panic_shell :: "shell \<Rightarrow> string \<Rightarrow> boot_end io" where
  "panic_shell sh reason = do {
     tty1 \<leftarrow> test sh (CHR ''c'') ''/dev/tty1'';
     ttyS0 \<leftarrow> test sh (CHR ''c'') ''/dev/ttyS0'';
     setsid \<leftarrow> (if tty1 \<and> ttyS0 then run sh [''command'', ''-v'', ''setsid''] else ret False);
     _ \<leftarrow> (if setsid then run sh [''setsid'', ''sh''] else ret False);
     _ \<leftarrow> run sh [''sh''];
     ret (Panic reason)
   }"

definition or_panic :: "shell \<Rightarrow> bool io \<Rightarrow> string \<Rightarrow> boot_end io \<Rightarrow> boot_end io" where
  "or_panic sh m reason rest = do { ok \<leftarrow> m; if ok then rest else panic_shell sh reason }"

definition hand_over :: "shell \<Rightarrow> string \<Rightarrow> string \<Rightarrow> boot_end io" where
  "hand_over sh root_fstype root_dev =
     or_panic sh (wait_for_root sh root_dev) (''Root device '' @ root_dev @ '' did not appear.'')
     (or_panic sh (mount_root sh root_fstype root_dev) (''Failed to mount root filesystem '' @ root_dev @ ''.'')
     (or_panic sh (test sh (CHR ''x'') ''/newroot/sbin/init'') ''Mounted root does not contain /sbin/init.''
     (or_panic sh (move_mounts_to_newroot sh) ''Failed to hand off /dev, /proc, or /sys to the real root.''
       (do { _ \<leftarrow> run sh [''switch_root'', ''/newroot'', ''/sbin/init'']; ret SwitchRoot }))))"

definition initramfs_init :: "shell \<Rightarrow> boot_end io" where
  "initramfs_init sh =
     or_panic sh (mount_essential_fs sh) ''Failed to mount essential pseudo filesystems.''
     (do {
       cmdline \<leftarrow> open_file (sh_env sh) ''/proc/cmdline'';
       let (root_arg, root_fstype) = parse_cmdline (case cmdline of None \<Rightarrow> [] | Some c \<Rightarrow> c);
       or_panic sh (ret (root_arg \<noteq> [])) ''Missing root= kernel parameter.''
       (do {
         root_dev \<leftarrow> resolve_root_spec sh root_arg;
         or_panic sh (ret (root_dev \<noteq> [])) (''Could not resolve root specification '' @ root_arg @ ''.'')
           (hand_over sh root_fstype root_dev)
       })
     })"

section \<open>The live system\<close>

definition live_init :: "shell \<Rightarrow> unit io" where
  "live_init sh = do {
     _ \<leftarrow> run sh [''mount'', ''-t'', ''proc'', ''none'', ''/proc''];
     _ \<leftarrow> run sh [''mount'', ''-t'', ''sysfs'', ''none'', ''/sys''];
     _ \<leftarrow> mount_dev sh;
     _ \<leftarrow> run sh [''mkdir'', ''-p'', ''/dev/pts''];
     _ \<leftarrow> run sh [''mount'', ''-t'', ''devpts'', ''-o'', ''mode=620,ptmxmode=666'', ''devpts'', ''/dev/pts''];
     _ \<leftarrow> run sh [''mdev'', ''-s''];
     _ \<leftarrow> run sh [''ln'', ''-sfn'', ''pts/ptmx'', ''/dev/ptmx''];
     _ \<leftarrow> or_else (test sh (CHR ''c'') ''/dev/null'') (run sh [''rm'', ''-f'', ''/dev/null'']);
     _ \<leftarrow> ensure_node sh ''/dev/null'' ''666'' ''1'' ''3'';
     _ \<leftarrow> run sh [''chown'', ''root:root'', ''/dev/null''];
     _ \<leftarrow> run sh [''chmod'', ''666'', ''/dev/null''];
     _ \<leftarrow> ensure_node sh ''/dev/console'' ''600'' ''5'' ''1'';
     _ \<leftarrow> ensure_node sh ''/dev/tty'' ''666'' ''5'' ''0'';
     _ \<leftarrow> ensure_node sh ''/dev/tty1'' ''600'' ''4'' ''1'';
     _ \<leftarrow> ensure_node sh ''/dev/ttyS0'' ''600'' ''4'' ''64'';
     _ \<leftarrow> run sh [''/sbin/init''];
     ret ()
   }"

text \<open>
  The start script of the live system. The retries, which run in the background and are here put at the end, are bounded by \<open>fuel\<close> here; the
  script has no bound.
\<close>

definition udhcpc_call :: "string list" where
  "udhcpc_call =
     [''udhcpc'', ''-i'', ''eth0'', ''-s'', ''/usr/share/udhcpc/default.script'', ''-n'', ''-q'', ''-T'', ''2'', ''-t'', ''3'']"

fun dhcp_retry :: "nat \<Rightarrow> shell \<Rightarrow> bool io" where
  "dhcp_retry 0 sh = ret False"
| "dhcp_retry (Suc fuel) sh = do {
     _ \<leftarrow> run sh [''sleep'', ''2''];
     ok \<leftarrow> run sh udhcpc_call;
     if ok then ret True else dhcp_retry fuel sh
   }"

definition rcS :: "nat \<Rightarrow> shell \<Rightarrow> unit io" where
  "rcS fuel sh = do {
     _ \<leftarrow> and_then (test sh (CHR ''f'') ''/etc/hostname'') (run sh [''hostname'', ''-F'', ''/etc/hostname'']);
     _ \<leftarrow> effect (sh_env sh) (WriteFile ''/etc/issue'' ([LF] @ '' '' @ [CHR 0x5C, CHR ''l''] @ '' ''));
     bus \<leftarrow> test sh (CHR ''x'') ''/usr/bin/dbus-daemon'';
     _ \<leftarrow> (if bus then do {
            _ \<leftarrow> run sh [''mkdir'', ''-p'', ''/run/dbus''];
            _ \<leftarrow> run sh [''chown'', ''messagebus:messagebus'', ''/run/dbus''];
            or_else (test sh (CHR ''S'') ''/run/dbus/system_bus_socket'') (run sh [''/usr/bin/dbus-daemon'', ''--system''])
          } else ret False);
     dhcp \<leftarrow> run sh [''command'', ''-v'', ''udhcpc''];
     _ \<leftarrow> (if dhcp then do {
            _ \<leftarrow> run sh [''ip'', ''link'', ''set'', ''eth0'', ''up''];
            _ \<leftarrow> run sh [''sleep'', ''1''];
            or_else (run sh udhcpc_call) (dhcp_retry fuel sh)
          } else ret False);
     ret ()
   }"

section \<open>Lemmas: the way to the real root\<close>

abbreviation SWITCH_ROOT :: event where "SWITCH_ROOT \<equiv> Run [''switch_root'', ''/newroot'', ''/sbin/init'']"

definition moves :: "string list list" where
  "moves =
     [[''mount'', ''--move'', ''/dev'', ''/newroot/dev''], [''mount'', ''--move'', ''/proc'', ''/newroot/proc''],
      [''mount'', ''--move'', ''/sys'', ''/newroot/sys'']]"

text \<open>
  The root file system is in place: a device that is named by its path was there, its mount was
  successful, the program to start was in it, and nothing but the three moves, all of them successful,
  has followed.
\<close>

definition root_ready :: "shell \<Rightarrow> string \<Rightarrow> string \<Rightarrow> history \<Rightarrow> bool" where
  "root_ready sh root_fstype root_dev h \<longleftrightarrow>
     (\<exists>h0. let h1 = h0 @ [Run [''mkdir'', ''-p'', ''/newroot'']];
               h2 = h1 @ [Run (mount_argv root_fstype root_dev)];
               h3 = h2 @ [Run [''mkdir'', ''-p'', ''/newroot/dev'', ''/newroot/proc'', ''/newroot/sys'']]
          in (prefix ''/dev/'' root_dev \<longrightarrow> sh_test sh h0 (CHR ''b'') root_dev)
             \<and> e_run (sh_env sh) h1 (mount_argv root_fstype root_dev) = Exited 0
             \<and> sh_test sh h2 (CHR ''x'') ''/newroot/sbin/init''
             \<and> h = h3 @ map Run moves
             \<and> (\<forall>i < length moves. e_run (sh_env sh) (h3 @ map Run (take i moves)) (moves ! i) = Exited 0))"

text \<open>What a root specification may stand for.\<close>

definition resolves_to :: "shell \<Rightarrow> string \<Rightarrow> string \<Rightarrow> bool" where
  "resolves_to sh root_arg root_dev \<longleftrightarrow>
     root_dev \<noteq> [] \<and>
     (if prefix ''UUID=/dev/'' root_arg then root_dev = drop 5 root_arg
      else if prefix ''UUID='' root_arg
      then \<exists>h. root_dev = substituted (output_of (e_capture (sh_env sh) h [''blkid'', ''-U'', drop 5 root_arg]))
      else if prefix ''LABEL='' root_arg
      then \<exists>h. root_dev = substituted (output_of (e_capture (sh_env sh) h [''blkid'', ''-L'', drop 6 root_arg]))
      else root_dev = root_arg)"

definition switch_ok :: "shell \<Rightarrow> history \<Rightarrow> event \<Rightarrow> bool" where
  "switch_ok sh h e \<longleftrightarrow>
     (e = SWITCH_ROOT \<longrightarrow>
       (\<exists>h' cmdline root_arg root_fstype root_dev.
          prefix h' h \<and> e_open (sh_env sh) h' ''/proc/cmdline'' = Some cmdline \<and>
          parse_cmdline cmdline = (root_arg, root_fstype) \<and> root_arg \<noteq> [] \<and>
          resolves_to sh root_arg root_dev \<and> root_ready sh root_fstype root_dev h))"

definition no_switch :: "event \<Rightarrow> bool" where
  "no_switch e \<longleftrightarrow> e \<noteq> SWITCH_ROOT"

lemma no_switch_run [simp]: "no_switch (Run argv) \<longleftrightarrow> argv \<noteq> [''switch_root'', ''/newroot'', ''/sbin/init'']"
  by (simp add: no_switch_def)

lemma emits_parts [emits_intros]:
  "emits no_switch (panic_shell sh reason)" "emits no_switch (mount_essential_fs sh)"
  "emits no_switch (blkid sh flag what)" "emits no_switch (resolve_root_spec sh root_arg)"
  "emits no_switch (mount_root sh root_fstype root_dev)" "emits no_switch (move_mounts_to_newroot sh)"
  unfolding panic_shell_def mount_essential_fs_def mount_dev_def dev_mounted_def ensure_node_def blkid_def
    resolve_root_spec_def mount_root_def mount_argv_def move_mounts_to_newroot_def
  by (intro emits_intros; simp add: open_file_def emits_query)+

lemma emits_wait [emits_intros]: "emits no_switch (wait_for_root sh root_dev)"
proof -
  have "emits no_switch (wait_loop n sh root_dev)" for n
    by (induction n) (simp_all, intro emits_intros, auto intro!: emits_intros)
  then show ?thesis by (auto simp: wait_for_root_def intro: emits_intros)
qed

lemma wait_for_root_there:
  "result (wait_for_root sh root_dev) h \<Longrightarrow>
   prefix ''/dev/'' root_dev \<longrightarrow> sh_test sh (after (wait_for_root sh root_dev) h) (CHR ''b'') root_dev"
proof -
  have "result (wait_loop n sh root_dev) h \<Longrightarrow> sh_test sh (after (wait_loop n sh root_dev) h) (CHR ''b'') root_dev" for n
    by (induction n arbitrary: h) (auto split: if_splits)
  then show "result (wait_for_root sh root_dev) h \<Longrightarrow> ?thesis" by (auto simp: wait_for_root_def)
qed

lemma resolve_root_spec_sound:
  assumes "result (resolve_root_spec sh root_arg) h \<noteq> []"
  shows "resolves_to sh root_arg (result (resolve_root_spec sh root_arg) h)"
proof -
  have "\<exists>h'. result (blkid sh flag what) h = substituted (output_of (e_capture (sh_env sh) h' [''blkid'', flag, what]))"
    if "result (blkid sh flag what) h \<noteq> []" for flag what
    using that by (auto simp: blkid_def split: if_splits)
  then show ?thesis
    using assms by (auto simp: resolves_to_def resolve_root_spec_def prefix_def split: if_splits)
qed

lemma moves_ready:
  assumes "result (move_mounts_to_newroot sh) h"
  shows "after (move_mounts_to_newroot sh) h
    = (h @ [Run [''mkdir'', ''-p'', ''/newroot/dev'', ''/newroot/proc'', ''/newroot/sys'']]) @ map Run moves"
    and "\<forall>i < length moves. e_run (sh_env sh)
      ((h @ [Run [''mkdir'', ''-p'', ''/newroot/dev'', ''/newroot/proc'', ''/newroot/sys'']]) @ map Run (take i moves))
      (moves ! i) = Exited 0"
  using assms
  by (auto simp: move_mounts_to_newroot_def and_then_def moves_def less_Suc_eq numeral_eq_Suc split: if_splits)

lemma emits_at_no_switch: "emits no_switch m \<Longrightarrow> emits_at (switch_ok sh) h m"
  by (rule emits_at_emits [of no_switch]) (simp_all add: switch_ok_def no_switch_def)

lemma emits_at_run: "P h (Run argv) \<Longrightarrow> emits_at P h (run sh argv)"
  by (simp add: emits_at_def)

lemma emits_at_or_panic:
  assumes "emits no_switch m" and "result m h \<Longrightarrow> emits_at (switch_ok sh) (after m h) rest"
  shows "emits_at (switch_ok sh) h (or_panic sh m reason rest)"
  unfolding or_panic_def
proof (rule emits_at_bind)
  show "emits_at (switch_ok sh) h m" by (rule emits_at_no_switch [OF assms(1)])
  show "emits_at (switch_ok sh) (after m h) (if result m h then rest else panic_shell sh reason)"
    using assms(2) by (simp add: emits_at_no_switch emits_parts(1))
qed

lemma hand_over_guarded:
  assumes "\<And>h'. prefix h h' \<Longrightarrow> root_ready sh root_fstype root_dev h' \<Longrightarrow> switch_ok sh h' SWITCH_ROOT"
  shows "emits_at (switch_ok sh) h (hand_over sh root_fstype root_dev)"
proof -
  let ?wait = "wait_for_root sh root_dev" and ?mount = "mount_root sh root_fstype root_dev"
  let ?h0 = "after ?wait h"
  let ?h2 = "after ?mount ?h0" and ?moves = "move_mounts_to_newroot sh"
  have "switch_ok sh (after ?moves ?h2) SWITCH_ROOT"
    if wait: "result ?wait h" and mount: "result ?mount ?h0"
      and init: "sh_test sh ?h2 (CHR ''x'') ''/newroot/sbin/init''" and moved: "result ?moves ?h2"
  proof (rule assms)
    have "prefix h ?h0" "prefix ?h0 ?h2" "prefix ?h2 (after ?moves ?h2)"
      by (rule emits_at_prefix, rule emits_at_no_switch [of _ sh], rule emits_intros)+
    then show "prefix h (after ?moves ?h2)" by (meson prefix_order.trans)
    have "?h2 = ?h0 @ [Run [''mkdir'', ''-p'', ''/newroot''], Run (mount_argv root_fstype root_dev)]"
      by (simp add: mount_root_def)
    moreover have "e_run (sh_env sh) (?h0 @ [Run [''mkdir'', ''-p'', ''/newroot'']]) (mount_argv root_fstype root_dev)
        = Exited 0"
      using mount by (simp add: mount_root_def)
    ultimately show "root_ready sh root_fstype root_dev (after ?moves ?h2)"
      using wait_for_root_there [OF wait] init moves_ready [OF moved] unfolding root_ready_def Let_def
      by (intro exI [of _ ?h0]) simp
  qed
  then show ?thesis
    unfolding hand_over_def by (auto intro!: emits_at_or_panic emits_intros emits_at_bind emits_at_ret emits_at_run)
qed

text \<open>The waits of the scripts: rounds of the same commands until a condition holds.\<close>

definition rounds :: "nat \<Rightarrow> string list list \<Rightarrow> history" where
  "rounds n cmds = concat (replicate n (map Run cmds))"

lemma rounds_simps [simp]: "rounds 0 cmds = []" "rounds (Suc n) cmds = map Run cmds @ rounds n cmds"
  by (simp_all add: rounds_def)

lemma ex_le_Suc: "(\<exists>k \<le> Suc n. P k) \<longleftrightarrow> P 0 \<or> (\<exists>k \<le> n. P (Suc k))"
  by (metis Suc_le_mono not0_implies_Suc zero_le)

lemma ex_less_Suc: "(\<exists>k < Suc n. P k) \<longleftrightarrow> P 0 \<or> (\<exists>k < n. P (Suc k))"
  using ex_le_Suc [of "n - 1" P] by (cases n) (auto simp: less_Suc_eq_le)

abbreviation SCAN :: "string list list" where "SCAN \<equiv> [[''mdev'', ''-s''], [''sleep'', ''1'']]"

lemma wait_loop_result:
  "result (wait_loop n sh dev) h \<longleftrightarrow> (\<exists>k \<le> n. sh_test sh (h @ rounds k SCAN) (CHR ''b'') dev)"
  by (induction n arbitrary: h) (auto simp: ex_le_Suc)

lemma wait_loop_after: "\<exists>k \<le> n. after (wait_loop n sh dev) h = h @ rounds k SCAN"
proof (induction n arbitrary: h)
  case (Suc n)
  from Suc [of "h @ map Run SCAN"] show ?case by (auto simp: ex_le_Suc)
qed simp

abbreviation RETRY :: "string list list" where "RETRY \<equiv> [[''sleep'', ''2''], udhcpc_call]"

lemma dhcp_retry_result:
  "result (dhcp_retry fuel sh) h \<longleftrightarrow>
   (\<exists>k < fuel. e_run (sh_env sh) (h @ rounds k RETRY @ [Run [''sleep'', ''2'']]) udhcpc_call = Exited 0)"
proof (induction fuel arbitrary: h)
  case (Suc fuel)
  then show ?case by (auto simp: ex_less_Suc)
qed simp

section \<open>Properties\<close>

text \<open>
  C7. The initial RAM disk leaves for the real root only when the kernel command line it read names a
  root, the name was resolved to a device, a device given by its path was seen as a block device, its
  mount was successful, \<^verbatim>\<open>/sbin/init\<close> on it is executable, and \<^verbatim>\<open>/dev\<close>, \<^verbatim>\<open>/proc\<close> and \<^verbatim>\<open>/sys\<close> have been moved
  there without an error.
\<close>

theorem switch_root_guarded: "emits_at (switch_ok sh) h (initramfs_init sh)"
proof -
  have last: "emits_at (switch_ok sh) h' (hand_over sh root_fstype (result (resolve_root_spec sh root_arg) h0))"
    if pre: "prefix h0 h'" and parsed: "parse_cmdline (case e_open (sh_env sh) h0 ''/proc/cmdline'' of None \<Rightarrow> [] | Some c \<Rightarrow> c)
        = (root_arg, root_fstype)"
      and given: "root_arg \<noteq> []" and resolved: "result (resolve_root_spec sh root_arg) h0 \<noteq> []"
    for h0 h' root_arg root_fstype
  proof (rule hand_over_guarded)
    fix h'' assume "prefix h' h''" and ready: "root_ready sh root_fstype (result (resolve_root_spec sh root_arg) h0) h''"
    then have "prefix h0 h''" using pre by (meson prefix_order.trans)
    moreover obtain c where "e_open (sh_env sh) h0 ''/proc/cmdline'' = Some c" "parse_cmdline c = (root_arg, root_fstype)"
      using parsed given by (auto simp: parse_cmdline_def split: option.splits)
    ultimately show "switch_ok sh h'' SWITCH_ROOT"
      using ready given resolve_root_spec_sound [OF resolved] unfolding switch_ok_def by blast
  qed
  have "prefix h0 (after (resolve_root_spec sh root_arg) h0)" for h0 root_arg
    by (rule emits_at_prefix, rule emits_at_no_switch [of _ sh], rule emits_intros)
  with last show ?thesis
    unfolding initramfs_init_def
    by (auto intro!: emits_at_or_panic emits_at_bind emits_intros emits_at_no_switch [OF emits_parts(4)]
        emits_at_no_switch [of "open_file (sh_env sh) ''/proc/cmdline''"] split: prod.split)
qed

text \<open>
  C28. Waiting for a root device is bounded and exact: the loop looks at most ten times more after the
  first look, with a scan for devices and a second of sleep in between, does nothing else, and is
  successful just when one of these looks finds the block device.
\<close>

theorem wait_for_root_bounded:
  "(result (wait_for_root sh (''/dev/'' @ name)) h \<longleftrightarrow>
     (\<exists>k \<le> 10. sh_test sh (h @ rounds k SCAN) (CHR ''b'') (''/dev/'' @ name))) \<and>
   (\<exists>k \<le> 10. after (wait_for_root sh (''/dev/'' @ name)) h = h @ rounds k SCAN)"
  using wait_loop_result [of 10 sh "''/dev/'' @ name"] wait_loop_after [of 10 sh "''/dev/'' @ name"]
  by (simp add: wait_for_root_def del: append.simps)

end
