(* ===== verification/Dhcp.thy ===== *)
theory Dhcp
  imports Shell
begin

text \<open>
  The script \<^verbatim>\<open>usr/share/udhcpc/default.script\<close>, which the DHCP client calls with the values of a lease.
  The lines of the resolver configuration are a function of the lease; the writes are taken to succeed.
\<close>

section \<open>The DHCP script\<close>

record lease =
  l_interface :: string
  l_ip :: string
  l_mask :: string
  l_router :: string
  l_dns :: string

text \<open>\<^verbatim>\<open>grep -qx\<close> with a pattern in which only the dot is special.\<close>

definition dot_match :: "string \<Rightarrow> string \<Rightarrow> bool" where
  "dot_match pattern line \<longleftrightarrow> list_all2 (\<lambda>a b. a = CHR ''.'' \<or> a = b) pattern line"

abbreviation server_line :: "string \<Rightarrow> string" where "server_line d \<equiv> ''nameserver '' @ d"

abbreviation names_server :: "string \<Rightarrow> bool" where "names_server l \<equiv> prefix ''nameserver '' l"

definition add_server :: "string list \<Rightarrow> string \<Rightarrow> string list" where
  "add_server ls d = (if list_ex (dot_match (server_line d)) ls then ls else ls @ [server_line d])"

definition dhcp_servers :: "string \<Rightarrow> string \<Rightarrow> string list" where
  "dhcp_servers router dns =
     foldl add_server
       (if sublist '' 10.0.2.2 '' ('' '' @ router @ '' '') then [server_line ''10.0.2.3''] else []) (words dns)"

definition resolv_conf :: "string \<Rightarrow> string \<Rightarrow> string list" where
  "resolv_conf router dns =
     (let ls = dhcp_servers router dns;
          ls = (if \<not> list_ex names_server ls \<and> router \<noteq> [] then ls @ map server_line (take 1 (words router)) else ls);
          ls = (if \<not> list_ex names_server ls then ls @ [server_line ''1.1.1.1'', server_line ''8.8.8.8''] else ls)
      in ls @ [''options timeout:2 attempts:2 rotate''])"

definition write_resolv_conf :: "shell \<Rightarrow> lease \<Rightarrow> unit io" where
  "write_resolv_conf sh l = do {
     _ \<leftarrow> run sh [''mkdir'', ''-p'', ''/etc''];
     _ \<leftarrow> effect (sh_env sh) (WriteFile ''/etc/resolv.conf'' []);
     each_io (\<lambda>line. effect (sh_env sh) (Append ''/etc/resolv.conf'' (line @ [LF]))) (resolv_conf (l_router l) (l_dns l))
   }"

definition set_route :: "shell \<Rightarrow> lease \<Rightarrow> bool io" where
  "set_route sh l =
     (if l_router l = [] then ret True
      else or_else (run sh [''ip'', ''route'', ''add'', ''default'', ''via'', l_router l, ''dev'', l_interface l])
        (run sh [''ip'', ''route'', ''replace'', ''default'', ''via'', l_router l, ''dev'', l_interface l]))"

definition udhcpc_script :: "shell \<Rightarrow> string \<Rightarrow> lease \<Rightarrow> unit io" where
  "udhcpc_script sh action l =
     (if action = ''deconfig'' then do {
        _ \<leftarrow> run sh [''ip'', ''addr'', ''flush'', ''dev'', l_interface l];
        _ \<leftarrow> run sh [''ip'', ''link'', ''set'', l_interface l, ''up''];
        ret ()
      }
      else if action = ''renew'' \<or> action = ''bound'' then do {
        _ \<leftarrow> run sh [''ip'', ''addr'', ''flush'', ''dev'', l_interface l];
        _ \<leftarrow> run sh [''ip'', ''addr'', ''add'', l_ip l @ ''/'' @ l_mask l, ''dev'', l_interface l];
        _ \<leftarrow> run sh [''ip'', ''link'', ''set'', l_interface l, ''up''];
        _ \<leftarrow> set_route sh l;
        write_resolv_conf sh l
      }
      else ret ())"

section \<open>Lemmas\<close>

text \<open>
  The pattern of an address also matches lines that differ where it has a dot. Two addresses with the
  same number of dots cannot be confused in this way.
\<close>

definition dots :: "string \<Rightarrow> nat" where
  "dots s = length (filter (\<lambda>c. c = CHR ''.'') s)"

lemma dots_append [simp]: "dots (a @ b) = dots a + dots b"
  by (simp add: dots_def)

lemma dot_match_dots: "dot_match p l \<Longrightarrow> dots l \<le> dots p \<and> (dots l = dots p \<longrightarrow> p = l)"
  unfolding dot_match_def dots_def by (induction rule: list_all2_induct) auto

lemma dot_match_self: "dot_match p p"
  by (simp add: dot_match_def list_all2_same)

definition firsts :: "'a list \<Rightarrow> 'a list" where
  "firsts xs = rev (remdups (rev xs))"

lemma firsts_simps [simp]: "firsts [] = []" "firsts [x] = [x]"
    "firsts (xs @ [x]) = (if x \<in> set xs then firsts xs else firsts xs @ [x])" "set (firsts xs) = set xs"
    "firsts xs = [] \<longleftrightarrow> xs = []"
  by (simp_all add: firsts_def)

lemma add_server_line:
  assumes "dots d = 3" and "list_all (\<lambda>e. dots e = 3) ds"
  shows "add_server (map server_line ds) d = map server_line (if d \<in> set ds then ds else ds @ [d])"
proof -
  have "dot_match (server_line d) (server_line e) \<longleftrightarrow> e = d" if "e \<in> set ds" for e
    using dot_match_dots [of "server_line d" "server_line e"] dot_match_self assms that
    by (auto simp: list_all_iff simp del: append.simps)
  then show ?thesis by (auto simp: add_server_def list_ex_iff simp del: append.simps)
qed

lemma add_servers_lines:
  "list_all (\<lambda>e. dots e = 3) (ds @ es) \<Longrightarrow>
   foldl add_server (map server_line (firsts ds)) es = map server_line (firsts (ds @ es))"
proof (induction es arbitrary: ds)
  case (Cons d es)
  then have "add_server (map server_line (firsts ds)) d = map server_line (firsts (ds @ [d]))"
    using add_server_line [of d "firsts ds"] by (auto simp: list_all_iff simp del: append.simps)
  moreover have "foldl add_server (map server_line (firsts (ds @ [d]))) es = map server_line (firsts ((ds @ [d]) @ es))"
    using Cons.prems by (intro Cons.IH) simp
  moreover have "ds @ d # es = (ds @ [d]) @ es" by simp
  ultimately show ?case by (simp only: foldl_Cons)
qed simp

text \<open>What the script means to write: the servers of the lease, or the router, or two public servers.\<close>

definition servers_spec :: "string \<Rightarrow> string \<Rightarrow> string list" where
  "servers_spec router dns =
     (let offered = (if sublist '' 10.0.2.2 '' ('' '' @ router @ '' '') then [''10.0.2.3''] else []) @ words dns
      in if offered \<noteq> [] then firsts offered
         else if words router \<noteq> [] then [hd (words router)]
         else [''1.1.1.1'', ''8.8.8.8''])"

lemma resolv_conf_spec:
  assumes "list_all (\<lambda>d. dots d = 3) (words dns)"
  shows "resolv_conf router dns
    = map server_line (servers_spec router dns) @ [''options timeout:2 attempts:2 rotate'']"
proof -
  define q where "q = (if sublist '' 10.0.2.2 '' ('' '' @ router @ '' '') then [''10.0.2.3''] else [])"
  have "map server_line q
      = (if sublist '' 10.0.2.2 '' ('' '' @ router @ '' '') then [server_line ''10.0.2.3''] else [])"
    by (simp add: q_def del: append.simps)
  moreover have "q = firsts q" by (simp add: q_def)
  moreover have "list_all (\<lambda>d. dots d = 3) (q @ words dns)" using assms by (simp add: q_def dots_def)
  ultimately have servers: "dhcp_servers router dns = map server_line (firsts (q @ words dns))"
    using add_servers_lines [of q "words dns"] by (simp only: dhcp_servers_def)
  have named: "list_ex names_server (map server_line ds) \<longleftrightarrow> ds \<noteq> []" for ds
    by (cases ds) (simp_all add: list_ex_iff)
  have "router \<noteq> []" if "words router \<noteq> []" using that by auto
  then show ?thesis
    unfolding resolv_conf_def servers_spec_def Let_def servers q_def [symmetric]
    by (cases "q @ words dns = []"; cases "words router")
      (simp_all add: named take_Suc del: append.simps append_is_Nil_conv)
qed

lemma written_lines:
  "written path content (after (each_io (\<lambda>l. effect env (Append path (l @ [LF]))) ls) h)
   = written path content h @ concat (map (\<lambda>l. l @ [LF]) ls)"
  by (induction ls arbitrary: h) auto

lemma write_resolv_conf_writes:
  "written ''/etc/resolv.conf'' content (after (write_resolv_conf sh l) h)
   = concat (map (\<lambda>l. l @ [LF]) (resolv_conf (l_router l) (l_dns l)))"
  by (simp add: write_resolv_conf_def written_lines)

section \<open>Properties\<close>

text \<open>
  C19. After a lease has been taken or renewed, whatever was in \<^verbatim>\<open>/etc/resolv.conf\<close> is replaced by the
  configuration the script promises: the proxy of QEMU first, when its gateway is among the routers, and
  then the servers of the lease, each once and in their order; the first router when there is no
  server; two public servers when there is no router either; the options last. It is assumed that
  the servers are written as IPv4 addresses are, with three dots.
\<close>

theorem lease_configures_resolver:
  assumes "list_all (\<lambda>d. dots d = 3) (words (l_dns l))" and "action = ''renew'' \<or> action = ''bound''"
  shows "written ''/etc/resolv.conf'' content (after (udhcpc_script sh action l) h)
    = concat (map (\<lambda>l. l @ [LF])
        (map server_line (servers_spec (l_router l) (l_dns l)) @ [''options timeout:2 attempts:2 rotate'']))"
  using assms(2) unfolding resolv_conf_spec [OF assms(1), of "l_router l", symmetric]
  by (auto simp: udhcpc_script_def write_resolv_conf_writes)

definition example_lease :: lease where
  "example_lease =
     \<lparr>l_interface = ''eth0'', l_ip = ''10.0.2.15'', l_mask = ''24'', l_router = ''10.0.2.2'',
      l_dns = ''9.9.9.9 10.0.2.3 9.9.9.9''\<rparr>"

definition still_shell :: shell where
  "still_shell = \<lparr>sh_env = listing_env [], sh_test = \<lambda>_ _ _. False\<rparr>"

theorem lease_configures_resolver_witness:
  "written ''/etc/resolv.conf'' ''nameserver 4.4.4.4'' (after (udhcpc_script still_shell ''bound'' example_lease) [])
   = ''nameserver 10.0.2.3'' @ [LF] @ ''nameserver 9.9.9.9'' @ [LF] @ ''options timeout:2 attempts:2 rotate'' @ [LF]"
proof -
  have "list_all (\<lambda>d. dots d = 3) (words (l_dns example_lease))" by code_simp
  moreover have "servers_spec (l_router example_lease) (l_dns example_lease) = [''10.0.2.3'', ''9.9.9.9'']" by code_simp
  ultimately show ?thesis
    using lease_configures_resolver [of example_lease "''bound''" "''nameserver 4.4.4.4''" still_shell "[]"] by simp
qed

end
