(* ===== verification/BootMenu.thy ===== *)
theory BootMenu
  imports Shell InstallerHelpers Initramfs Metadata
begin

text \<open>
  The generator \<^verbatim>\<open>etc/grub.d/10_adavalinux\<close> of the boot menu, and how the configuration that the installer
  writes goes through the menu and the kernel command line to the initial RAM disk.
\<close>

section \<open>The boot menu\<close>

definition boot_prefix :: "env \<Rightarrow> string" where
  "boot_prefix env =
     (case e_getenv env ''ADAVALINUX_ROOT'' of
        None \<Rightarrow> [] | Some p \<Rightarrow> if suffix ''/'' p then butlast p else p)"

text \<open>The value of the first line with one of the keys, without quotation marks.\<close>

definition first_value :: "string list \<Rightarrow> string \<Rightarrow> string" where
  "first_value keys content =
     (case concat (map (\<lambda>l. map (\<lambda>k. drop (length k) l) (filter (\<lambda>k. prefix k l) keys)) (text_lines content)) of
        [] \<Rightarrow> []
      | v # _ \<Rightarrow> filter (\<lambda>c. c \<noteq> DQ) v)"

definition os_version :: "string option \<Rightarrow> string" where
  "os_version content =
     (case content of
        None \<Rightarrow> ''1.0''
      | Some c \<Rightarrow> (let detected = first_value [''VERSION='', ''VERSION_ID=''] c in if detected \<noteq> [] then detected else ''1.0''))"

definition kernel_cmdline :: "string option \<Rightarrow> string" where
  "kernel_cmdline content =
     (case content of
        None \<Rightarrow> ''rootwait rw''
      | Some c \<Rightarrow>
          unwords (words (first_value [''GRUB_CMDLINE_LINUX=''] c @ '' '' @ first_value [''GRUB_CMDLINE_LINUX_DEFAULT=''] c)))"

definition debug_args :: "string \<Rightarrow> string" where
  "debug_args cmdline = unwords (filter (\<lambda>w. w \<noteq> ''quiet'') (words cmdline))"

definition acpi_args :: "string \<Rightarrow> string" where
  "acpi_args cmdline = unwords (words (cmdline @ '' acpi=off noapic nolapic irqpoll pci=nomsi''))"

definition readable :: "shell \<Rightarrow> string \<Rightarrow> string option io" where
  "readable sh path = query (\<lambda>h.
     if sh_test sh h (CHR ''r'') path then Some (case e_open (sh_env sh) h path of None \<Rightarrow> [] | Some c \<Rightarrow> c) else None)"

text \<open>
  \<^verbatim>\<open>find -maxdepth 1 -type f\<close> in a directory that is not itself a link, and \<open>sort_Vr\<close>, the utility that puts
  the newest version first.
\<close>

definition installed_kernels :: "env \<Rightarrow> history \<Rightarrow> string \<Rightarrow> string list" where
  "installed_kernels env h boot =
     (let names = (case e_opendir env h boot of None \<Rightarrow> [] | Some ns \<Rightarrow> ns)
      in map (drop 8) (filter (\<lambda>n. prefix ''vmlinuz-'' n \<and>
           (case e_lstat env h (boot @ ''/'' @ n) of Inr st \<Rightarrow> st_kind st = S_REG | Inl _ \<Rightarrow> False)) names))"

definition kernel_versions :: "shell \<Rightarrow> (string list \<Rightarrow> string list) \<Rightarrow> string \<Rightarrow> string list io" where
  "kernel_versions sh sort_Vr boot = query (\<lambda>h.
     rev (dropWhile (\<lambda>v. v = []) (rev (sort_Vr (installed_kernels (sh_env sh) h boot)))))"

record menu_entry =
  me_title :: string
  me_kernel :: string
  me_args :: string
  me_initrd :: string

definition emit_entry :: "shell \<Rightarrow> string \<Rightarrow> string \<Rightarrow> string \<Rightarrow> string \<Rightarrow> menu_entry io" where
  "emit_entry sh pre k title args = query (\<lambda>h.
     \<lparr>me_title = title, me_kernel = k, me_args = args,
      me_initrd = (if sh_test sh h (CHR ''f'') (pre @ ''/boot/initramfs-disk-'' @ k @ ''.gz'')
                   then ''/boot/initramfs-disk-'' @ k @ ''.gz'' else ''/boot/initramfs-disk.gz'')\<rparr>)"

definition entry_lines :: "menu_entry \<Rightarrow> string list" where
  "entry_lines e =
     [''menuentry '' @ [DQ] @ me_title e @ [DQ] @ '' {'',
      ''    echo '' @ [SQ] @ ''Loading Linux ...'' @ [SQ],
      ''    linux /boot/vmlinuz-'' @ me_kernel e @ '' '' @ me_args e,
      ''    echo '' @ [SQ] @ ''Loading initramfs...'' @ [SQ],
      ''    initrd '' @ me_initrd e,
      ''}'']"

fun map_io :: "('a \<Rightarrow> 'b io) \<Rightarrow> 'a list \<Rightarrow> 'b list io" where
  "map_io f [] = ret []"
| "map_io f (x # xs) = do { y \<leftarrow> f x; ys \<leftarrow> map_io f xs; ret (y # ys) }"

text \<open>The titles and arguments of the four entries at the top, and of the two entries of a kernel below.\<close>

definition top_entries :: "string \<Rightarrow> string \<Rightarrow> (string \<times> string) list" where
  "top_entries version cmdline =
     [(''AdavaLinux v'' @ version, cmdline),
      (''AdavaLinux v'' @ version @ '' (debug)'', debug_args cmdline),
      (''AdavaLinux v'' @ version @ '' (acpi off = ideal for old computers)'', acpi_args cmdline),
      (''AdavaLinux v'' @ version @ '' (acpi off + debug)'', acpi_args (debug_args cmdline))]"

definition kernel_entries :: "string \<Rightarrow> string \<Rightarrow> string \<Rightarrow> (string \<times> string) list" where
  "kernel_entries version cmdline k =
     [(''AdavaLinux v'' @ version @ '', kernel-'' @ k, cmdline),
      (''AdavaLinux v'' @ version @ '', kernel-'' @ k @ '' (debug)'', debug_args cmdline)]"

definition menu_entries :: "shell \<Rightarrow> (string list \<Rightarrow> string list) \<Rightarrow> (string \<times> menu_entry list \<times> menu_entry list) option io" where
  "menu_entries sh sort_Vr = do {
     let pre = boot_prefix (sh_env sh);
     release \<leftarrow> readable sh (pre @ ''/etc/os-release'');
     defaults \<leftarrow> readable sh (pre @ ''/etc/default/grub'');
     let version = os_version release;
     let cmdline = kernel_cmdline defaults;
     versions \<leftarrow> kernel_versions sh sort_Vr (pre @ ''/boot'');
     if versions = [] then ret None
     else do {
       upper \<leftarrow> map_io (\<lambda>(title, args). emit_entry sh pre (hd versions) title args) (top_entries version cmdline);
       lower \<leftarrow> map_io (\<lambda>(k, title, args). emit_entry sh pre k title args)
         (concat (map (\<lambda>k. map (\<lambda>e. (k, e)) (kernel_entries version cmdline k)) (filter (\<lambda>k. k \<noteq> []) versions)));
       ret (Some (version, upper, lower))
     }
   }"

definition memtest_lines :: "string list" where
  "memtest_lines =
     [''}'', [],
      ''if [ '' @ [DQ] @ ''$grub_platform'' @ [DQ] @ '' = '' @ [DQ] @ ''pc'' @ [DQ] @ '' ]; then'',
      ''    if [ -f /boot/memtest86+.bin ]; then'',
      ''        menuentry '' @ [DQ] @ ''Memtest86+ (BIOS)'' @ [DQ] @ '' {'',
      ''            linux16 /boot/memtest86+.bin'',
      ''        }'', ''    fi'', ''fi'', [],
      ''if [ '' @ [DQ] @ ''$grub_platform'' @ [DQ] @ '' = '' @ [DQ] @ ''efi'' @ [DQ] @ '' ]; then'',
      ''    if [ -f /boot/memtest86+x64.efi ]; then'',
      ''        menuentry '' @ [DQ] @ ''Memtest86+ (UEFI)'' @ [DQ] @ '' {'',
      ''            linux /boot/memtest86+x64.efi'',
      ''        }'', ''    fi'', ''fi'']"

definition grub_menu :: "shell \<Rightarrow> (string list \<Rightarrow> string list) \<Rightarrow> string list io" where
  "grub_menu sh sort_Vr = do {
     r \<leftarrow> menu_entries sh sort_Vr;
     ret (case r of
            None \<Rightarrow> []
          | Some (version, upper, lower) \<Rightarrow>
              concat (map entry_lines upper) @
              [''submenu '' @ [DQ] @ ''Advanced options for AdavaLinux v'' @ version @ [DQ] @ '' {''] @
              map (\<lambda>l. ''    '' @ l) (concat (map entry_lines lower)) @ memtest_lines)
   }"

section \<open>The order of the kernels\<close>

text \<open>What the menu relies on: \<^verbatim>\<open>sort -Vr\<close> permutes its lines so that none is followed by a newer one.\<close>

locale version_sort = version_order +
  fixes sort_Vr :: "'a list \<Rightarrow> 'a list"
  assumes sort_mset: "mset (sort_Vr xs) = mset xs"
    and sort_newest: "sorted_wrt (\<lambda>a b. 0 \<le> cmp a b) (sort_Vr xs)"
begin

lemma sort_set: "set (sort_Vr xs) = set xs"
  using sort_mset by (metis set_mset_mset)

lemma head_newest:
  assumes "sort_Vr xs = k # ks" and "v \<in> set xs"
  shows "0 \<le> cmp k v"
proof -
  have "v = k \<or> v \<in> set ks" using sort_set [of xs] assms by auto
  then show ?thesis using sort_newest [of xs] assms(1) cmp_refl [of k] by auto
qed

end

interpretation vs: version_sort compare_versions "\<lambda>xs. rev (qsort compare_versions xs)"
proof
  fix xs
  show "mset (rev (qsort compare_versions xs)) = mset xs" by simp
  show "sorted_wrt (\<lambda>a b. 0 \<le> compare_versions a b) (rev (qsort compare_versions xs))"
    unfolding sorted_wrt_rev
    by (rule sorted_wrt_mono_rel [OF _ cv.qsort_sorted]) (metis cv.cmp_swap neg_0_le_iff_le)
qed

section \<open>Lemmas\<close>

lemma map_io_query:
  "result (map_io (\<lambda>x. query (f x)) xs) h = map (\<lambda>x. f x h) xs" "after (map_io (\<lambda>x. query (f x)) xs) h = h"
  by (induction xs) auto

lemma blanks_dropped:
  fixes vs :: "string list"
  defines "ws \<equiv> rev (dropWhile (\<lambda>v. v = []) (rev vs))"
  shows "set (filter (\<lambda>v. v \<noteq> []) ws) = set vs - {[]}" and "ws \<noteq> [] \<Longrightarrow> hd ws = hd vs \<and> vs \<noteq> []"
proof -
  have vs: "vs = ws @ rev (takeWhile (\<lambda>v. v = []) (rev vs))"
    unfolding ws_def by (metis rev_append rev_rev_ident takeWhile_dropWhile_id)
  have "set (takeWhile (\<lambda>v. v = []) (rev vs)) \<subseteq> {[]}" by (auto dest: set_takeWhileD)
  with arg_cong [OF vs, of set] show "set (filter (\<lambda>v. v \<noteq> []) ws) = set vs - {[]}" by auto
  show "ws \<noteq> [] \<Longrightarrow> hd ws = hd vs \<and> vs \<noteq> []" using vs by (metis append_is_Nil_conv hd_append2)
qed

text \<open>The menu as a function of the state in which it is made.\<close>

definition menu_defaults :: "shell \<Rightarrow> history \<Rightarrow> string option" where
  "menu_defaults sh h = result (readable sh (boot_prefix (sh_env sh) @ ''/etc/default/grub'')) h"

definition menu_versions :: "shell \<Rightarrow> (string list \<Rightarrow> string list) \<Rightarrow> history \<Rightarrow> string list" where
  "menu_versions sh sort_Vr h = result (kernel_versions sh sort_Vr (boot_prefix (sh_env sh) @ ''/boot'')) h"

lemma menu_entries_Some:
  assumes "result (menu_entries sh sort_Vr) h = Some (version, upper, lower)"
  defines "cmdline \<equiv> kernel_cmdline (menu_defaults sh h)"
  shows "menu_versions sh sort_Vr h \<noteq> []"
    and "map (\<lambda>e. (me_title e, me_args e)) upper = top_entries version cmdline"
    and "\<forall>e \<in> set upper. me_kernel e = hd (menu_versions sh sort_Vr h)"
    and "map (\<lambda>e. (me_kernel e, me_title e, me_args e)) lower
       = concat (map (\<lambda>k. map (\<lambda>e. (k, e)) (kernel_entries version cmdline k))
           (filter (\<lambda>k. k \<noteq> []) (menu_versions sh sort_Vr h)))"
  using assms(1) unfolding cmdline_def menu_versions_def menu_defaults_def
  by (auto simp: menu_entries_def Let_def emit_entry_def map_io_query readable_def kernel_versions_def case_prod_unfold comp_def
      simp del: append.simps split: if_splits)

lemma lower_kernels:
  assumes "result (menu_entries sh sort_Vr) h = Some (version, upper, lower)"
  shows "me_kernel ` set lower = set (filter (\<lambda>k. k \<noteq> []) (menu_versions sh sort_Vr h))"
proof -
  have "me_kernel ` set lower = fst ` set (map (\<lambda>e. (me_kernel e, me_title e, me_args e)) lower)"
    by (simp add: image_image)
  then show ?thesis unfolding menu_entries_Some(4) [OF assms] by (auto simp: kernel_entries_def image_UN)
qed

text \<open>The words of the command line that matter to the initial RAM disk.\<close>

definition root_word :: "string \<Rightarrow> bool" where
  "root_word w \<longleftrightarrow> prefix ''root='' w \<or> prefix ''rootfstype='' w"

lemma parse_cmdline_root_words:
  "filter root_word (words a) = filter root_word (words b) \<Longrightarrow> parse_cmdline a = parse_cmdline b"
proof -
  have "foldl parse_arg acc ws = foldl parse_arg acc (filter root_word ws)" for acc ws
    by (induction ws arbitrary: acc) (auto simp: root_word_def)
  then show "filter root_word (words a) = filter root_word (words b) \<Longrightarrow> parse_cmdline a = parse_cmdline b"
    unfolding parse_cmdline_def by metis
qed

lemma filter_ok: "list_all word_ok (filter P (words s))"
  using words_ok [of s] by (auto simp: list_all_iff)

lemma root_words_kept:
  "filter root_word (words (debug_args c)) = filter root_word (words c)"
  "filter root_word (words (acpi_args c)) = filter root_word (words c)"
proof -
  have "filter root_word (filter (\<lambda>w. w \<noteq> ''quiet'') ws) = filter root_word ws" for ws
    by (induction ws) (auto simp: root_word_def)
  then show "filter root_word (words (debug_args c)) = filter root_word (words c)"
    by (simp add: debug_args_def words_unwords filter_ok del: filter_filter)
  have "filter root_word (words ''acpi=off noapic nolapic irqpoll pci=nomsi'') = []" by code_simp
  then show "filter root_word (words (acpi_args c)) = filter root_word (words c)"
    using words_blank [of c "''acpi=off noapic nolapic irqpoll pci=nomsi''"]
    by (simp add: acpi_args_def words_unwords words_ok)
qed

text \<open>No entry of the menu adds, drops or changes a word about the root file system.\<close>

lemma entry_root_words:
  assumes "result (menu_entries sh sort_Vr) h = Some (version, upper, lower)" and "e \<in> set (upper @ lower)"
  shows "filter root_word (words (me_args e)) = filter root_word (words (kernel_cmdline (menu_defaults sh h)))"
proof -
  let ?c = "kernel_cmdline (menu_defaults sh h)"
  have args: "me_args e \<in> {?c, debug_args ?c, acpi_args ?c, acpi_args (debug_args ?c)}"
  proof (cases "e \<in> set upper")
    case True
    then have "(me_title e, me_args e) \<in> set (top_entries version ?c)"
      using menu_entries_Some(2) [OF assms(1)] by (metis (mono_tags, lifting) image_eqI list.set_map)
    then show ?thesis by (auto simp: top_entries_def)
  next
    case False
    then have "(me_kernel e, me_title e, me_args e) \<in> set (map (\<lambda>e. (me_kernel e, me_title e, me_args e)) lower)"
      using assms(2) by auto
    then show ?thesis unfolding menu_entries_Some(4) [OF assms(1)] by (auto simp: kernel_entries_def)
  qed
  then show ?thesis by (auto simp: root_words_kept)
qed

text \<open>What the installer has written is what the generator reads.\<close>

lemma first_value_lines:
  "list_all (\<lambda>l. LF \<notin> set l) ls \<Longrightarrow> first_value [k] (concat (map (\<lambda>l. l @ [LF]) ls)) =
     (case filter (prefix k) ls of [] \<Rightarrow> [] | l # _ \<Rightarrow> filter (\<lambda>c. c \<noteq> DQ) (drop (length k) l))"
proof -
  have "concat (map (\<lambda>l. map (\<lambda>k. drop (length k) l) (filter (\<lambda>k. prefix k l) [k])) ls)
      = map (drop (length k)) (filter (prefix k) ls)"
    by (induction ls) auto
  then show "list_all (\<lambda>l. LF \<notin> set l) ls \<Longrightarrow> ?thesis"
    by (simp add: first_value_def text_lines_concat split: list.split)
qed

definition installer_args :: "InstallerAcpiMode \<Rightarrow> string" where
  "installer_args acpi_mode =
     ''rootfstype=ext4 rootwait rootdelay=5 rw console=ttyS0 console=tty1 libata.force=noncq'' @
     (if acpi_mode = INSTALLER_ACPI_OFF then '' acpi=off noapic nolapic irqpoll pci=nomsi'' else [])"

lemma config_lines:
  assumes "installer_build_default_grub_config (Some r) acpi_mode n = Some text"
  shows "text = concat (map (\<lambda>l. l @ [LF])
    [''GRUB_TIMEOUT=10'', ''GRUB_TIMEOUT_STYLE=menu'', ''GRUB_DEFAULT=0'', ''GRUB_TERMINAL_INPUT=console'',
     ''GRUB_TERMINAL_OUTPUT=gfxterm'', ''GRUB_GFXMODE=1024x768x32,1024x768,800x600,auto'', ''GRUB_GFXPAYLOAD_LINUX=keep'',
     ''GRUB_CMDLINE_LINUX='' @ [DQ] @ r @ '' '' @ installer_args acpi_mode @ [DQ],
     ''GRUB_CMDLINE_LINUX_DEFAULT='' @ [DQ] @ ''quiet'' @ [DQ]])"
  using assms
  by (auto simp: installer_build_default_grub_config_def installer_args_def fits_def Let_def split: if_splits)

lemma config_words:
  assumes "installer_build_default_grub_config (Some r) acpi_mode n = Some text"
    and "LF \<notin> set r" and "DQ \<notin> set r"
  shows "words (kernel_cmdline (Some text)) = words r @ words (installer_args acpi_mode) @ [''quiet'']"
proof -
  have args: "LF \<notin> set (installer_args acpi_mode)" "DQ \<notin> set (installer_args acpi_mode)"
    by (simp_all add: installer_args_def)
  have undq: "DQ \<notin> set x \<Longrightarrow> filter (\<lambda>c. c \<noteq> DQ) x = x" for x
    by (induction x) auto
  from args have "first_value [''GRUB_CMDLINE_LINUX=''] text = r @ '' '' @ installer_args acpi_mode"
    unfolding config_lines [OF assms(1)] using assms(2,3)
    by (subst first_value_lines) (auto simp: undq)
  moreover have "first_value [''GRUB_CMDLINE_LINUX_DEFAULT=''] text = ''quiet''"
    unfolding config_lines [OF assms(1)] using assms(2) args
    by (subst first_value_lines) auto
  moreover have "word_ok ''quiet''" by code_simp
  ultimately show ?thesis by (simp add: kernel_cmdline_def words_unwords words_ok words_word)
qed

lemma installer_args_root_words:
  "filter root_word (words (installer_args acpi_mode) @ [''quiet'']) = [''rootfstype=ext4'']"
  by (cases acpi_mode) (simp_all only: installer_args_def, code_simp+)

lemma hand_over_result:
  "result (hand_over sh root_fstype root_dev) h = SwitchRoot \<longleftrightarrow>
   (let h1 = after (wait_for_root sh root_dev) h; h2 = after (mount_root sh root_fstype root_dev) h1
    in result (wait_for_root sh root_dev) h \<and> result (mount_root sh root_fstype root_dev) h1
       \<and> sh_test sh h2 (CHR ''x'') ''/newroot/sbin/init'' \<and> result (move_mounts_to_newroot sh) h2)"
  by (auto simp: hand_over_def or_panic_def panic_shell_def Let_def)

text \<open>
  From the defaults of GRUB to the root file system: when the installer has built the root argument of a
  device and the defaults of GRUB from it, the generator reads these defaults, an entry of its menu is booted and the
  kernel's command line is that entry's after words that say nothing about the root, then the initial
  RAM disk goes on with this device and the file system ext4, and reaches the real root just when the
  device appears, its mount is successful, \<^verbatim>\<open>/sbin/init\<close> is on it and the three moves succeed.
\<close>

lemma menu_entry_boots:
  assumes root_arg: "installer_build_root_arg (Some dev) n = Some r"
    and config: "installer_build_default_grub_config (Some r) acpi_mode m = Some text"
    and dev: "word_ok dev" "DQ \<notin> set dev"
    and defaults: "menu_defaults menu_sh menu_h = Some text"
    and menu: "result (menu_entries menu_sh sort_Vr) menu_h = Some (version, upper, lower)"
    and entry: "e \<in> set (upper @ lower)"
    and fs: "result (mount_essential_fs sh) h"
    and kernel: "e_open (sh_env sh) (after (mount_essential_fs sh) h) ''/proc/cmdline'' = Some cmdline"
      "words cmdline = loader @ words (me_args e)" "filter root_word loader = []"
  defines "h0 \<equiv> after (mount_essential_fs sh) h"
  defines "h1 \<equiv> after (wait_for_root sh dev) h0"
  defines "h2 \<equiv> h1 @ [Run [''mkdir'', ''-p'', ''/newroot'']]"
  defines "h3 \<equiv> h2 @ [Run [''mount'', ''-t'', ''ext4'', dev, ''/newroot'']]"
  shows "after (initramfs_init sh) h = after (hand_over sh ''ext4'' dev) h0 \<and>
    (result (initramfs_init sh) h = SwitchRoot \<longleftrightarrow>
       result (wait_for_root sh dev) h0
       \<and> e_run (sh_env sh) h2 [''mount'', ''-t'', ''ext4'', dev, ''/newroot''] = Exited 0
       \<and> sh_test sh h3 (CHR ''x'') ''/newroot/sbin/init'' \<and> result (move_mounts_to_newroot sh) h3)"
proof -
  have r: "r = ''root='' @ dev" and slash: "prefix ''/dev/'' dev"
    using root_arg by (auto simp: installer_build_root_arg_def fits_def split: if_splits)
  have "word_ok r" "DQ \<notin> set r" "LF \<notin> set r" "root_word r"
    using dev by (auto simp: r word_ok_def list_all_iff is_ifs_def root_word_def)
  then have "filter root_word (words (kernel_cmdline (Some text))) = [r, ''rootfstype=ext4'']"
    using config_words [OF config] installer_args_root_words [of acpi_mode] by (simp add: words_word)
  then have "filter root_word (words cmdline) = filter root_word [r, ''rootfstype=ext4'']"
    using entry_root_words [OF menu entry] kernel(2,3) defaults \<open>root_word r\<close> by (simp add: root_word_def)
  moreover have "words (unwords [r, ''rootfstype=ext4'']) = [r, ''rootfstype=ext4'']"
    by (intro words_unwords) (simp add: \<open>word_ok r\<close>, code_simp)
  ultimately have "parse_cmdline cmdline = parse_cmdline (unwords [r, ''rootfstype=ext4''])"
    by (intro parse_cmdline_root_words) simp
  also have "\<dots> = (dev, ''ext4'')"
    unfolding parse_cmdline_def \<open>words (unwords [r, ''rootfstype=ext4'']) = _\<close> by (simp add: r)
  finally have parsed: "parse_cmdline cmdline = (dev, ''ext4'')" .
  have "resolve_root_spec sh dev = ret dev" and "dev \<noteq> []"
    using slash by (auto simp: resolve_root_spec_def prefix_def)
  then have "result (initramfs_init sh) h = result (hand_over sh ''ext4'' dev) h0"
    and "after (initramfs_init sh) h = after (hand_over sh ''ext4'' dev) h0"
    using fs kernel(1) parsed by (simp_all add: initramfs_init_def or_panic_def h0_def)
  then show ?thesis
    by (simp add: hand_over_result Let_def mount_root_def mount_argv_def h1_def h2_def h3_def)
qed

section \<open>Properties\<close>

text \<open>
  C17. The entries at the top of the boot menu boot the newest kernel: it is among the installed ones and
  none of these is newer. The submenu offers just the installed kernels. The hypothesis is the contract
  of \<^verbatim>\<open>sort -Vr\<close>.
\<close>

theorem menu_boots_newest:
  assumes "version_sort cmp sort_Vr" and "result (menu_entries sh sort_Vr) h = Some (version, upper, lower)"
  defines "installed \<equiv> set (installed_kernels (sh_env sh) h (boot_prefix (sh_env sh) @ ''/boot''))"
  shows "(\<forall>e \<in> set upper. me_kernel e \<in> installed \<and> (\<forall>k \<in> installed. 0 \<le> cmp (me_kernel e) k)) \<and>
    upper \<noteq> [] \<and> me_kernel ` set lower = installed - {[]}"
proof -
  let ?vs = "sort_Vr (installed_kernels (sh_env sh) h (boot_prefix (sh_env sh) @ ''/boot''))"
  have vs: "set ?vs = installed" unfolding installed_def by (rule version_sort.sort_set [OF assms(1)])
  have menu: "menu_versions sh sort_Vr h = rev (dropWhile (\<lambda>v. v = []) (rev ?vs))"
    by (simp add: menu_versions_def kernel_versions_def)
  have "hd (menu_versions sh sort_Vr h) = hd ?vs" "?vs \<noteq> []"
    using blanks_dropped(2) [of ?vs] menu_entries_Some(1) [OF assms(2)] by (simp_all add: menu)
  moreover from this(2) have "hd ?vs \<in> installed" using vs by (metis list.set_sel(1))
  moreover have "0 \<le> cmp (hd ?vs) k" if "k \<in> installed" for k
    using version_sort.head_newest [OF assms(1), of _ "hd ?vs" "tl ?vs" k] \<open>?vs \<noteq> []\<close> that
    by (simp add: installed_def)
  moreover have "upper \<noteq> []"
    using menu_entries_Some(2) [OF assms(2)] by (auto simp: top_entries_def)
  moreover have "me_kernel ` set lower = installed - {[]}"
    using lower_kernels [OF assms(2)] blanks_dropped(1) [of ?vs] by (simp only: menu vs)
  ultimately show ?thesis using menu_entries_Some(3) [OF assms(2)] by simp
qed

text \<open>A disk with two kernels, the defaults of an installation, and the RAM disk started with its first entry.\<close>

definition example_grub :: string where
  "example_grub =
     (case installer_build_default_grub_config (Some ''root=/dev/sda1'') INSTALLER_ACPI_ON 1024 of None \<Rightarrow> [] | Some t \<Rightarrow> t)"

definition installed_shell :: shell where
  "installed_shell =
     \<lparr>sh_env = (listing_env []) \<lparr>
        e_open := \<lambda>h p. if p = ''/etc/default/grub'' then Some example_grub else None,
        e_lstat := \<lambda>h p. Inr \<lparr>st_kind = S_REG, st_mode = 420\<rparr>,
        e_opendir := \<lambda>h p. Some [''vmlinuz-6.9'', ''grub2'', ''vmlinuz-6.10'']\<rparr>,
      sh_test = \<lambda>h c p. p = ''/etc/default/grub''\<rparr>"

abbreviation newest_first :: "string list \<Rightarrow> string list" where
  "newest_first \<equiv> \<lambda>xs. rev (qsort compare_versions xs)"

definition example_menu :: "string \<times> menu_entry list \<times> menu_entry list" where
  "example_menu = (case result (menu_entries installed_shell newest_first) [] of None \<Rightarrow> ([], [], []) | Some m \<Rightarrow> m)"

lemma example_menu_made: "result (menu_entries installed_shell newest_first) []
   = Some (fst example_menu, fst (snd example_menu), snd (snd example_menu))"
proof -
  have "menu_versions installed_shell newest_first [] \<noteq> []" by code_simp
  then have "result (menu_entries installed_shell newest_first) [] \<noteq> None"
    by (simp add: menu_entries_def menu_versions_def readable_def kernel_versions_def emit_entry_def Let_def case_prod_unfold
        map_io_query)
  then show ?thesis by (auto simp: example_menu_def)
qed

theorem menu_boots_newest_witness:
  "version_sort compare_versions newest_first \<and> fst (snd example_menu) \<noteq> [] \<and>
   me_kernel ` set (snd (snd example_menu)) = {''6.9'', ''6.10''}"
proof -
  have "set (installed_kernels (sh_env installed_shell) [] (boot_prefix (sh_env installed_shell) @ ''/boot''))
      = {''6.9'', ''6.10''}"
    by code_simp
  then show ?thesis
    using menu_boots_newest [OF vs.version_sort_axioms example_menu_made] vs.version_sort_axioms by simp
qed

end
