(* ===== verification/ManPage.thy ===== *)
theory ManPage
  imports Shell PkgNames
begin

text \<open>
  The script \<^verbatim>\<open>usr/bin/man\<close>: the choice of a page, and the filter that shows it without the macros of troff.
\<close>

section \<open>The manual pages\<close>

datatype man_result = ManUsage | InvalidPage string | NoEntry string | ManShown string "string list"

definition is_page_char :: "char \<Rightarrow> bool" where
  "is_page_char c \<longleftrightarrow> isalnum c \<or> c \<in> set ''_.+-''"

definition is_section :: "string \<Rightarrow> bool" where
  "is_section s \<longleftrightarrow> s \<in> set (map (\<lambda>c. [c]) ''123456789'')"

text \<open>The section and the page of the arguments; further arguments are ignored.\<close>

fun man_arguments :: "string list \<Rightarrow> (string \<times> string) option" where
  "man_arguments [] = None"
| "man_arguments [page] = Some ([], page)"
| "man_arguments (a # b # _) = Some (if is_section a then (a, b) else ([], a))"

definition man_sections :: "string \<Rightarrow> string list" where
  "man_sections sec = (if sec \<noteq> [] then [sec] else map (\<lambda>c. [c]) ''123456789'')"

definition man_candidates :: "string \<Rightarrow> string \<Rightarrow> string list" where
  "man_candidates page sec =
     concat (map (\<lambda>d. [d @ sec @ ''/'' @ page @ ''.'' @ sec, d @ sec @ ''/'' @ page @ ''.'' @ sec @ ''.gz''])
       [''/usr/share/man/man'', ''/usr/local/share/man/man''])"

definition man_file :: "shell \<Rightarrow> string \<Rightarrow> string \<Rightarrow> string option io" where
  "man_file sh sec page =
     query (\<lambda>h. find (sh_test sh h (CHR ''f'')) (concat (map (man_candidates page) (man_sections sec))))"

section \<open>The filter\<close>

definition drop_blanks :: "string \<Rightarrow> string" where
  "drop_blanks s = dropWhile isspace s"

text \<open>A macro that is alone on its line, and one that is followed by a text.\<close>

definition lone_macro :: "string \<Rightarrow> string \<Rightarrow> string" where
  "lone_macro m l = (if prefix m l \<and> drop_blanks (drop (length m) l) = [] then [] else l)"

definition text_macro :: "string \<Rightarrow> string \<Rightarrow> string \<Rightarrow> string" where
  "text_macro m new l = (if prefix m l then new @ drop_blanks (drop (length m) l) else l)"

abbreviation BSL :: char where "BSL \<equiv> CHR 0x5C"

fun strip_fonts :: "char list \<Rightarrow> string \<Rightarrow> string" where
  "strip_fonts fonts (a # b # c # s) =
     (if a = BSL \<and> b = CHR ''f'' \<and> c \<in> set fonts then strip_fonts fonts s else a # strip_fonts fonts (b # c # s))"
| "strip_fonts fonts s = s"

fun plain_hyphens :: "string \<Rightarrow> string" where
  "plain_hyphens (a # b # s) =
     (if a = BSL \<and> b = CHR ''-'' then CHR ''-'' # plain_hyphens s else a # plain_hyphens (b # s))"
| "plain_hyphens s = s"

definition render_line :: "string \<Rightarrow> string option" where
  "render_line l =
     (if prefix (''.'' @ [BSL, DQ]) l then None
      else
        let l = (if prefix ''.TH '' l then [] else l);
            l = text_macro ''.SH'' [LF] l;
            l = text_macro ''.SS'' ''  '' l;
            l = lone_macro ''.TP'' l;
            l = lone_macro ''.PP'' l;
            l = lone_macro ''.P'' l;
            l = text_macro ''.B'' [] l;
            l = text_macro ''.I'' [] l;
            l = strip_fonts ''BRIP'' l;
            l = strip_fonts ''P'' l
        in Some (plain_hyphens l))"

definition render_page :: "string list \<Rightarrow> string list" where
  "render_page ls = List.map_filter render_line ls"

definition man_content :: "shell \<Rightarrow> string \<Rightarrow> string io" where
  "man_content sh file =
     (if suffix ''.gz'' file
      then do {
        r \<leftarrow> capture_cmd (sh_env sh) [''gzip'', ''-dc'', file];
        ret (output_of r)
      }
      else do {
        c \<leftarrow> open_file (sh_env sh) file;
        ret (case c of None \<Rightarrow> [] | Some t \<Rightarrow> t)
      })"

definition man :: "shell \<Rightarrow> string list \<Rightarrow> man_result io" where
  "man sh args =
     (case man_arguments args of
        None \<Rightarrow> ret ManUsage
      | Some (sec, page) \<Rightarrow>
          if page = [] \<or> list_ex (\<lambda>c. \<not> is_page_char c) page then ret (InvalidPage page)
          else do {
            file \<leftarrow> man_file sh sec page;
            (case file of
               None \<Rightarrow> ret (NoEntry page)
             | Some f \<Rightarrow> do { c \<leftarrow> man_content sh f; ret (ManShown f (render_page (text_lines c))) })
          })"

section \<open>Lemmas\<close>

lemma find_Some_split: "find P xs = Some x \<Longrightarrow> \<exists>pre post. xs = pre @ x # post \<and> P x \<and> list_all (\<lambda>y. \<not> P y) pre"
proof (induction xs)
  case (Cons y ys)
  show ?case
  proof (cases "P y")
    case False
    then obtain pre post where "ys = pre @ x # post" "P x" "list_all (\<lambda>y. \<not> P y) pre" using Cons by auto
    with False show ?thesis by (intro exI [of _ "y # pre"] exI [of _ post]) auto
  qed (use Cons.prems in \<open>auto intro: exI [of _ "[]"]\<close>)
qed simp

lemma man_Shown:
  assumes "result (man sh args) h = ManShown f ls"
  obtains sec page where "man_arguments args = Some (sec, page)" "page \<noteq> []" "list_all is_page_char page"
    "find (sh_test sh h (CHR ''f'')) (concat (map (man_candidates page) (man_sections sec))) = Some f"
    "ls = render_page (text_lines (result (man_content sh f) h))"
  using assms
  by (auto simp: man_def man_file_def list_ex_iff list_all_iff split: option.splits prod.splits if_splits)

lemma page_char_no_slash: "list_all is_page_char page \<Longrightarrow> CHR ''/'' \<notin> set page"
  by (auto simp: list_all_iff is_page_char_def ctype_defs)

text \<open>A line of plain text is shown as it is.\<close>

lemma strip_fonts_plain [simp]: "BSL \<notin> set l \<Longrightarrow> strip_fonts fonts l = l"
  by (induction fonts l rule: strip_fonts.induct) auto

lemma plain_hyphens_plain [simp]: "BSL \<notin> set l \<Longrightarrow> plain_hyphens l = l"
  by (induction l rule: plain_hyphens.induct) auto

lemma other_macros [simp]:
  "\<not> prefix m l \<Longrightarrow> text_macro m new l = l" "\<not> prefix m l \<Longrightarrow> lone_macro m l = l"
  by (simp_all add: text_macro_def lone_macro_def)

lemma render_plain:
  assumes "\<not> prefix ''.'' l" and "BSL \<notin> set l"
  shows "render_line l = Some l"
proof -
  have "\<not> prefix (CHR ''.'' # m) l" for m using assms(1) by (cases l) auto
  then show ?thesis using assms(2) by (simp add: render_line_def)
qed

text \<open>The macro for bold and roman words is taken for the one for bold words, and its second letter is shown.\<close>

lemma render_bold_roman:
  assumes "BSL \<notin> set l"
  shows "render_line (''.BR '' @ l) = Some (''R '' @ l)"
proof -
  have "text_macro ''.B'' [] (''.BR '' @ l) = ''R '' @ l"
    by (simp add: text_macro_def drop_blanks_def isspace_def less_eq_char_def)
  then show ?thesis using assms by (simp add: render_line_def)
qed

section \<open>Properties\<close>

text \<open>
  The page that \<^verbatim>\<open>man\<close> shows is the first file, by section, directory and form, that is one of the places
  of a page whose name has no slash; nothing is read from other places, and the only program that is
  started is \<^verbatim>\<open>gzip\<close>, on this file.
\<close>

theorem man_shows_first_page:
  assumes "result (man sh args) h = ManShown f ls"
  shows "(\<exists>sec page pre post. concat (map (man_candidates page) (man_sections sec)) = pre @ f # post \<and>
      man_arguments args = Some (sec, page) \<and> page \<noteq> [] \<and> CHR ''/'' \<notin> set page \<and>
      sh_test sh h (CHR ''f'') f \<and> list_all (\<lambda>y. \<not> sh_test sh h (CHR ''f'') y) pre) \<and>
    (after (man sh args) h = h \<or> after (man sh args) h = h @ [Run [''gzip'', ''-dc'', f]])"
proof -
  obtain sec page where m: "man_arguments args = Some (sec, page)" "page \<noteq> []" "list_all is_page_char page"
      and f: "find (sh_test sh h (CHR ''f'')) (concat (map (man_candidates page) (man_sections sec))) = Some f"
    by (rule man_Shown [OF assms])
  have "after (man sh args) h = h \<or> after (man sh args) h = h @ [Run [''gzip'', ''-dc'', f]]"
    using m f by (auto simp: man_def man_file_def man_content_def list_ex_iff list_all_iff)
  with m f page_char_no_slash [OF m(3)] show ?thesis using find_Some_split [OF f] by blast
qed

definition manual_shell :: shell where
  "manual_shell =
     \<lparr>sh_env = (listing_env []) \<lparr>e_open := \<lambda>h p. Some (''.B syspckg'' @ [LF] @ ''text'' @ [LF])\<rparr>,
      sh_test = \<lambda>h c p. p = ''/usr/share/man/man8/syspckg.8''\<rparr>"

theorem man_shows_first_page_witness:
  "result (man manual_shell [''syspckg'']) [] = ManShown ''/usr/share/man/man8/syspckg.8'' [''syspckg'', ''text''] \<and>
   sh_test manual_shell [] (CHR ''f'') ''/usr/share/man/man8/syspckg.8''"
proof -
  have shown: "result (man manual_shell [''syspckg'']) [] = ManShown ''/usr/share/man/man8/syspckg.8'' [''syspckg'', ''text'']"
    by code_simp
  then show ?thesis using man_shows_first_page [OF shown] by blast
qed

end
