(* ===== verification/Sysroot.thy ===== *)
theory Sysroot
  imports Shell Throwing
begin

text \<open>
  The script \<^verbatim>\<open>tools/syspckg/bootstrap-libdnf5-sysroot.sh\<close>, which prepares the headers and libraries the package manager
  is built with. It runs with \<^verbatim>\<open>set -e\<close>: a command that fails ends it, which is the exception of
  the model. Signals are not modelled.
\<close>

section \<open>Commands of a script that stops at errors\<close>

definition cmd :: "shell \<Rightarrow> string list \<Rightarrow> unit xio" where
  "cmd sh argv = do { ok \<leftarrow> run sh argv; if ok then okx () else throw [] }"

definition need :: "shell \<Rightarrow> string \<Rightarrow> unit xio" where
  "need sh c = do { ok \<leftarrow> run sh [''command'', ''-v'', c]; if ok then okx () else throw (''ERR: Missing command: '' @ c) }"

section \<open>What a complete sysroot has\<close>

definition lib_dirs :: "string \<Rightarrow> string list" where
  "lib_dirs out = [out @ ''/lib/x86_64-linux-gnu'', out @ ''/usr/lib/x86_64-linux-gnu'']"

definition runtime_lib_present :: "shell \<Rightarrow> string \<Rightarrow> history \<Rightarrow> string \<Rightarrow> bool" where
  "runtime_lib_present sh out h pattern =
     list_ex (\<lambda>d. list_ex (\<lambda>p. case e_lstat (sh_env sh) h p of
         Inr st \<Rightarrow> st_kind st = S_REG \<or> st_kind st = S_LNK | Inl _ \<Rightarrow> False)
       (e_glob (sh_env sh) h (d @ ''/'' @ pattern))) (lib_dirs out)"

definition sysroot_complete :: "shell \<Rightarrow> string \<Rightarrow> history \<Rightarrow> bool" where
  "sysroot_complete sh out h \<longleftrightarrow>
     sh_test sh h (CHR ''f'') (out @ ''/usr/include/libdnf5/base/base.hpp'') \<and>
     list_all (runtime_lib_present sh out h)
       [''libdnf5.so*'', ''libc.so.6'', ''libstdc++.so.6'', ''libjson-c.so.*'', ''libsolvext.so.*'', ''libxml2.so.*'',
        ''liblua*.so.*'', ''libyaml*.so.*'', ''librpm_sequoia.so.*'', ''libcurl*.so.*'', ''libgpgme.so.*''] \<and>
     sh_test sh h (CHR ''x'') (out @ ''/usr/bin/gpg'') \<and>
     sh_test sh h (CHR ''x'') (out @ ''/usr/bin/gpgconf'') \<and>
     sh_test sh h (CHR ''f'') (out @ ''/usr/lib/rpm/rpmrc'') \<and>
     sh_test sh h (CHR ''f'') (out @ ''/usr/lib/rpm/macros'') \<and>
     sh_test sh h (CHR ''f'') (out @ ''/etc/ssl/certs/ca-certificates.crt'')"

section \<open>The keyring\<close>

abbreviation SYSTEM_DEBIAN_KEYRING :: string where
  "SYSTEM_DEBIAN_KEYRING \<equiv> ''/usr/share/keyrings/debian-archive-keyring.gpg''"

definition keyring_tmp :: "shell \<Rightarrow> string xio" where
  "keyring_tmp sh =
     (let dir = (case e_getenv (sh_env sh) ''TMPDIR'' of Some d \<Rightarrow> if d = [] then ''/tmp'' else d | None \<Rightarrow> ''/tmp'')
      in do {
        r \<leftarrow> capture_cmd (sh_env sh) [''mktemp'', ''-d'', dir @ ''/syspckg-debian-keyring.XXXXXX''];
        (case r of
           Ran out status \<Rightarrow> if status = Exited 0 then okx (substituted out) else throw []
         | _ \<Rightarrow> throw [])
      })"

text \<open>The trap that is run at every exit.\<close>

definition with_cleanup :: "shell \<Rightarrow> string \<Rightarrow> 'a xio \<Rightarrow> 'a xio" where
  "with_cleanup sh tmp m = do {
     r \<leftarrow> m;
     there \<leftarrow> test sh (CHR ''d'') tmp;
     _ \<leftarrow> (if tmp \<noteq> [] \<and> there then run sh [''rm'', ''-rf'', tmp] else ret False);
     ret r
   }"

text \<open>
  The subshell is the left side of \<^verbatim>\<open>||\<close>, where \<^verbatim>\<open>set -e\<close> has no effect: the download is tried even if the
  change of the directory fails.
\<close>

definition fetch_keyring :: "shell \<Rightarrow> string \<Rightarrow> string xio" where
  "fetch_keyring sh tmp = do {
     _ \<leftarrow> run sh [''cd'', tmp];
     ok \<leftarrow> run sh [''apt-get'', ''download'', ''debian-archive-keyring''];
     if \<not> ok then throw ''ERR: Unable to download package debian-archive-keyring from host APT sources.''
     else do {
       deb \<leftarrow> query (\<lambda>h. find (sh_test sh h (CHR ''f'')) (e_glob (sh_env sh) h (tmp @ ''/debian-archive-keyring_*.deb'')));
       (case deb of
          None \<Rightarrow> throw ''ERR: Host APT reported success but no debian-archive-keyring .deb was downloaded.''
        | Some d \<Rightarrow>
            seqx (cmd sh [''mkdir'', ''-p'', tmp @ ''/extracted''])
              (seqx (cmd sh [''dpkg-deb'', ''-x'', d, tmp @ ''/extracted'']) (do {
                there \<leftarrow> test sh (CHR ''f'') (tmp @ ''/extracted'' @ SYSTEM_DEBIAN_KEYRING);
                if there then okx (tmp @ ''/extracted'' @ SYSTEM_DEBIAN_KEYRING)
                else throw ''ERR: Downloaded debian-archive-keyring package does not contain the Debian archive keyring.''
              })))
     }
   }"

section \<open>Filling the sysroot\<close>

definition apt_common :: "shell \<Rightarrow> string \<Rightarrow> string \<Rightarrow> string list \<Rightarrow> unit xio" where
  "apt_common sh out arch args =
     (let apt = out @ ''/.apt'' in
      cmd sh ([''apt-get'', ''-o'', ''Dir::Etc::sourcelist='' @ apt @ ''/sources.list'', ''-o'', ''Dir::Etc::sourceparts=-'',
        ''-o'', ''Dir::State='' @ apt @ ''/state'', ''-o'', ''Dir::State::status='' @ apt @ ''/state/status'',
        ''-o'', ''Dir::State::lists='' @ apt @ ''/lists'', ''-o'', ''Dir::Cache='' @ apt @ ''/cache'',
        ''-o'', ''Dir::Cache::archives='' @ apt @ ''/cache/archives'', ''-o'', ''APT::Architecture='' @ arch,
        ''-o'', ''APT::Architectures::='' @ arch, ''-o'', ''Acquire::Languages=none'',
        ''-o'', ''APT::Install-Recommends=false'', ''-o'', ''APT::Install-Suggests=false''] @ args))"

fun extract_debs :: "shell \<Rightarrow> string \<Rightarrow> string list \<Rightarrow> nat \<Rightarrow> nat xio" where
  "extract_debs sh out [] count = okx count"
| "extract_debs sh out (deb # debs) count = do {
     there \<leftarrow> test sh (CHR ''f'') deb;
     if there then seqx (cmd sh [''dpkg-deb'', ''-x'', deb, out]) (extract_debs sh out debs (count + 1))
     else extract_debs sh out debs count
   }"

definition append_cert :: "shell \<Rightarrow> string \<Rightarrow> string \<Rightarrow> unit xio" where
  "append_cert sh bundle cert = do {
     content \<leftarrow> open_file (sh_env sh) cert;
     (case content of
        None \<Rightarrow> throw []
      | Some c \<Rightarrow> seqx (call_or_throw (sh_env sh) (Append bundle c) []) (call_or_throw (sh_env sh) (Append bundle [LF]) []))
   }"

definition build_ca_bundle :: "shell \<Rightarrow> (string list \<Rightarrow> string list) \<Rightarrow> string \<Rightarrow> unit xio" where
  "build_ca_bundle sh sort_lines out =
     (let bundle = out @ ''/etc/ssl/certs/ca-certificates.crt''; certs = out @ ''/usr/share/ca-certificates'' in
      seqx (cmd sh [''mkdir'', ''-p'', out @ ''/etc/ssl/certs''])
        (seqx (call_or_throw (sh_env sh) (WriteFile bundle []) []) (do {
          there \<leftarrow> test sh (CHR ''d'') certs;
          if \<not> there then okx ()
          else do {
            r \<leftarrow> capture_cmd (sh_env sh) [''find'', certs, ''-type'', ''f'', ''-name'', ''*.crt'', ''-print''];
            eachx (append_cert sh bundle) (sort_lines (text_lines (output_of r)))
          }
        })))"

definition sources_line :: "string \<Rightarrow> string \<Rightarrow> string" where
  "sources_line arch keyring =
     ''deb [arch='' @ arch @ '' signed-by='' @ keyring @ ''] https://deb.debian.org/debian forky main'' @ [LF]"

definition check_sysroot :: "shell \<Rightarrow> string \<Rightarrow> unit xio" where
  "check_sysroot sh out = do {
     headers \<leftarrow> test sh (CHR ''f'') (out @ ''/usr/include/libdnf5/base/base.hpp'');
     complete \<leftarrow> query (sysroot_complete sh out);
     if \<not> headers then throw ''ERR: libdnf5 headers were not extracted''
     else if \<not> complete then throw ''ERR: libdnf5 sysroot is incomplete after dependency extraction''
     else okx ()
   }"

definition fill_sysroot ::
  "shell \<Rightarrow> (string list \<Rightarrow> string list) \<Rightarrow> string \<Rightarrow> string \<Rightarrow> string \<Rightarrow> unit xio" where
  "fill_sysroot sh sort_lines out arch keyring =
     (let apt = out @ ''/.apt'' in
      seqx (cmd sh [''rm'', ''-rf'', out])
      (seqx (cmd sh [''mkdir'', ''-p'', out, apt @ ''/lists/partial'', apt @ ''/cache/archives/partial'', apt @ ''/state''])
      (seqx (call_or_throw (sh_env sh) (WriteFile (apt @ ''/state/status'') []) [])
      (seqx (call_or_throw (sh_env sh) (WriteFile (apt @ ''/sources.list'') (sources_line arch keyring)) [])
      (seqx (apt_common sh out arch [''update''])
      (seqx (apt_common sh out arch
         [''--download-only'', ''-y'', ''--no-install-recommends'', ''install'', ''libdnf5-dev'', ''libdnf5-2'', ''rpm'',
          ''rpm-common'', ''ca-certificates'', ''gpg'', ''gpgconf''])
      (bindx (lift (glob (sh_env sh) (apt @ ''/cache/archives/*.deb''))) (\<lambda>debs.
       bindx (extract_debs sh out debs 0) (\<lambda>count.
       seqx (build_ca_bundle sh sort_lines out)
       (seqx (if count = 0 then throw ''ERR: No packages were downloaded for the libdnf5 sysroot'' else okx ())
       (seqx (cmd sh [''rm'', ''-rf'', apt])
       (check_sysroot sh out))))))))))))"

definition bootstrap_sysroot ::
  "shell \<Rightarrow> (string list \<Rightarrow> string list) \<Rightarrow> string \<Rightarrow> string \<Rightarrow> unit xio" where
  "bootstrap_sysroot sh sort_lines out arch =
     seqx (need sh ''apt-get'') (seqx (need sh ''dpkg-deb'') (do {
       complete \<leftarrow> query (sysroot_complete sh out);
       if complete then okx ()
       else do {
         there \<leftarrow> test sh (CHR ''f'') SYSTEM_DEBIAN_KEYRING;
         if there then fill_sysroot sh sort_lines out arch SYSTEM_DEBIAN_KEYRING
         else bindx (keyring_tmp sh) (\<lambda>tmp.
           with_cleanup sh tmp (bindx (fetch_keyring sh tmp) (fill_sysroot sh sort_lines out arch)))
       }
     }))"

section \<open>Lemmas\<close>

text \<open>A script that ends with a check has passed it in its last state.\<close>

definition ends_with :: "(history \<Rightarrow> bool) \<Rightarrow> 'a xio \<Rightarrow> bool" where
  "ends_with P m \<longleftrightarrow> (\<forall>h x. result m h = Inr x \<longrightarrow> P (after m h))"

lemma ends_with_seqx: "ends_with P k \<Longrightarrow> ends_with P (seqx m k)"
  unfolding ends_with_def by (auto split: sum.splits)

lemma ends_with_bindx: "(\<And>x. ends_with P (f x)) \<Longrightarrow> ends_with P (bindx m f)"
  unfolding ends_with_def by (auto split: sum.splits)

lemma fill_ends_complete: "ends_with (sysroot_complete sh out) (fill_sysroot sh sort_lines out arch keyring)"
proof -
  have "ends_with (sysroot_complete sh out) (check_sysroot sh out)"
    by (simp add: ends_with_def check_sysroot_def)
  then show ?thesis unfolding fill_sysroot_def Let_def by (intro ends_with_seqx ends_with_bindx)
qed

lemma with_cleanup_simps [simp]:
  "result (with_cleanup sh tmp m) h = result m h"
  "after (with_cleanup sh tmp m) h =
     after m h @ (if tmp \<noteq> [] \<and> sh_test sh (after m h) (CHR ''d'') tmp then [Run [''rm'', ''-rf'', tmp]] else [])"
  by (simp_all add: with_cleanup_def)

lemma need_simps [simp]:
  "after (need sh c) h = h @ [Run [''command'', ''-v'', c]]"
  "result (need sh c) h = Inr () \<longleftrightarrow> e_run (sh_env sh) h [''command'', ''-v'', c] = Exited 0"
  by (simp_all add: need_def)

text \<open>The two tests for the tools that come first.\<close>

abbreviation TOOLS :: history where
  "TOOLS \<equiv> [Run [''command'', ''-v'', ''apt-get''], Run [''command'', ''-v'', ''dpkg-deb'']]"

lemma bootstrap_sysroot_Inr:
  assumes "result (bootstrap_sysroot sh sort_lines out arch) h = Inr ()"
  obtains "sysroot_complete sh out (h @ TOOLS)" "after (bootstrap_sysroot sh sort_lines out arch) h = h @ TOOLS"
  | "\<not> sysroot_complete sh out (h @ TOOLS)"
    "\<exists>h'. sysroot_complete sh out h' \<and>
      (after (bootstrap_sysroot sh sort_lines out arch) h = h' \<or>
       (\<exists>tmp. after (bootstrap_sysroot sh sort_lines out arch) h = h' @ [Run [''rm'', ''-rf'', tmp]]))"
proof (cases "sysroot_complete sh out (h @ TOOLS)")
  case True
  then show ?thesis using that assms unfolding bootstrap_sysroot_def by (simp del: result_x(4) after_x(4) add: seqx_Inr)
next
  case False
  let ?fill = "fill_sysroot sh sort_lines out arch" and ?b = "bootstrap_sysroot sh sort_lines out arch"
  have fetched: "ends_with (sysroot_complete sh out) (bindx (fetch_keyring sh tmp) ?fill)" for tmp
    by (intro ends_with_bindx fill_ends_complete)
  have "\<exists>h'. sysroot_complete sh out h' \<and> (after ?b h = h' \<or> (\<exists>tmp. after ?b h = h' @ [Run [''rm'', ''-rf'', tmp]]))"
  proof (cases "sh_test sh (h @ TOOLS) (CHR ''f'') SYSTEM_DEBIAN_KEYRING")
    case True
    then show ?thesis using False assms fill_ends_complete [of sh out sort_lines arch SYSTEM_DEBIAN_KEYRING]
      unfolding bootstrap_sysroot_def ends_with_def by (auto simp del: result_x(4) after_x(4) simp add: seqx_Inr)
  next
    case no_keyring: False
    then obtain tmp where "result (keyring_tmp sh) (h @ TOOLS) = Inr tmp"
        and "result (bindx (fetch_keyring sh tmp) ?fill) (after (keyring_tmp sh) (h @ TOOLS)) = Inr ()"
      using False assms unfolding bootstrap_sysroot_def
      by (auto simp del: result_x(3,4) after_x(3,4) simp add: seqx_Inr bindx_Inr)
    moreover from this have "after ?b h
        = after (with_cleanup sh tmp (bindx (fetch_keyring sh tmp) ?fill)) (after (keyring_tmp sh) (h @ TOOLS))"
      using False no_keyring assms unfolding bootstrap_sysroot_def
      by (auto simp del: result_x(3,4) after_x(3,4) with_cleanup_simps simp add: seqx_Inr bindx_Inr)
    ultimately show ?thesis
      using fetched [of tmp] unfolding ends_with_def with_cleanup_simps
      by (intro exI [of _ "after (bindx (fetch_keyring sh tmp) ?fill) (after (keyring_tmp sh) (h @ TOOLS))"]) auto
  qed
  with False that(2) show ?thesis by blast
qed

section \<open>Properties\<close>


text \<open>A host with the keyring, where the first archive brings everything.\<close>

definition extracted :: "history \<Rightarrow> bool" where
  "extracted h = list_ex (\<lambda>e. case e of Run (p # _) \<Rightarrow> p = ''dpkg-deb'' | _ \<Rightarrow> False) h"

definition host_shell :: shell where
  "host_shell =
     \<lparr>sh_env = (listing_env []) \<lparr>
        e_glob := \<lambda>h p. [p],
        e_lstat := \<lambda>h p. if extracted h then Inr \<lparr>st_kind = S_REG, st_mode = 420\<rparr> else Inl ENOENT\<rparr>,
      sh_test = \<lambda>h c p. p = SYSTEM_DEBIAN_KEYRING \<or> suffix ''.deb'' p \<or> extracted h\<rparr>"


end
