(* ===== verification/KernelBuild.thy ===== *)
theory KernelBuild
  imports Sysroot
begin

text \<open>
  The targets \<^verbatim>\<open>kernel\<close> and \<^verbatim>\<open>busybox\<close> of the \<^verbatim>\<open>Makefile\<close>: the tools they ask for, how the configurations are changed and
  what is built. The shell runs with \<^verbatim>\<open>set -e\<close>. Messages are not modelled.
\<close>

section \<open>The variables and the common functions\<close>

record build =
  b_project_dir :: string
  b_out_dir :: string
  b_toolcache_dir :: string
  b_kernel_dir :: string
  b_busybox_dir :: string
  b_jobs :: string
  b_cross_compile :: string
  b_defconfig :: string
  b_kernel_name :: string

definition need_cmd :: "shell \<Rightarrow> string \<Rightarrow> unit xio" where
  "need_cmd sh c = do { ok \<leftarrow> run sh [''command'', ''-v'', c]; if ok then okx () else throw (''Missing command: '' @ c) }"

definition test_or_die :: "shell \<Rightarrow> char \<Rightarrow> string \<Rightarrow> string \<Rightarrow> unit xio" where
  "test_or_die sh flag path reason = do { there \<leftarrow> test sh flag path; if there then okx () else throw reason }"

definition require_source_dirs :: "shell \<Rightarrow> build \<Rightarrow> unit xio" where
  "require_source_dirs sh b =
     seqx (if b_kernel_dir b = [] then throw ''No Linux source tree found.''
           else test_or_die sh (CHR ''d'') (b_kernel_dir b) ''No Linux source tree found.'')
       (test_or_die sh (CHR ''d'') (b_busybox_dir b) (''Directory not found: '' @ b_busybox_dir b))"

definition check_toolchain :: "shell \<Rightarrow> build \<Rightarrow> unit xio" where
  "check_toolchain sh b =
     (if b_cross_compile b = [] then okx ()
      else seqx (need_cmd sh (b_cross_compile b @ ''gcc'')) (do {
        r \<leftarrow> capture_cmd (sh_env sh) [b_cross_compile b @ ''gcc'', ''-dumpmachine''];
        if sublist ''x86_64'' (substituted (output_of r)) then okx ()
        else throw ''CROSS_COMPILE toolchain is not x86_64''
      }))"

definition make_argv :: "build \<Rightarrow> string \<Rightarrow> string list \<Rightarrow> string list" where
  "make_argv b dir args =
     [''make'', ''-j'' @ b_jobs b, ''-C'', dir, ''ARCH=x86_64''] @
     (if b_cross_compile b \<noteq> [] then [''CROSS_COMPILE='' @ b_cross_compile b] else []) @ args"

definition kmake :: "shell \<Rightarrow> build \<Rightarrow> string list \<Rightarrow> unit xio" where
  "kmake sh b args = cmd sh (make_argv b (b_kernel_dir b) args)"

definition bbmake :: "shell \<Rightarrow> build \<Rightarrow> string list \<Rightarrow> unit xio" where
  "bbmake sh b args = cmd sh (make_argv b (b_busybox_dir b) args)"

section \<open>The configuration of the kernel\<close>

text \<open>\<^verbatim>\<open>while read\<close> takes only lines that end with a line break.\<close>

definition read_lines :: "string \<Rightarrow> string list" where
  "read_lines t = (if t = [] \<or> last t = LF then text_lines t else butlast (text_lines t))"

datatype config_line = ConfigSkip | ConfigSet string string | ConfigInvalid

text \<open>The pattern \<^verbatim>\<open>pre*post\<close> of a \<^verbatim>\<open>case\<close>: the two parts do not overlap.\<close>

definition around :: "string \<Rightarrow> string \<Rightarrow> string \<Rightarrow> bool" where
  "around pre post s \<longleftrightarrow> prefix pre s \<and> suffix post (drop (length pre) s)"

definition option_name :: "string \<Rightarrow> string" where
  "option_name line = takeWhile (\<lambda>c. c \<noteq> CHR ''='') line"

definition config_command :: "string \<Rightarrow> config_line" where
  "config_command line =
     (if line = [] then ConfigSkip
      else if around ''# CONFIG_'' '' is not set'' line
      then ConfigSet ''--disable'' (take (length line - 13) (drop 2 line))
      else if prefix ''#'' line then ConfigSkip
      else if around ''CONFIG_'' ''=y'' line then ConfigSet ''--enable'' (option_name line)
      else if around ''CONFIG_'' ''=m'' line then ConfigSet ''--module'' (option_name line)
      else if around ''CONFIG_'' ''=n'' line then ConfigSet ''--disable'' (option_name line)
      else ConfigInvalid)"

definition config_argv :: "build \<Rightarrow> string \<Rightarrow> string \<Rightarrow> string list" where
  "config_argv b flag opt = [b_kernel_dir b @ ''/scripts/config'', ''--file'', b_kernel_dir b @ ''/.config'', flag, opt]"

definition config_step :: "shell \<Rightarrow> build \<Rightarrow> string \<Rightarrow> unit xio" where
  "config_step sh b line =
     (case config_command line of
        ConfigSkip \<Rightarrow> okx ()
      | ConfigSet flag opt \<Rightarrow> cmd sh (config_argv b flag opt)
      | ConfigInvalid \<Rightarrow> throw (''Invalid kernel config line: '' @ line))"

definition fragment_path :: "build \<Rightarrow> string" where
  "fragment_path b = b_project_dir b @ ''/filesforlinux/kernel.config''"

definition prepare_kernel :: "shell \<Rightarrow> build \<Rightarrow> unit xio" where
  "prepare_kernel sh b =
     seqx (require_source_dirs sh b) (seqx (need_cmd sh ''make'') (seqx (need_cmd sh ''gcc'') (seqx (check_toolchain sh b)
       (seqx (cmd sh [''mkdir'', ''-p'', b_out_dir b, b_toolcache_dir b]) (kmake sh b [b_defconfig b])))))"

definition configure_kernel :: "shell \<Rightarrow> build \<Rightarrow> unit xio" where
  "configure_kernel sh b = do {
     there \<leftarrow> test sh (CHR ''f'') (fragment_path b);
     if \<not> there then okx ()
     else seqx (test_or_die sh (CHR ''x'') (b_kernel_dir b @ ''/scripts/config'')
         (''Missing kernel config tool: '' @ b_kernel_dir b @ ''/scripts/config'')) (do {
       content \<leftarrow> open_file (sh_env sh) (fragment_path b);
       (case content of
          None \<Rightarrow> throw []
        | Some t \<Rightarrow> seqx (eachx (config_step sh b) (read_lines t)) (kmake sh b [''olddefconfig'']))
     })
   }"

definition make_kernel :: "shell \<Rightarrow> build \<Rightarrow> unit xio" where
  "make_kernel sh b =
     seqx (prepare_kernel sh b) (seqx (configure_kernel sh b) (seqx (kmake sh b [])
       (seqx (test_or_die sh (CHR ''f'') (b_kernel_dir b @ ''/arch/x86/boot/bzImage'') ''Kernel image not found'')
         (cmd sh [''cp'', ''-f'', b_kernel_dir b @ ''/arch/x86/boot/bzImage'', b_out_dir b @ ''/'' @ b_kernel_name b]))))"

text \<open>The fragment that is shipped.\<close>

definition kernel_config :: "string list" where
  "kernel_config =
     [''CONFIG_EXT2_FS=y'', ''CONFIG_PATA_ATIIXP=y'', ''CONFIG_FB=y'', ''CONFIG_FB_EFI=y'', ''CONFIG_FRAMEBUFFER_CONSOLE=y'',
      ''CONFIG_VT_CONSOLE=y'', ''CONFIG_VGA_CONSOLE=y'', ''CONFIG_DRM=y'', ''CONFIG_DRM_KMS_HELPER=y'',
      ''CONFIG_DRM_FBDEV_EMULATION=y'', ''CONFIG_DRM_SIMPLEDRM=y'', ''CONFIG_DRM_BOCHS=y'', ''CONFIG_DRM_VIRTIO_GPU=y'',
      ''CONFIG_DRM_I915=y'', ''CONFIG_DRM_AMDGPU=y'', ''CONFIG_VT=y'', ''CONFIG_INPUT_EVDEV=y'',
      ''# Disable VMware/Hyper-V guest modules to avoid vmw_vmci/vmbus warnings'',
      ''CONFIG_VMWARE_VMCI=n'', ''CONFIG_HYPERV=n'', ''CONFIG_HYPERVISOR_GUEST=n'']"

section \<open>The configuration of BusyBox\<close>

definition replace_start :: "string \<Rightarrow> string \<Rightarrow> string list \<Rightarrow> string list" where
  "replace_start old new ls = map (\<lambda>l. if prefix old l then new @ drop (length old) l else l) ls"

definition static_busybox :: "string list \<Rightarrow> string list" where
  "static_busybox ls =
     (if list_ex (prefix ''# CONFIG_STATIC is not set'') ls
      then replace_start ''# CONFIG_STATIC is not set'' ''CONFIG_STATIC=y'' ls
      else if list_ex (prefix ''CONFIG_STATIC='') ls
      then map (\<lambda>l. if prefix ''CONFIG_STATIC='' l then ''CONFIG_STATIC=y'' else l) ls
      else ls @ [[], ''CONFIG_STATIC=y''])"

definition edit_busybox_config :: "string list \<Rightarrow> string list" where
  "edit_busybox_config ls =
     replace_start ''# CONFIG_SETSID is not set'' ''CONFIG_SETSID=y''
       (replace_start ''CONFIG_TC=y'' ''# CONFIG_TC is not set'' (static_busybox ls))"

text \<open>The edits in place are one write here.\<close>

definition make_busybox :: "shell \<Rightarrow> build \<Rightarrow> unit xio" where
  "make_busybox sh b =
     (let config = b_busybox_dir b @ ''/.config'' in
      seqx (require_source_dirs sh b) (seqx (need_cmd sh ''make'') (seqx (check_toolchain sh b)
      (seqx (cmd sh [''mkdir'', ''-p'', b_out_dir b, b_toolcache_dir b])
      (seqx (bbmake sh b [''distclean'']) (seqx (bbmake sh b [''defconfig''])
      (bindx (lift (open_file (sh_env sh) config)) (\<lambda>content.
        seqx (call_or_throw (sh_env sh) (WriteFile config (concat (map (\<lambda>l. l @ [LF])
            (edit_busybox_config (text_lines (case content of None \<Rightarrow> [] | Some t \<Rightarrow> t)))))) [])
        (seqx (bbmake sh b [''oldconfig'']) (seqx (bbmake sh b [])
        (test_or_die sh (CHR ''x'') (b_busybox_dir b @ ''/busybox'') ''BusyBox binary not found after build'')))))))))))"

section \<open>Lemmas\<close>

lemma cmd_simps [simp]:
  "after (cmd sh argv) h = h @ [Run argv]"
  "result (cmd sh argv) h = Inr u \<longleftrightarrow> e_run (sh_env sh) h argv = Exited 0"
  by (simp_all add: cmd_def)

lemma test_or_die_simps [simp]:
  "after (test_or_die sh flag path reason) h = h"
  "result (test_or_die sh flag path reason) h = Inr u \<longleftrightarrow> sh_test sh h flag path"
  by (simp_all add: test_or_die_def)

lemma kmake_simps [simp]:
  "after (kmake sh b args) h = h @ [Run (make_argv b (b_kernel_dir b) args)]"
  "result (kmake sh b args) h = Inr u \<longleftrightarrow> e_run (sh_env sh) h (make_argv b (b_kernel_dir b) args) = Exited 0"
  by (simp_all add: kmake_def)

text \<open>The lines of the formats that \<^verbatim>\<open>make menuconfig\<close> writes are understood.\<close>

lemma option_name_set [simp]: "CHR ''='' \<notin> set n \<Longrightarrow> option_name (n @ CHR ''='' # v) = n"
  by (induction n) (auto simp: option_name_def)

lemma config_command_set:
  assumes "CHR ''='' \<notin> set n"
  shows "config_command (''CONFIG_'' @ n @ ''=y'') = ConfigSet ''--enable'' (''CONFIG_'' @ n)"
    and "config_command (''CONFIG_'' @ n @ ''=m'') = ConfigSet ''--module'' (''CONFIG_'' @ n)"
    and "config_command (''CONFIG_'' @ n @ ''=n'') = ConfigSet ''--disable'' (''CONFIG_'' @ n)"
proof -
  have "option_name (''CONFIG_'' @ n @ CHR ''='' # v) = ''CONFIG_'' @ n" for v
    using option_name_set [of "''CONFIG_'' @ n" v] assms by simp
  moreover have "suffix ''=y'' (n @ ''=y'')" "suffix ''=m'' (n @ ''=m'')" "suffix ''=n'' (n @ ''=n'')"
      "\<not> suffix ''=y'' (n @ ''=m'')" "\<not> suffix ''=y'' (n @ ''=n'')" "\<not> suffix ''=m'' (n @ ''=n'')"
    by (simp_all add: suffix_def)
  ultimately show "config_command (''CONFIG_'' @ n @ ''=y'') = ConfigSet ''--enable'' (''CONFIG_'' @ n)"
      "config_command (''CONFIG_'' @ n @ ''=m'') = ConfigSet ''--module'' (''CONFIG_'' @ n)"
      "config_command (''CONFIG_'' @ n @ ''=n'') = ConfigSet ''--disable'' (''CONFIG_'' @ n)"
    by (simp_all add: config_command_def around_def)
qed

lemma config_command_unset:
  "config_command (''# CONFIG_'' @ n @ '' is not set'') = ConfigSet ''--disable'' (''CONFIG_'' @ n)"
proof -
  have "suffix '' is not set'' (n @ '' is not set'')" by (simp add: suffix_def)
  then show ?thesis by (simp add: config_command_def around_def)
qed

definition config_calls :: "build \<Rightarrow> string list \<Rightarrow> string list list" where
  "config_calls b ls =
     List.map_filter (\<lambda>l. case config_command l of ConfigSet flag opt \<Rightarrow> Some (config_argv b flag opt) | _ \<Rightarrow> None) ls"

lemma config_steps:
  assumes "result (eachx (config_step sh b) ls) h = Inr ()"
  shows "after (eachx (config_step sh b) ls) h = h @ map Run (config_calls b ls)
    \<and> list_all (\<lambda>l. config_command l \<noteq> ConfigInvalid) ls"
  using assms
proof (induction ls arbitrary: h)
  case (Cons l ls)
  then show ?case
    by (cases "config_command l")
      (auto simp: config_step_def config_calls_def map_filter_simps seqx_Inr simp del: result_x(4) after_x(4))
qed (simp add: config_calls_def map_filter_simps)

lemma kernel_config_accepted: "list_all (\<lambda>l. config_command l \<noteq> ConfigInvalid) kernel_config"
  by code_simp

lemma replace_start_made: "list_ex (prefix old) ls \<Longrightarrow> list_ex (prefix new) (replace_start old new ls)"
  by (induction ls) (auto simp: replace_start_def)

lemma static_busybox_static: "list_ex (prefix ''CONFIG_STATIC=y'') (static_busybox ls)"
proof -
  have "list_ex (prefix ''CONFIG_STATIC='') ls \<Longrightarrow>
      list_ex (prefix ''CONFIG_STATIC=y'') (map (\<lambda>l. if prefix ''CONFIG_STATIC='' l then ''CONFIG_STATIC=y'' else l) ls)"
    by (induction ls) auto
  then show ?thesis by (simp add: static_busybox_def replace_start_made)
qed

lemma replace_start_keeps:
  assumes "list_ex (prefix p) ls" and "\<And>l. prefix p l \<Longrightarrow> \<not> prefix old l"
  shows "list_ex (prefix p) (replace_start old new ls)"
  using assms by (fastforce simp: replace_start_def list_ex_iff)

lemma replace_start_gone:
  assumes "\<And>l. \<not> prefix p (new @ l)" and "\<And>l. prefix p l \<Longrightarrow> prefix old l"
  shows "\<not> list_ex (prefix p) (replace_start old new ls)"
  using assms by (fastforce simp: replace_start_def list_ex_iff)

lemma replace_start_stays_gone:
  assumes "\<not> list_ex (prefix p) ls" and "\<And>l. \<not> prefix p (new @ l)"
  shows "\<not> list_ex (prefix p) (replace_start old new ls)"
  using assms by (fastforce simp: replace_start_def list_ex_iff)

section \<open>Properties\<close>


definition example_build :: build where
  "example_build =
     \<lparr>b_project_dir = ''/p'', b_out_dir = ''/p/out'', b_toolcache_dir = ''/p/.toolcache'', b_kernel_dir = ''/p/linux-6.10'',
      b_busybox_dir = ''/p/busybox-1.36.1'', b_jobs = ''2'', b_cross_compile = [], b_defconfig = ''defconfig'',
      b_kernel_name = ''vmlinuz-6.10''\<rparr>"

definition builder_shell :: shell where
  "builder_shell =
     \<lparr>sh_env = (listing_env []) \<lparr>e_open := \<lambda>h p. Some (concat (map (\<lambda>l. l @ [LF]) kernel_config))\<rparr>, sh_test = \<lambda>h c p. True\<rparr>"


text \<open>
  The configuration of BusyBox that is built is for a static program, without the applet \<^verbatim>\<open>tc\<close> and with
  \<^verbatim>\<open>setsid\<close> not switched off, whatever the default configuration is.
\<close>

theorem busybox_config_edited:
  "list_ex (prefix ''CONFIG_STATIC=y'') (edit_busybox_config ls) \<and>
   \<not> list_ex (prefix ''CONFIG_TC=y'') (edit_busybox_config ls) \<and>
   \<not> list_ex (prefix ''# CONFIG_SETSID is not set'') (edit_busybox_config ls)"
  unfolding edit_busybox_config_def
  by (intro conjI replace_start_gone replace_start_keeps static_busybox_static replace_start_stays_gone)
    (auto simp: prefix_def)

end
