(* ===== verification/IsoBuild.thy ===== *)
theory IsoBuild
  imports KernelBuild BootMenu
begin

text \<open>
  The targets \<^verbatim>\<open>tools\<close> and \<^verbatim>\<open>iso\<close> of the \<^verbatim>\<open>Makefile\<close>: building the programs, filling the two file systems, packing
  them and making the images. The programs of a pipeline are started one after the other here, and its status is that of the
  last; a redirection to a file is written as the words \<^verbatim>\<open>>\<close> and the name behind the command. Messages
  are not modelled.
\<close>

section \<open>Directories and small helpers\<close>

record iso_config =
  i_sysroot :: string
  i_grub_pc :: string
  i_grub_efi :: string
  i_memtest_bios :: string
  i_memtest_uefi :: string

abbreviation rootfs_dir :: "build \<Rightarrow> string" where "rootfs_dir b \<equiv> b_project_dir b @ ''/rootfs''"
abbreviation disk_dir :: "build \<Rightarrow> string" where "disk_dir b \<equiv> b_project_dir b @ ''/disk-initramfs''"
abbreviation iso_dir :: "build \<Rightarrow> string" where "iso_dir b \<equiv> b_project_dir b @ ''/iso''"
abbreviation files_dir :: "build \<Rightarrow> string" where "files_dir b \<equiv> b_project_dir b @ ''/filesforlinux''"
abbreviation installer_dir :: "build \<Rightarrow> string" where "installer_dir b \<equiv> b_project_dir b @ ''/tools/installer''"
abbreviation syspckg_dir :: "build \<Rightarrow> string" where "syspckg_dir b \<equiv> b_project_dir b @ ''/tools/syspckg''"

definition cmds :: "shell \<Rightarrow> string list list \<Rightarrow> unit xio" where
  "cmds sh argvs = eachx (cmd sh) argvs"

definition tried :: "shell \<Rightarrow> string list \<Rightarrow> unit xio" where
  "tried sh argv = lift (do { _ \<leftarrow> run sh argv; ret () })"

definition when_test :: "shell \<Rightarrow> char \<Rightarrow> string \<Rightarrow> unit xio \<Rightarrow> unit xio" where
  "when_test sh flag path m = bindx (lift (test sh flag path)) (\<lambda>there. whenx there m)"

text \<open>A pattern without a match stands for itself.\<close>

definition expand :: "shell \<Rightarrow> string \<Rightarrow> string list xio" where
  "expand sh pattern = lift (query (\<lambda>h. case e_glob (sh_env sh) h pattern of [] \<Rightarrow> [pattern] | ps \<Rightarrow> ps))"

definition require_busybox_dir :: "shell \<Rightarrow> build \<Rightarrow> unit xio" where
  "require_busybox_dir sh b = test_or_die sh (CHR ''d'') (b_busybox_dir b) (''Directory not found: '' @ b_busybox_dir b)"

text \<open>The plain files \<^verbatim>\<open>vmlinuz-*\<close> of the output directory, as \<^verbatim>\<open>find\<close> prints them.\<close>

definition kernel_artifacts :: "shell \<Rightarrow> build \<Rightarrow> history \<Rightarrow> string list" where
  "kernel_artifacts sh b h =
     filter (\<lambda>n. prefix ''vmlinuz-'' n \<and>
         (case e_lstat (sh_env sh) h (b_out_dir b @ ''/'' @ n) of Inr st \<Rightarrow> st_kind st = S_REG | Inl _ \<Rightarrow> False))
       (case e_opendir (sh_env sh) h (b_out_dir b) of None \<Rightarrow> [] | Some names \<Rightarrow> names)"

definition resolve_latest_kernel_artifact :: "shell \<Rightarrow> (string list \<Rightarrow> string list) \<Rightarrow> build \<Rightarrow> string xio" where
  "resolve_latest_kernel_artifact sh sort_V b =
     bindx (lift (query (\<lambda>h. sort_V (kernel_artifacts sh b h)))) (\<lambda>names.
       if names = [] then throw (''No kernel artifact found in '' @ b_out_dir b @ '' (expected vmlinuz-*). Run make kernel first.'')
       else okx (last names))"

definition ensure_amd64_arch_enabled :: "shell \<Rightarrow> unit xio" where
  "ensure_amd64_arch_enabled sh = do {
     r \<leftarrow> capture_cmd (sh_env sh) [''dpkg'', ''--print-foreign-architectures''];
     if ''amd64'' \<in> set (text_lines (output_of r)) then okx ()
     else if e_euid (sh_env sh) = 0 then cmds sh [[''dpkg'', ''--add-architecture'', ''amd64''], [''apt'', ''update'']]
     else throw ''amd64 architecture is not enabled in dpkg. Run once: sudo dpkg --add-architecture amd64 && sudo apt update''
   }"

section \<open>Libraries for the programs\<close>

text \<open>The options for the preprocessor, the linker and the libraries.\<close>

definition unpack_ncurses :: "shell \<Rightarrow> build \<Rightarrow> string \<Rightarrow> unit xio" where
  "unpack_ncurses sh b sysroot =
     seqx (need_cmd sh ''apt'') (seqx (need_cmd sh ''dpkg-deb'') (seqx (ensure_amd64_arch_enabled sh)
     (seqx (cmd sh [''mkdir'', ''-p'', sysroot, b_toolcache_dir b @ ''/downloads''])
     (bindx (expand sh (sysroot @ ''/*'')) (\<lambda>old. seqx (cmd sh ([''rm'', ''-rf''] @ old))
     (seqx (cmd sh [''cd'', b_toolcache_dir b @ ''/downloads''])
     (bindx (expand sh ''libncurses-dev_*_amd64.deb'') (\<lambda>stale. seqx (cmd sh ([''rm'', ''-f''] @ stale))
     (seqx (cmd sh [''apt'', ''download'', ''libncurses-dev:amd64''])
     (bindx (expand sh ''libncurses-dev_*_amd64.deb'') (eachx (\<lambda>pkg.
        seqx (test_or_die sh (CHR ''f'') pkg ''Failed to download libncurses-dev:amd64'')
          (cmd sh [''dpkg-deb'', ''-x'', pkg, sysroot])))))))))))))"

definition ensure_amd64_ncurses :: "shell \<Rightarrow> build \<Rightarrow> (string \<times> string \<times> string) xio" where
  "ensure_amd64_ncurses sh b =
     (let host = ''/usr/lib/x86_64-linux-gnu''; sysroot = b_toolcache_dir b @ ''/ncurses-amd64''; lib = sysroot @ host in
      bindx (lift (and_then (test sh (CHR ''f'') (host @ ''/libncurses.a'')) (test sh (CHR ''f'') (host @ ''/libtinfo.a''))))
        (\<lambda>there. if there then okx ([], ''-static'', ''-lncurses -ltinfo'')
         else bindx (lift (and_then (test sh (CHR ''f'') (lib @ ''/libncurses.a'')) (test sh (CHR ''f'') (lib @ ''/libtinfo.a''))))
           (\<lambda>cached. seqx (whenx (\<not> cached) (unpack_ncurses sh b sysroot))
             (seqx (test_or_die sh (CHR ''f'') (lib @ ''/libncurses.a'') ''amd64 libncurses.a not found'')
             (seqx (test_or_die sh (CHR ''f'') (lib @ ''/libtinfo.a'') ''amd64 libtinfo.a not found'')
               (okx (''-I'' @ sysroot @ ''/usr/include'', ''-static'', lib @ ''/libncurses.a '' @ lib @ ''/libtinfo.a'')))))))"

definition ensure_syspckg_sysroot :: "shell \<Rightarrow> (string list \<Rightarrow> string list) \<Rightarrow> build \<Rightarrow> string \<Rightarrow> string xio" where
  "ensure_syspckg_sysroot sh sort_lines b sysroot =
     (if sysroot \<noteq> []
      then seqx (test_or_die sh (CHR ''f'') (sysroot @ ''/usr/include/libdnf5/base/base.hpp'') ''SYSPCKG_SYSROOT is missing libdnf5 headers'')
        (bindx (lift (or_else (test sh (CHR ''e'') (sysroot @ ''/usr/lib/x86_64-linux-gnu/libdnf5.so''))
            (test sh (CHR ''e'') (sysroot @ ''/usr/lib/x86_64-linux-gnu/libdnf5.so.2''))))
          (\<lambda>there. if there then okx sysroot else throw ''SYSPCKG_SYSROOT is missing libdnf5.so''))
      else seqx (need_cmd sh ''apt-get'') (seqx (need_cmd sh ''dpkg-deb'')
        (seqx (test_or_die sh (CHR ''f'') (syspckg_dir b @ ''/bootstrap-libdnf5-sysroot.sh'') (''Missing libdnf5 bootstrap script: '' @ syspckg_dir b @ ''/bootstrap-libdnf5-sysroot.sh''))
        (seqx (bootstrap_sysroot sh sort_lines (b_toolcache_dir b @ ''/libdnf5-amd64'') ''amd64'')
          (okx (b_toolcache_dir b @ ''/libdnf5-amd64''))))))"

section \<open>The target \<^verbatim>\<open>tools\<close>\<close>

text \<open>\<^verbatim>\<open>make clean && make all\<close>: a failure of the first command skips the second but does not end the script.\<close>

definition clean_and_build :: "shell \<Rightarrow> string list \<Rightarrow> string list \<Rightarrow> unit xio" where
  "clean_and_build sh clean build = bindx (lift (run sh clean)) (\<lambda>ok. whenx ok (cmd sh build))"

definition build_installer :: "shell \<Rightarrow> build \<Rightarrow> unit xio" where
  "build_installer sh b =
     (let clean = [''make'', ''-C'', installer_dir b, ''clean'']; target = files_dir b @ ''/rootfs/usr/bin'';
          all = [''make'', ''-j'' @ b_jobs b, ''-C'', installer_dir b, ''all''] in
      seqx (if b_cross_compile b \<noteq> []
         then bindx (ensure_amd64_ncurses sh b) (\<lambda>(cppflags, ldflags, ldlibs).
           clean_and_build sh clean (all @ [''CC='' @ b_cross_compile b @ ''gcc'', ''CPPFLAGS='' @ cppflags, ''LDFLAGS='' @ ldflags,
             ''LDLIBS='' @ ldlibs]))
         else clean_and_build sh clean all)
        (cmds sh [[''mkdir'', ''-p'', target], [''cp'', ''-f'', installer_dir b @ ''/installer'', target @ ''/installer''],
          [''chmod'', ''+x'', target @ ''/installer'']]))"

definition make_tools :: "shell \<Rightarrow> (string list \<Rightarrow> string list) \<Rightarrow> build \<Rightarrow> iso_config \<Rightarrow> unit xio" where
  "make_tools sh sort_lines b i =
     (let target = files_dir b @ ''/rootfs/usr/bin''; bin = syspckg_dir b @ ''/syspckg''; cxx = b_cross_compile b @ ''g++'' in
      seqx (need_cmd sh ''make'') (seqx (need_cmd sh ''gcc'') (seqx (check_toolchain sh b)
      (seqx (cmd sh [''mkdir'', ''-p'', b_out_dir b, b_toolcache_dir b])
      (seqx (when_test sh (CHR ''d'') (installer_dir b) (build_installer sh b))
      (seqx (test_or_die sh (CHR ''d'') (syspckg_dir b) ''tools/syspckg not found'')
      (bindx (ensure_syspckg_sysroot sh sort_lines b (i_sysroot i)) (\<lambda>sysroot.
       seqx (need_cmd sh cxx)
       (seqx (clean_and_build sh [''make'', ''-C'', syspckg_dir b, ''clean'']
          [''make'', ''-j'' @ b_jobs b, ''-C'', syspckg_dir b, ''all'', ''CXX='' @ cxx, ''SYSROOT='' @ sysroot])
       (seqx (test_or_die sh (CHR ''x'') bin (''SystemPackager binary not found after build: '' @ bin))
       (cmds sh [[''mkdir'', ''-p'', target], [''cp'', ''-f'', bin, target @ ''/syspckg''],
          [''chmod'', ''+x'', target @ ''/syspckg'']])))))))))))"

section \<open>The target \<^verbatim>\<open>iso\<close>\<close>

text \<open>The private runtime of the package manager.\<close>

abbreviation LOADER :: string where "LOADER \<equiv> ''ld-linux-x86-64.so.2''"

definition wrapper :: "string \<Rightarrow> string" where
  "wrapper program =
     ''exec /usr/lib/syspckg/ld-linux-x86-64.so.2 --library-path /usr/lib/syspckg /usr/libexec/syspckg/'' @ program @
     ''.real '' @ [DQ] @ ''$@'' @ [DQ]"

definition write_lines :: "shell \<Rightarrow> string \<Rightarrow> string list \<Rightarrow> unit xio" where
  "write_lines sh path ls = call_or_throw (sh_env sh) (WriteFile path (concat (map (\<lambda>l. l @ [LF]) ls))) []"

definition copy_dir :: "shell \<Rightarrow> string \<Rightarrow> string \<Rightarrow> string \<Rightarrow> unit xio" where
  "copy_dir sh src dst rel =
     when_test sh (CHR ''d'') (src @ ''/'' @ rel)
       (cmds sh [[''mkdir'', ''-p'', dst @ ''/'' @ rel], [''cp'', ''-a'', src @ ''/'' @ rel @ ''/.'', dst @ ''/'' @ rel @ ''/'']])"

definition copy_libraries :: "shell \<Rightarrow> string \<Rightarrow> string \<Rightarrow> unit xio" where
  "copy_libraries sh sysroot private_lib =
     seqx (eachx (\<lambda>rel. when_test sh (CHR ''d'') (sysroot @ ''/'' @ rel)
         (cmd sh [''find'', sysroot @ ''/'' @ rel, ''-maxdepth'', ''1'', ''('', ''-type'', ''f'', ''-o'', ''-type'', ''l'', '')'', ''-name'',
           ''*.so*'', ''-exec'', ''cp'', ''-aL'', ''{}'', private_lib @ ''/'', '';'']))
       [''lib/x86_64-linux-gnu'', ''usr/lib/x86_64-linux-gnu''])
     (bindx (lift (query (\<lambda>h. find (sh_test sh h (CHR ''f''))
         [sysroot @ ''/lib64/'' @ LOADER, sysroot @ ''/lib/x86_64-linux-gnu/'' @ LOADER,
          sysroot @ ''/usr/lib/x86_64-linux-gnu/'' @ LOADER])))
       (\<lambda>loader. case loader of
          None \<Rightarrow> throw ''libdnf5 sysroot is missing ld-linux-x86-64.so.2''
        | Some l \<Rightarrow> cmd sh [''cp'', ''-aL'', l, private_lib @ ''/'' @ LOADER]))"

definition copy_rpm_runtime :: "shell \<Rightarrow> string \<Rightarrow> string \<Rightarrow> unit xio" where
  "copy_rpm_runtime sh sysroot rootfs =
     seqx (eachx (copy_dir sh sysroot rootfs)
       [''usr/lib/rpm'', ''usr/share/rpm'', ''etc/rpm'', ''usr/lib/x86_64-linux-gnu/rpm-plugins''])
     (seqx (test_or_die sh (CHR ''f'') (rootfs @ ''/usr/lib/rpm/rpmrc'') ''RPM runtime is missing /usr/lib/rpm/rpmrc'')
       (test_or_die sh (CHR ''f'') (rootfs @ ''/usr/lib/rpm/macros'') ''RPM runtime is missing /usr/lib/rpm/macros''))"

definition copy_certificates :: "shell \<Rightarrow> string \<Rightarrow> string \<Rightarrow> string \<Rightarrow> unit xio" where
  "copy_certificates sh sysroot rootfs private_lib =
     (let crt = sysroot @ ''/etc/ssl/certs/ca-certificates.crt'' in
      seqx (copy_dir sh sysroot rootfs ''etc/ssl'')
      (seqx (test_or_die sh (CHR ''f'') crt ''libdnf5 sysroot is missing CA bundle'')
      (seqx (cmds sh [[''cp'', ''-aL'', crt, private_lib @ ''/ca-certificates.crt''],
          [''chmod'', ''644'', private_lib @ ''/ca-certificates.crt'']])
        (copy_dir sh sysroot rootfs ''usr/share/ca-certificates''))))"

definition copy_gpg :: "shell \<Rightarrow> string \<Rightarrow> string \<Rightarrow> unit xio" where
  "copy_gpg sh sysroot rootfs =
     (let real = rootfs @ ''/usr/libexec/syspckg''; bin = rootfs @ ''/usr/bin'' in
      seqx (test_or_die sh (CHR ''x'') (sysroot @ ''/usr/bin/gpg'') ''libdnf5 sysroot is missing /usr/bin/gpg'')
      (seqx (test_or_die sh (CHR ''x'') (sysroot @ ''/usr/bin/gpgconf'') ''libdnf5 sysroot is missing /usr/bin/gpgconf'')
      (seqx (cmds sh [[''mkdir'', ''-p'', real, bin], [''cp'', ''-aL'', sysroot @ ''/usr/bin/gpg'', real @ ''/gpg.real''],
          [''cp'', ''-aL'', sysroot @ ''/usr/bin/gpgconf'', real @ ''/gpgconf.real'']])
      (seqx (copy_dir sh sysroot rootfs ''usr/share/gnupg'')
        (eachx (\<lambda>p. seqx (write_lines sh (bin @ ''/'' @ p) [''#!/bin/sh'', wrapper p]) (cmd sh [''chmod'', ''+x'', bin @ ''/'' @ p]))
          [''gpg'', ''gpgconf''])))))"

definition copy_syspckg_runtime_from_sysroot ::
  "shell \<Rightarrow> (string list \<Rightarrow> string list) \<Rightarrow> build \<Rightarrow> iso_config \<Rightarrow> unit xio" where
  "copy_syspckg_runtime_from_sysroot sh sort_lines b i =
     (let rootfs = rootfs_dir b; private_lib = rootfs @ ''/usr/lib/syspckg'' in
      bindx (ensure_syspckg_sysroot sh sort_lines b (i_sysroot i)) (\<lambda>sysroot.
        seqx (cmd sh [''mkdir'', ''-p'', private_lib, rootfs @ ''/usr/libexec/syspckg''])
        (seqx (copy_libraries sh sysroot private_lib)
        (seqx (copy_rpm_runtime sh sysroot rootfs)
        (seqx (copy_certificates sh sysroot rootfs private_lib)
        (seqx (copy_gpg sh sysroot rootfs)
          (cmd sh [''mkdir'', ''-p'', rootfs @ ''/var/cache/libdnf5'', rootfs @ ''/var/lib/dnf'', rootfs @ ''/var/lib/rpm'',
            rootfs @ ''/usr/lib/sysimage/libdnf5'', rootfs @ ''/var/log''])))))))"

text \<open>The modules of GRUB for a platform: given, on the host, or downloaded.\<close>

definition grub_modules :: "shell \<Rightarrow> build \<Rightarrow> string \<Rightarrow> string \<Rightarrow> string \<Rightarrow> string \<Rightarrow> string xio" where
  "grub_modules sh b given platform cache pkg =
     (let host = ''/usr/lib/grub/'' @ platform; root = b_toolcache_dir b @ ''/'' @ cache; dir = root @ host;
          downloads = b_toolcache_dir b @ ''/downloads'' in
      bindx (lift (test sh (CHR ''d'') given)) (\<lambda>usable. if given \<noteq> [] \<and> usable then okx given
      else bindx (lift (test sh (CHR ''d'') host)) (\<lambda>there. if there then okx host
      else seqx (need_cmd sh ''apt'') (seqx (need_cmd sh ''dpkg-deb'') (seqx (ensure_amd64_arch_enabled sh)
        (seqx (cmd sh [''mkdir'', ''-p'', root, downloads])
        (bindx (expand sh (root @ ''/*'')) (\<lambda>old. seqx (cmd sh ([''rm'', ''-rf''] @ old))
        (seqx (cmd sh [''cd'', downloads])
        (bindx (expand sh (pkg @ ''_*_amd64.deb'')) (\<lambda>stale. seqx (cmd sh ([''rm'', ''-f''] @ stale))
        (seqx (cmd sh [''apt'', ''download'', pkg @ '':amd64''])
        (bindx (expand sh (pkg @ ''_*_amd64.deb'')) (\<lambda>debs. seqx (cmd sh ([''dpkg-deb'', ''-x''] @ debs @ [root]))
        (seqx (test_or_die sh (CHR ''d'') dir (''Failed to prepare GRUB '' @ platform @ '' modules'')) (okx dir))))))))))))))))"

definition ensure_grub_i386_pc_modules :: "shell \<Rightarrow> build \<Rightarrow> iso_config \<Rightarrow> string xio" where
  "ensure_grub_i386_pc_modules sh b i = grub_modules sh b (i_grub_pc i) ''i386-pc'' ''grub-amd64'' ''grub-pc-bin''"

definition ensure_grub_x86_64_efi_modules :: "shell \<Rightarrow> build \<Rightarrow> iso_config \<Rightarrow> string xio" where
  "ensure_grub_x86_64_efi_modules sh b i =
     grub_modules sh b (i_grub_efi i) ''x86_64-efi'' ''grub-efi-amd64'' ''grub-efi-amd64-bin''"

text \<open>
  Packing a tree. The directory is changed in a subshell; the status of the pipeline is that of the program that compresses.
\<close>

definition pack_image :: "shell \<Rightarrow> build \<Rightarrow> string \<Rightarrow> string \<Rightarrow> unit xio" where
  "pack_image sh b dir img =
     seqx (cmd sh [''cd'', dir]) (seqx (tried sh [''find'', ''.'', ''-print0''])
       (seqx (tried sh [''cpio'', ''--owner=0:0'', ''--null'', ''-o'', ''--format=newc''])
       (bindx (lift (run sh [''command'', ''-v'', ''pigz''])) (\<lambda>pigz.
         cmd sh ((if pigz then [''pigz'', ''-9'', ''-p'', b_jobs b] else [''gzip'', ''-9'']) @ [''>'', img])))))"

text \<open>
  The check of the archives. In the lines of the recipe \<^verbatim>\<open>$|\<close> and \<^verbatim>\<open>$'\<close> are variables of \<^verbatim>\<open>make\<close>, which replaces them by
  their values before the shell reads the script: the first is the list of the order-only prerequisites, of which the target
  has none, and the second is not set. What is left of the lines is read by the shell, and the first word after
  \<^verbatim>\<open>grep -E\<close> is the pattern: its lines are patterns of their own, and \<^verbatim>\<open>|\<close> separates the branches of one. How
  a branch without \<^verbatim>\<open>|\<close> matches a line is the parameter \<open>matches\<close>.
\<close>

definition recipe_after_grep :: string where
  "recipe_after_grep =
     [SQ] @ ''^init$|^bin/sh$'' @ [SQ] @ '' >/dev/null || die '' @ [DQ] @ ''Installer initramfs does not contain init or bin/sh'' @ [DQ, LF] @
     ''say '' @ [DQ] @ ''Sanity check: disk initramfs contains init + bin/sh'' @ [DQ, LF] @
     ''gzip_decompress_file '' @ [DQ] @ ''$$OUT_DIR/$$OUT_DISK_INITRAMFS_NAME'' @ [DQ] @ '' | cpio -it | grep -E '' @
     [SQ] @ ''^init$|^bin/sh$'' @ [SQ] @ '' >/dev/null || die '' @ [DQ] @ ''Disk initramfs does not contain init or bin/sh'' @ [DQ, LF]"

fun make_expand :: "(char \<Rightarrow> string) \<Rightarrow> string \<Rightarrow> string" where
  "make_expand vars (c # d # s) =
     (if c = CHR ''$'' then (if d = CHR ''$'' then [c] else vars d) @ make_expand vars s else c # make_expand vars (d # s))"
| "make_expand vars s = s"

text \<open>The word at the start of a text and what follows it; \<open>q\<close> tells whether a single quote is open.\<close>

fun quoted_word :: "bool \<Rightarrow> string \<Rightarrow> string \<times> string" where
  "quoted_word q [] = ([], [])"
| "quoted_word q (c # s) =
     (if c = SQ then quoted_word (\<not> q) s
      else if \<not> q \<and> is_ifs c then ([], s)
      else let (w, rest) = quoted_word q s in (c # w, rest))"

fun branches_from :: "string \<Rightarrow> string \<Rightarrow> string list" where
  "branches_from br [] = [br]"
| "branches_from br (c # s) = (if c = CHR ''|'' \<or> c = LF then br # branches_from [] s else branches_from (br @ [c]) s)"

definition grep_E :: "(string \<Rightarrow> string \<Rightarrow> bool) \<Rightarrow> string \<Rightarrow> string list \<Rightarrow> bool" where
  "grep_E matches pattern ls = list_ex (\<lambda>l. list_ex (\<lambda>br. matches br l) (branches_from [] pattern)) ls"

definition sanity_pattern :: string where
  "sanity_pattern = fst (quoted_word False (make_expand (\<lambda>v. []) recipe_after_grep))"

definition check_images :: "shell \<Rightarrow> (string \<Rightarrow> string \<Rightarrow> bool) \<Rightarrow> build \<Rightarrow> unit xio" where
  "check_images sh matches b = do {
     pigz \<leftarrow> run sh [''command'', ''-v'', ''pigz''];
     _ \<leftarrow> run sh [if pigz then ''pigz'' else ''gzip'', ''-dc'', b_out_dir b @ ''/initramfs-installer.gz''];
     r \<leftarrow> capture_cmd (sh_env sh) [''cpio'', ''-it''];
     if grep_E matches sanity_pattern (text_lines (output_of r)) then okx ()
     else throw ''Disk initramfs does not contain init or bin/sh''
   }"

definition iso_requirements :: "shell \<Rightarrow> (string list \<Rightarrow> string list) \<Rightarrow> build \<Rightarrow> string xio" where
  "iso_requirements sh sort_V b =
     seqx (require_busybox_dir sh b)
     (seqx (eachx (need_cmd sh) [''make'', ''cpio'', ''gzip'', ''ldd'', ''tar'', ''file'', ''cmp'', ''dpkg'', ''grub-mkrescue'',
        ''grub-mkimage'', ''mformat'', ''mcopy''])
     (seqx (check_toolchain sh b)
     (bindx (resolve_latest_kernel_artifact sh sort_V b) (\<lambda>kernel.
       seqx (test_or_die sh (CHR ''x'') (b_busybox_dir b @ ''/busybox'') (''Missing BusyBox binary: '' @ b_busybox_dir b @
         ''/busybox. Run make busybox first.'')) (okx kernel)))))"

definition prepare_trees :: "shell \<Rightarrow> build \<Rightarrow> unit xio" where
  "prepare_trees sh b =
     (let r = rootfs_dir b; d = disk_dir b; out = b_out_dir b in
      seqx (cmds sh [[''mkdir'', ''-p'', out, b_toolcache_dir b], [''rm'', ''-rf'', r, d, iso_dir b],
        [''rm'', ''-f'', out @ ''/initramfs-installer.gz'', out @ ''/initramfs-disk.gz''],
        [''mkdir'', ''-p''] @ map (\<lambda>x. r @ x) [''/bin'', ''/sbin'', ''/etc'', ''/proc'', ''/sys'', ''/dev'', ''/usr/bin'', ''/usr/sbin'',
          ''/tmp'', ''/usr/share'', ''/lib'', ''/lib64'', ''/root''],
        [''chmod'', ''1777'', r @ ''/tmp''],
        [''mkdir'', ''-p''] @ map (\<lambda>x. d @ x) [''/bin'', ''/sbin'', ''/proc'', ''/sys'', ''/dev'', ''/newroot'', ''/tmp''],
        [''chmod'', ''1777'', d @ ''/tmp'']])
      (seqx (bbmake sh b [''CONFIG_PREFIX='' @ r, ''install'']) (seqx (bbmake sh b [''CONFIG_PREFIX='' @ d, ''install''])
        (cmd sh [''chmod'', ''4755'', r @ ''/bin/busybox'']))))"

definition copy_template :: "shell \<Rightarrow> build \<Rightarrow> string \<Rightarrow> string \<Rightarrow> string \<Rightarrow> string \<Rightarrow> unit xio" where
  "copy_template sh b src dst missing overwritten =
     seqx (test_or_die sh (CHR ''d'') src (missing @ src))
     (seqx (cmd sh [''cp'', ''-a'', ''--remove-destination'', src @ ''/.'', dst @ ''/''])
     (bindx (lift (run sh [''cmp'', ''-s'', b_busybox_dir b @ ''/busybox'', dst @ ''/bin/busybox''])) (\<lambda>same.
       if same then okx () else throw overwritten)))"

definition fill_trees :: "shell \<Rightarrow> build \<Rightarrow> unit xio" where
  "fill_trees sh b =
     (let r = rootfs_dir b; d = disk_dir b in
      seqx (copy_template sh b (files_dir b @ ''/rootfs'') r ''Rootfs template directory not found: ''
         ''Rootfs template copy overwrote /bin/busybox'')
      (seqx (copy_template sh b (files_dir b @ ''/initramfs-disk'') d ''disk initramfs template directory not found: ''
         ''Disk initramfs template copy overwrote /bin/busybox'')
      (seqx (eachx (\<lambda>req. test_or_die sh (CHR ''f'') (r @ ''/'' @ req) (''Required file missing in rootfs templates: '' @ req))
         [''etc/os-release'', ''init'', ''etc/motd'', ''etc/profile'', ''etc/inittab'', ''etc/init.d/rcS'',
          ''usr/share/udhcpc/default.script''])
      (seqx (cmds sh [[''chmod'', ''+x'', r @ ''/init'', r @ ''/etc/init.d/rcS'', r @ ''/usr/share/udhcpc/default.script''],
         [''chmod'', ''700'', r @ ''/root'']])
      (seqx (tried sh [''chmod'', ''644'', r @ ''/etc/passwd'', r @ ''/etc/group''])
      (seqx (tried sh [''chmod'', ''600'', r @ ''/etc/shadow''])
      (seqx (test_or_die sh (CHR ''f'') (d @ ''/init'') ''Required file missing in disk initramfs templates: init'')
        (cmd sh [''chmod'', ''+x'', d @ ''/init'']))))))))"

definition install_syspckg :: "shell \<Rightarrow> build \<Rightarrow> unit xio" where
  "install_syspckg sh b =
     (let r = rootfs_dir b; built = files_dir b @ ''/rootfs/usr/bin/syspckg'' in
      seqx (test_or_die sh (CHR ''x'') built (''Executable syspckg not found: '' @ built @ ''. Run make tools first.''))
      (bindx (lift (capture_cmd (sh_env sh) [''file'', ''-b'', built])) (\<lambda>info.
       if \<not> sublist ''x86-64'' (substituted (output_of info)) then throw (''syspckg is not an x86_64 binary: '' @ substituted (output_of info))
       else seqx (cmds sh [[''mkdir'', ''-p'', r @ ''/usr/bin'', r @ ''/usr/libexec/syspckg''],
           [''cp'', ''-a'', built, r @ ''/usr/libexec/syspckg/syspckg.real'']])
         (seqx (write_lines sh (r @ ''/usr/bin/syspckg'')
             [''#!/bin/sh'', ''export PATH=/usr/bin:/bin'', ''export SSL_CERT_FILE=/usr/lib/syspckg/ca-certificates.crt'',
              ''export CURL_CA_BUNDLE=/usr/lib/syspckg/ca-certificates.crt'', wrapper ''syspckg''])
         (cmds sh [[''chmod'', ''+x'', r @ ''/usr/bin/syspckg''], [''ln'', ''-sf'', ''/usr/bin/syspckg'', r @ ''/bin/syspckg'']])))))"

definition copy_terminfo :: "shell \<Rightarrow> build \<Rightarrow> unit xio" where
  "copy_terminfo sh b =
     (let t = ''/usr/share/terminfo''; r = rootfs_dir b @ t in
      when_test sh (CHR ''d'') t (seqx (cmd sh [''mkdir'', ''-p'', r])
        (seqx (when_test sh (CHR ''d'') (t @ ''/l'') (seqx (cmd sh [''mkdir'', ''-p'', r @ ''/l''])
            (tried sh [''cp'', ''-a'', t @ ''/l/linux'', r @ ''/l/''])))
          (when_test sh (CHR ''f'') (t @ ''/x/xterm-256color'') (seqx (cmd sh [''mkdir'', ''-p'', r @ ''/x''])
            (tried sh [''cp'', ''-a'', t @ ''/x/xterm-256color'', r @ ''/x/'']))))))"

definition pack_images :: "shell \<Rightarrow> build \<Rightarrow> unit xio" where
  "pack_images sh b =
     seqx (pack_image sh b (rootfs_dir b) (b_out_dir b @ ''/initramfs-installer.gz''))
       (pack_image sh b (disk_dir b) (b_out_dir b @ ''/initramfs-disk.gz''))"

definition fill_iso :: "shell \<Rightarrow> build \<Rightarrow> iso_config \<Rightarrow> string \<Rightarrow> unit xio" where
  "fill_iso sh b i name =
     (let boot = iso_dir b @ ''/boot''; out = b_out_dir b; cfg = files_dir b @ ''/iso/boot/grub/grub.cfg'' in
      seqx (cmds sh [[''mkdir'', ''-p'', boot @ ''/grub''], [''cp'', ''-f'', out @ ''/'' @ name, boot @ ''/'' @ name],
        [''cp'', ''-f'', out @ ''/initramfs-installer.gz'', boot @ ''/initramfs-installer.gz''],
        [''cp'', ''-f'', out @ ''/initramfs-disk.gz'', boot @ ''/initramfs-disk.gz'']])
      (seqx (when_test sh (CHR ''f'') (i_memtest_bios i) (cmd sh [''cp'', ''-f'', i_memtest_bios i, boot @ ''/memtest86+.bin'']))
      (seqx (when_test sh (CHR ''f'') (i_memtest_uefi i) (cmd sh [''cp'', ''-f'', i_memtest_uefi i, boot @ ''/memtest86+x64.efi'']))
      (seqx (test_or_die sh (CHR ''f'') cfg (''Missing GRUB configuration: '' @ cfg))
        (cmds sh [[''cp'', ''-f'', cfg, boot @ ''/grub/grub.cfg''],
          [''sed'', ''-i'', ''s|__KERNEL_IMAGE__|'' @ name @ ''|g'', boot @ ''/grub/grub.cfg'']])))))"

definition run_or_die :: "shell \<Rightarrow> string list \<Rightarrow> string \<Rightarrow> unit xio" where
  "run_or_die sh argv reason = do { ok \<leftarrow> run sh argv; if ok then okx () else throw reason }"

definition make_rescue :: "shell \<Rightarrow> build \<Rightarrow> string \<Rightarrow> string \<Rightarrow> unit xio" where
  "make_rescue sh b pc efi =
     (let out = b_out_dir b; bios = out @ ''/grub-core-bios.img''; uefi = out @ ''/grub-core-uefi.efi'' in
      seqx (run_or_die sh [''grub-mkimage'', ''-d'', pc, ''-O'', ''i386-pc'', ''-p'', ''/boot/grub'', ''-o'', bios, ''biosdisk'', ''iso9660'',
        ''linux16''] ''Missing GRUB BIOS i386-pc modules. The ISO will not boot in SeaBIOS. Install grub i386-pc modules.'')
      (seqx (run_or_die sh [''grub-mkimage'', ''-d'', efi, ''-O'', ''x86_64-efi'', ''-p'', ''/boot/grub'', ''-o'', uefi, ''iso9660'', ''normal'',
        ''configfile''] ''Missing GRUB UEFI x86_64-efi modules. Install grub-efi-amd64-bin or provide GRUB x86_64-efi modules.'')
      (cmds sh [[''rm'', ''-f'', bios, uefi],
        [''grub-mkrescue'', ''--directory='' @ pc, ''-o'', out @ ''/adavalinux-bios.iso'', iso_dir b],
        [''grub-mkrescue'', ''--directory='' @ efi, ''--modules=efi_gop video all_video gfxterm font'', ''-o'',
          out @ ''/adavalinux-uefi.iso'', iso_dir b]])))"

definition make_iso ::
  "shell \<Rightarrow> (string list \<Rightarrow> string list) \<Rightarrow> (string list \<Rightarrow> string list) \<Rightarrow> (string \<Rightarrow> string \<Rightarrow> bool) \<Rightarrow> build \<Rightarrow> iso_config \<Rightarrow> unit xio"
where
  "make_iso sh sort_V sort_lines matches b i =
     bindx (iso_requirements sh sort_V b) (\<lambda>kernel.
     seqx (prepare_trees sh b) (seqx (fill_trees sh b) (seqx (install_syspckg sh b)
     (seqx (copy_syspckg_runtime_from_sysroot sh sort_lines b i) (seqx (copy_terminfo sh b)
     (seqx (pack_images sh b) (seqx (check_images sh matches b) (seqx (fill_iso sh b i kernel)
     (bindx (ensure_grub_i386_pc_modules sh b i) (\<lambda>pc. bindx (ensure_grub_x86_64_efi_modules sh b i) (\<lambda>efi.
       make_rescue sh b pc efi)))))))))))"

section \<open>The menu of the images\<close>

text \<open>The configuration that is shipped, and \<^verbatim>\<open>sed s|old|new|g\<close> for a line and a text without special characters.\<close>

definition iso_entry :: "string \<Rightarrow> string \<Rightarrow> string list" where
  "iso_entry title args =
     [''menuentry '' @ [DQ] @ title @ [DQ] @ '' {'',
      ''    echo '' @ [SQ] @ ''Loading Linux ...'' @ [SQ],
      ''    linux /boot/__KERNEL_IMAGE__ rdinit=/init console=tty0'' @ args,
      ''    echo '' @ [SQ] @ ''Loading initramfs...'' @ [SQ],
      ''    initrd /boot/initramfs-installer.gz'',
      ''}'', []]"

definition iso_memtest :: "string \<Rightarrow> string \<Rightarrow> string \<Rightarrow> string \<Rightarrow> string list" where
  "iso_memtest platform file title loader =
     [''if [ '' @ [DQ] @ ''$grub_platform'' @ [DQ] @ '' = '' @ [DQ] @ platform @ [DQ] @ '' ]; then'',
      ''    if [ -f '' @ file @ '' ]; then'',
      ''        menuentry '' @ [DQ] @ title @ [DQ] @ '' {'',
      ''            '' @ loader @ '' '' @ file,
      ''        }'', ''    fi'', ''fi'']"

definition iso_grub_cfg :: "string list" where
  "iso_grub_cfg =
     [''set timeout=5'', ''set default=0'', ''terminal_input console'', ''terminal_output console'', []] @
     iso_entry ''AdavaLinux v1.0'' '' quiet'' @
     iso_entry ''AdavaLinux v1.0 (debug)'' [] @
     iso_entry ''AdavaLinux v1.0 (acpi off = ideal for old computers)'' '' acpi=off noapic nolapic irqpoll pci=nomsi quiet'' @
     iso_entry ''AdavaLinux v1.0 (acpi off + debug)'' '' acpi=off noapic nolapic irqpoll pci=nomsi'' @
     iso_memtest ''pc'' ''/boot/memtest86+.bin'' ''Memtest86+ (BIOS)'' ''linux16'' @ [[]] @
     iso_memtest ''efi'' ''/boot/memtest86+x64.efi'' ''Memtest86+ (UEFI)'' ''linux''"

function replace_all :: "string \<Rightarrow> string \<Rightarrow> string \<Rightarrow> string" where
  "replace_all old new s =
     (if old = [] \<or> s = [] then s
      else if prefix old s then new @ replace_all old new (drop (length old) s)
      else hd s # replace_all old new (tl s))"
  by pat_completeness auto
termination by (relation "measure (\<lambda>(old, new, s). length s)") auto

declare replace_all.simps [simp del]

definition iso_menu :: "string \<Rightarrow> string list" where
  "iso_menu kernel_name = map (replace_all ''__KERNEL_IMAGE__'' kernel_name) iso_grub_cfg"

text \<open>The files that the commands of a menu load.\<close>

definition loaded_file :: "string \<Rightarrow> string option" where
  "loaded_file line =
     (case words line of
        c # f # _ \<Rightarrow> if c = ''linux'' \<or> c = ''linux16'' \<or> c = ''initrd'' then Some f else None
      | _ \<Rightarrow> None)"

definition loaded_files :: "string list \<Rightarrow> string list" where
  "loaded_files ls = List.map_filter loaded_file ls"

section \<open>Lemmas\<close>

text \<open>Commands that have been successful, one after the other and with anything in between.\<close>

fun performed :: "shell \<Rightarrow> string list list \<Rightarrow> history \<Rightarrow> history \<Rightarrow> bool" where
  "performed sh [] h h' \<longleftrightarrow> prefix h h'"
| "performed sh (argv # argvs) h h' \<longleftrightarrow>
     (\<exists>k. prefix h k \<and> e_run (sh_env sh) k argv = Exited 0 \<and> performed sh argvs (k @ [Run argv]) h')"

definition does :: "shell \<Rightarrow> string list list \<Rightarrow> 'a xio \<Rightarrow> bool" where
  "does sh argvs m \<longleftrightarrow> (\<forall>h x. result m h = Inr x \<longrightarrow> performed sh argvs h (after m h))"

lemma performed_earlier: "prefix h k \<Longrightarrow> performed sh argvs k h' \<Longrightarrow> performed sh argvs h h'"
  by (cases argvs) (auto intro: prefix_order.trans)

lemma performed_prefix: "performed sh argvs h h' \<Longrightarrow> prefix h h'"
  by (induction argvs arbitrary: h) (auto dest: append_prefixD intro: prefix_order.trans)

lemma performed_append: "performed sh as h k \<Longrightarrow> performed sh bs k h' \<Longrightarrow> performed sh (as @ bs) h h'"
  by (induction as arbitrary: h) (auto intro: performed_earlier)

lemma performed_subseq: "subseq as bs \<Longrightarrow> performed sh bs h h' \<Longrightarrow> performed sh as h h'"
proof (induction as bs arbitrary: h rule: list_emb.induct)
  case (list_emb_Cons xs ys y)
  then obtain k where "prefix h k" "performed sh xs (k @ [Run y]) h'" by auto
  then show ?case by (meson performed_earlier prefixI prefix_order.trans)
qed (auto intro: performed_prefix)

lemma does_subseq: "does sh bs m \<Longrightarrow> subseq as bs \<Longrightarrow> does sh as m"
  by (auto simp: does_def intro: performed_subseq)

lemma does_seqx: "does sh as m \<Longrightarrow> does sh bs k \<Longrightarrow> does sh (as @ bs) (seqx m k)"
  unfolding does_def by (auto simp: seqx_Inr simp del: result_x(4) after_x(4) intro: performed_append)

lemma does_bindx: "does sh as m \<Longrightarrow> (\<And>x. does sh bs (f x)) \<Longrightarrow> does sh (as @ bs) (bindx m f)"
  unfolding does_def by (fastforce simp: bindx_Inr simp del: result_x(3) after_x(3) intro: performed_append)

lemma does_cmd: "does sh [argv] (cmd sh argv)"
  by (auto simp: does_def)

lemma does_cmds: "does sh argvs (cmds sh argvs)"
proof (induction argvs)
  case (Cons a as)
  then show ?case using does_seqx [OF does_cmd, of sh as _ a] by (simp add: cmds_def)
qed (simp add: does_def cmds_def)

lemma does_run_or_die: "does sh [argv] (run_or_die sh argv reason)"
  by (auto simp: does_def run_or_die_def)

lemma does_grows: "emits (\<lambda>e. True) m \<Longrightarrow> does sh [] m"
  unfolding does_def emits_def performed.simps by (metis prefixI)

lemma does_if: "does sh as m \<Longrightarrow> does sh as n \<Longrightarrow> does sh as (if c then m else n)"
  and does_throw: "does sh as (throw what)"
  by (simp_all add: does_def)

text \<open>The other steps only add to the history.\<close>

abbreviation grows :: "'a io \<Rightarrow> bool" where "grows \<equiv> emits (\<lambda>e. True)"

lemma grows_script [emits_intros]:
  "grows (cmd sh argv)" "grows (need sh c)" "grows (need_cmd sh c)" "grows (test_or_die sh flag path reason)"
  "grows (cmds sh argvs)" "grows (tried sh argv)" "grows (expand sh pattern)" "grows (run_or_die sh argv reason)"
  unfolding cmd_def need_def need_cmd_def test_or_die_def cmds_def tried_def expand_def run_or_die_def
  by (intro emits_intros TrueI)+

lemma grows_when_test [emits_intros]: "grows m \<Longrightarrow> grows (when_test sh flag path m)"
  unfolding when_test_def by (intro emits_intros TrueI)

lemma grows_extract_debs [emits_intros]: "grows (extract_debs sh out debs n)"
  by (induction debs arbitrary: n) (auto intro!: emits_intros)

lemma grows_fill_sysroot [emits_intros]: "grows (fill_sysroot sh sort_lines out arch keyring)"
  unfolding fill_sysroot_def apt_common_def build_ca_bundle_def append_cert_def check_sysroot_def
  by (intro emits_intros TrueI)

lemma grows_keyring [emits_intros]: "grows (keyring_tmp sh)" "grows (fetch_keyring sh tmp)"
  unfolding keyring_tmp_def fetch_keyring_def by (auto intro!: emits_intros split: exec_result.split)

lemma grows_bootstrap [emits_intros]: "grows (bootstrap_sysroot sh sort_lines out arch)"
  unfolding bootstrap_sysroot_def with_cleanup_def by (intro emits_intros TrueI)

lemma grows_runtime [emits_intros]:
  "grows (ensure_syspckg_sysroot sh sort_lines b sysroot)" "grows (copy_dir sh sysroot rootfs rel)"
  "grows (copy_libraries sh sysroot private_lib)" "grows (write_lines sh path ls)"
  unfolding ensure_syspckg_sysroot_def copy_dir_def copy_libraries_def write_lines_def
  by (intro emits_intros TrueI)+

lemma grows_copy_runtime: "grows (copy_syspckg_runtime_from_sysroot sh sort_lines b i)"
  unfolding copy_syspckg_runtime_from_sysroot_def copy_rpm_runtime_def copy_certificates_def copy_gpg_def
  by (intro emits_intros TrueI)

lemma grows_iso_steps:
  "grows (iso_requirements sh sort_V b)" "grows (copy_terminfo sh b)" "grows (check_images sh matches b)"
  "grows (ensure_grub_i386_pc_modules sh b i)" "grows (ensure_grub_x86_64_efi_modules sh b i)"
  unfolding iso_requirements_def require_busybox_dir_def check_toolchain_def resolve_latest_kernel_artifact_def
    copy_terminfo_def check_images_def ensure_grub_i386_pc_modules_def ensure_grub_x86_64_efi_modules_def grub_modules_def
    ensure_amd64_arch_enabled_def
  by (intro emits_intros TrueI)+

lemma grows_prefix: "grows m \<Longrightarrow> prefix h (after m h)"
  unfolding emits_def prefix_def by blast

text \<open>The steps that decide what is in the images: the trees, the archives of the trees, the media.\<close>

definition tree_steps :: "build \<Rightarrow> string list list" where
  "tree_steps b =
     [[''rm'', ''-rf'', rootfs_dir b, disk_dir b, iso_dir b],
      [''cp'', ''-a'', ''--remove-destination'', files_dir b @ ''/rootfs/.'', rootfs_dir b @ ''/''],
      [''cp'', ''-a'', ''--remove-destination'', files_dir b @ ''/initramfs-disk/.'', disk_dir b @ ''/'']]"

definition archive_steps :: "build \<Rightarrow> string list \<Rightarrow> string list \<Rightarrow> string list list" where
  "archive_steps b z z' =
     [[''cd'', rootfs_dir b], z @ [''>'', b_out_dir b @ ''/initramfs-installer.gz''],
      [''cd'', disk_dir b], z' @ [''>'', b_out_dir b @ ''/initramfs-disk.gz'']]"

definition media_steps :: "build \<Rightarrow> string \<Rightarrow> string list list" where
  "media_steps b name =
     (let boot = iso_dir b @ ''/boot''; out = b_out_dir b in
      [[''cp'', ''-f'', out @ ''/'' @ name, boot @ ''/'' @ name],
       [''cp'', ''-f'', out @ ''/initramfs-installer.gz'', boot @ ''/initramfs-installer.gz''],
       [''cp'', ''-f'', out @ ''/initramfs-disk.gz'', boot @ ''/initramfs-disk.gz''],
       [''cp'', ''-f'', files_dir b @ ''/iso/boot/grub/grub.cfg'', boot @ ''/grub/grub.cfg''],
       [''sed'', ''-i'', ''s|__KERNEL_IMAGE__|'' @ name @ ''|g'', boot @ ''/grub/grub.cfg'']])"

definition rescue_steps :: "build \<Rightarrow> string \<Rightarrow> string \<Rightarrow> string list list" where
  "rescue_steps b pc efi =
     [[''grub-mkrescue'', ''--directory='' @ pc, ''-o'', b_out_dir b @ ''/adavalinux-bios.iso'', iso_dir b],
      [''grub-mkrescue'', ''--directory='' @ efi, ''--modules=efi_gop video all_video gfxterm font'', ''-o'',
        b_out_dir b @ ''/adavalinux-uefi.iso'', iso_dir b]]"

definition compressors :: "build \<Rightarrow> string list list" where
  "compressors b = [[''pigz'', ''-9'', ''-p'', b_jobs b], [''gzip'', ''-9'']]"

lemma does_copy_template:
  "does sh [[''cp'', ''-a'', ''--remove-destination'', src @ ''/.'', dst @ ''/'']] (copy_template sh b src dst missing overwritten)"
proof -
  have "grows (bindx (lift (run sh argv)) (\<lambda>same. if same then okx () else throw overwritten))" for argv
    by (intro emits_intros TrueI)
  from does_seqx [OF does_grows [OF grows_script(4)] does_seqx [OF does_cmd does_grows [OF this]]]
  show ?thesis by (simp add: copy_template_def)
qed

lemma does_prepare: "does sh [hd (tree_steps b)] (prepare_trees sh b)"
proof -
  have "grows (seqx (bbmake sh b xs) (seqx (bbmake sh b ys) (cmd sh zs)))" for xs ys zs
    unfolding bbmake_def by (intro emits_intros)
  note prepared = does_seqx [OF does_cmds does_grows [OF this]]
  show ?thesis
    unfolding prepare_trees_def Let_def tree_steps_def list.sel
    by (rule does_subseq [OF prepared], unfold append.simps, rule list_emb_Cons, rule subseq_Cons2, rule list_emb_Nil)
qed

lemma does_fill: "does sh (tl (tree_steps b)) (fill_trees sh b)"
  unfolding fill_trees_def Let_def tree_steps_def list.sel
  by (rule does_subseq [OF does_seqx [OF does_copy_template does_seqx [OF does_copy_template does_grows]]])
    ((intro emits_intros; fail), simp)

lemma pack_image_performed:
  assumes "result (pack_image sh b dir img) h = Inr ()"
  shows "\<exists>z \<in> set (compressors b). performed sh [[''cd'', dir], z @ [''>'', img]] h (after (pack_image sh b dir img) h)"
  using assms unfolding pack_image_def compressors_def
  by (force simp: tried_def seqx_Inr bindx_Inr simp del: result_x(3,4) after_x(3,4) split: if_splits)

lemma pack_images_performed:
  assumes "result (pack_images sh b) h = Inr ()"
  shows "\<exists>z \<in> set (compressors b). \<exists>z' \<in> set (compressors b). performed sh (archive_steps b z z') h (after (pack_images sh b) h)"
proof -
  let ?live = "pack_image sh b (rootfs_dir b) (b_out_dir b @ ''/initramfs-installer.gz'')"
  let ?disk = "pack_image sh b (disk_dir b) (b_out_dir b @ ''/initramfs-disk.gz'')"
  have packed: "result ?live h = Inr ()" "result ?disk (after ?live h) = Inr ()"
    using assms unfolding pack_images_def by (simp_all only: seqx_Inr(1))
  then have ends: "after (pack_images sh b) h = after ?disk (after ?live h)"
    unfolding pack_images_def by (simp only: seqx_Inr(2))
  obtain z z' where z: "z \<in> set (compressors b)" "z' \<in> set (compressors b)"
      and live: "performed sh [[''cd'', rootfs_dir b], z @ [''>'', b_out_dir b @ ''/initramfs-installer.gz'']] h (after ?live h)"
      and disk: "performed sh [[''cd'', disk_dir b], z' @ [''>'', b_out_dir b @ ''/initramfs-disk.gz'']] (after ?live h)
        (after ?disk (after ?live h))"
    using pack_image_performed [OF packed(1)] pack_image_performed [OF packed(2)] by blast
  have "performed sh (archive_steps b z z') h (after (pack_images sh b) h)"
    using performed_append [OF live disk] unfolding ends archive_steps_def by (simp only: append.simps)
  with z show ?thesis by blast
qed

lemma does_fill_iso: "does sh (media_steps b name) (fill_iso sh b i name)"
proof -
  have "grows (when_test sh c p (cmd sh argv))" "grows (test_or_die sh c p reason)" for c p argv reason
    by (intro emits_intros)+
  note filled = does_seqx [OF does_cmds does_seqx [OF does_grows [OF this(1)] does_seqx [OF does_grows [OF this(1)]
    does_seqx [OF does_grows [OF this(2)] does_cmds]]]]
  show ?thesis
    unfolding fill_iso_def Let_def media_steps_def
    by (rule does_subseq [OF filled], unfold append.simps, rule list_emb_Cons, rule subseq_order.order_refl)
qed

lemma does_make_rescue: "does sh (rescue_steps b pc efi) (make_rescue sh b pc efi)"
  unfolding make_rescue_def Let_def rescue_steps_def
  by (rule does_subseq [OF does_seqx [OF does_run_or_die does_seqx [OF does_run_or_die does_cmds]]], unfold append.simps)
    (intro list_emb_Cons subseq_order.order_refl)

lemma doesD: "does sh argvs m \<Longrightarrow> result m h = Inr x \<Longrightarrow> performed sh argvs h (after m h)"
  by (auto simp: does_def)

abbreviation rescue_images :: "shell \<Rightarrow> build \<Rightarrow> iso_config \<Rightarrow> unit xio" where
  "rescue_images sh b i \<equiv>
     bindx (ensure_grub_i386_pc_modules sh b i) (\<lambda>pc. bindx (ensure_grub_x86_64_efi_modules sh b i) (make_rescue sh b pc))"

lemma rescue_performed:
  assumes "result (rescue_images sh b i) h = Inr ()"
  shows "\<exists>pc efi. performed sh (rescue_steps b pc efi) h (after (rescue_images sh b i) h)"
proof -
  let ?pc = "ensure_grub_i386_pc_modules sh b i" and ?efi = "ensure_grub_x86_64_efi_modules sh b i"
  obtain pc efi where *: "result ?pc h = Inr pc" "result ?efi (after ?pc h) = Inr efi"
      and made: "result (make_rescue sh b pc efi) (after ?efi (after ?pc h)) = Inr ()"
    using assms by (auto simp only: bindx_Inr(1))
  have ends: "after (rescue_images sh b i) h = after (make_rescue sh b pc efi) (after ?efi (after ?pc h))"
    using * by (simp only: bindx_Inr(2))
  have "prefix h (after ?efi (after ?pc h))"
    by (rule prefix_order.trans [OF grows_prefix grows_prefix]) (rule grows_iso_steps)+
  from performed_earlier [OF this doesD [OF does_make_rescue made]] show ?thesis
    unfolding ends by blast
qed

lemma grows_install_syspckg: "grows (install_syspckg sh b)"
  unfolding install_syspckg_def by (intro emits_intros TrueI)

text \<open>Everything after the tools have been found.\<close>

definition iso_body ::
  "shell \<Rightarrow> (string list \<Rightarrow> string list) \<Rightarrow> (string \<Rightarrow> string \<Rightarrow> bool) \<Rightarrow> build \<Rightarrow> iso_config \<Rightarrow> string \<Rightarrow> unit xio" where
  "iso_body sh sort_lines matches b i name =
     seqx (seqx (prepare_trees sh b) (seqx (fill_trees sh b) (seqx (install_syspckg sh b)
       (seqx (copy_syspckg_runtime_from_sysroot sh sort_lines b i) (copy_terminfo sh b)))))
     (seqx (pack_images sh b) (seqx (seqx (check_images sh matches b) (fill_iso sh b i name))
       (rescue_images sh b i)))"

lemma seqx_assoc: "seqx (seqx m n) k = seqx m (seqx n k)"
  by (rule state.expand, rule ext) (simp add: run_state_result_after split: sum.split)

lemma make_iso_body:
  "make_iso sh sort_V sort_lines matches b i = bindx (iso_requirements sh sort_V b) (iso_body sh sort_lines matches b i)"
  unfolding make_iso_def iso_body_def seqx_assoc by simp

lemma does_filled_trees:
  "does sh (tree_steps b) (seqx (prepare_trees sh b) (seqx (fill_trees sh b) (seqx (install_syspckg sh b)
     (seqx (copy_syspckg_runtime_from_sysroot sh sort_lines b i) (copy_terminfo sh b)))))"
  by (rule does_subseq [OF does_seqx [OF does_prepare does_seqx [OF does_fill does_seqx [OF does_grows [OF grows_install_syspckg]
    does_seqx [OF does_grows [OF grows_copy_runtime] does_grows [OF grows_iso_steps(2)]]]]]])
    (simp add: tree_steps_def)

lemma iso_body_performed:
  assumes "result (iso_body sh sort_lines matches b i name) h = Inr ()"
  shows "\<exists>z \<in> set (compressors b). \<exists>z' \<in> set (compressors b). \<exists>pc efi.
    performed sh (tree_steps b @ archive_steps b z z' @ media_steps b name @ rescue_steps b pc efi) h
      (after (iso_body sh sort_lines matches b i name) h)"
proof -
  let ?trees = "seqx (prepare_trees sh b) (seqx (fill_trees sh b) (seqx (install_syspckg sh b)
     (seqx (copy_syspckg_runtime_from_sysroot sh sort_lines b i) (copy_terminfo sh b))))"
  let ?pack = "pack_images sh b" and ?media = "seqx (check_images sh matches b) (fill_iso sh b i name)"
  let ?rescue = "rescue_images sh b i"
  define h1 where "h1 = after ?trees h"
  define h2 where "h2 = after ?pack h1"
  define h3 where "h3 = after ?media h2"
  have ok: "result ?trees h = Inr ()" "result ?pack h1 = Inr ()" "result ?media h2 = Inr ()" "result ?rescue h3 = Inr ()"
    using assms unfolding iso_body_def h1_def h2_def h3_def by (auto simp only: seqx_Inr(1))
  have ends: "after (iso_body sh sort_lines matches b i name) h = after ?rescue h3"
    using ok unfolding iso_body_def h1_def h2_def h3_def by (simp only: seqx_Inr(2))
  have "does sh (media_steps b name) ?media"
    by (rule does_subseq [OF does_seqx [OF does_grows [OF grows_iso_steps(3)] does_fill_iso]]) simp
  note media = doesD [OF this ok(3), folded h3_def]
  note trees = doesD [OF does_filled_trees ok(1), folded h1_def]
  obtain z z' where z: "z \<in> set (compressors b)" "z' \<in> set (compressors b)"
      and pack: "performed sh (archive_steps b z z') h1 h2"
    using pack_images_performed [OF ok(2)] unfolding h2_def by blast
  obtain pc efi where rescue: "performed sh (rescue_steps b pc efi) h3 (after ?rescue h3)"
    using rescue_performed [OF ok(4)] by blast
  from performed_append [OF trees performed_append [OF pack performed_append [OF media rescue]]] z show ?thesis
    unfolding ends by blast
qed

lemma requirements_kernel:
  assumes "result (iso_requirements sh sort_V b) h = Inr name"
  defines "h0 \<equiv> after (iso_requirements sh sort_V b) h"
  shows "sort_V (kernel_artifacts sh b h0) \<noteq> []" and "name = last (sort_V (kernel_artifacts sh b h0))"
  using assms(1) unfolding h0_def iso_requirements_def resolve_latest_kernel_artifact_def
  by (auto simp: seqx_Inr bindx_Inr simp del: result_x(3,4) after_x(3,4) split: if_splits)

text \<open>The last of the sorted names is the newest.\<close>

lemma last_newest:
  assumes "version_sort cmp (\<lambda>xs. rev (sort_V xs))" and "sort_V xs \<noteq> []"
  shows "last (sort_V xs) \<in> set xs" and "v \<in> set xs \<Longrightarrow> 0 \<le> cmp (last (sort_V xs)) v"
proof -
  have "rev (sort_V xs) = last (sort_V xs) # rev (butlast (sort_V xs))"
    using assms(2) by (cases "sort_V xs" rule: rev_cases) simp_all
  from version_sort.head_newest [OF assms(1) this] show "v \<in> set xs \<Longrightarrow> 0 \<le> cmp (last (sort_V xs)) v" .
  have "set (sort_V xs) = set xs" using version_sort.sort_set [OF assms(1), of xs] by simp
  with last_in_set [OF assms(2)] show "last (sort_V xs) \<in> set xs" by (simp only:)
qed

lemma replace_all_steps:
  "replace_all old new [] = []"
  "old \<noteq> [] \<Longrightarrow> replace_all old new (c # s) =
     (if prefix old (c # s) then new @ replace_all old new (drop (length old) (c # s)) else c # replace_all old new s)"
  by (simp_all add: replace_all.simps [of old new "[]"] replace_all.simps [of old new "c # s"])

text \<open>A name that the shell takes as one word and \<^verbatim>\<open>sed\<close> as it is.\<close>

definition plain_name :: "string \<Rightarrow> bool" where
  "plain_name n \<longleftrightarrow> word_ok n \<and> list_all (\<lambda>c. c \<noteq> CHR ''&'' \<and> c \<noteq> CHR ''|'' \<and> c \<noteq> CHR 0x5C) n"

definition menu_loads :: "string \<Rightarrow> string list" where
  "menu_loads name =
     concat (replicate 4 [''/boot/'' @ name, ''/boot/initramfs-installer.gz'']) @ [''/boot/memtest86+.bin'', ''/boot/memtest86+x64.efi'']"

lemma linux_line_loads:
  assumes "plain_name name"
  shows "loaded_file (''    linux /boot/'' @ name @ CHR '' '' # rest) = Some (''/boot/'' @ name)"
proof -
  have "words (''    linux /boot/'' @ name @ CHR '' '' # rest) = words (''    linux /boot/'' @ name) @ words rest"
    using words_blank [of "''    linux /boot/'' @ name" rest] by simp
  moreover have "words (''    linux /boot/'' @ name) = [''linux'', ''/boot/'' @ name]"
    using assms words_from_append [of name "''/boot/''" "[]"] by (simp add: words_def is_ifs_def plain_name_def word_ok_def)
  ultimately show ?thesis by (simp add: loaded_file_def)
qed

lemma other_line_loads:
  assumes "c \<notin> {''linux'', ''linux16'', ''initrd''}" and "words l = c # ws"
  shows "loaded_file l = None"
  using assms by (auto simp: loaded_file_def split: list.split)

lemma loaded_files_simps [simp]:
  "loaded_files [] = []" "loaded_files (ls @ ls') = loaded_files ls @ loaded_files ls'"
  "loaded_files (l # ls) = (case loaded_file l of None \<Rightarrow> [] | Some f \<Rightarrow> [f]) @ loaded_files ls"
  by (auto simp: loaded_files_def map_filter_def split: option.split)

abbreviation with_kernel :: "string \<Rightarrow> string \<Rightarrow> string" where
  "with_kernel name \<equiv> replace_all ''__KERNEL_IMAGE__'' name"

lemma iso_entry_loads:
  assumes "plain_name name"
  shows "loaded_files (map (with_kernel name) (iso_entry title args)) = [''/boot/'' @ name, ''/boot/initramfs-installer.gz'']"
proof -
  have "with_kernel name (''menuentry '' @ rest) = ''menuentry'' @ CHR '' '' # with_kernel name rest" for rest
    by (simp add: replace_all_steps)
  moreover have "words (''menuentry'' @ CHR '' '' # l) = ''menuentry'' # words l" for l
    unfolding words_blank by (simp add: words_def is_ifs_def)
  ultimately have title: "loaded_file (with_kernel name (''menuentry '' @ rest)) = None" for rest
    using other_line_loads [of "''menuentry''"] by simp
  have "with_kernel name (''    linux /boot/__KERNEL_IMAGE__ '' @ rest) = ''    linux /boot/'' @ name @ CHR '' '' # with_kernel name rest"
    for rest by (simp add: replace_all_steps)
  from this [of "''rdinit=/init console=tty0'' @ args"]
  have linux: "loaded_file (with_kernel name (''    linux /boot/__KERNEL_IMAGE__ rdinit=/init console=tty0'' @ args)) = Some (''/boot/'' @ name)"
    using linux_line_loads [OF assms] by simp
  have rest: "loaded_files (map (with_kernel name) [''    echo '' @ [SQ] @ ''Loading Linux ...'' @ [SQ]]) = []"
      "loaded_files (map (with_kernel name) [''    echo '' @ [SQ] @ ''Loading initramfs...'' @ [SQ],
        ''    initrd /boot/initramfs-installer.gz'', ''}'', []]) = [''/boot/initramfs-installer.gz'']"
    by (simp_all add: replace_all_steps loaded_file_def words_def is_ifs_def)
  show ?thesis
    using title linux rest unfolding iso_entry_def list.map loaded_files_simps append.simps option.case by simp
qed

lemma iso_memtest_loads:
  "loaded_files (map (with_kernel name) (iso_memtest ''pc'' ''/boot/memtest86+.bin'' ''Memtest86+ (BIOS)'' ''linux16''))
     = [''/boot/memtest86+.bin'']"
  "loaded_files (map (with_kernel name) (iso_memtest ''efi'' ''/boot/memtest86+x64.efi'' ''Memtest86+ (UEFI)'' ''linux''))
     = [''/boot/memtest86+x64.efi'']"
  "loaded_files (map (with_kernel name) [''set timeout=5'', ''set default=0'', ''terminal_input console'', ''terminal_output console'', []])
     = []"
  "loaded_files (map (with_kernel name) [[]]) = []"
  by (simp_all add: iso_memtest_def replace_all_steps loaded_file_def words_def is_ifs_def)

lemma iso_menu_loads: "plain_name name \<Longrightarrow> loaded_files (iso_menu name) = menu_loads name"
  unfolding iso_menu_def iso_grub_cfg_def menu_loads_def map_append loaded_files_simps(2) iso_memtest_loads
  by (simp add: iso_entry_loads numeral_eq_Suc)

lemma sanity_pattern_branch: "[] \<in> set (branches_from [] sanity_pattern)"
  by code_simp

lemma text_lines_empty: "text_lines t = [] \<longleftrightarrow> t = []"
proof -
  have "lines_from l s = [] \<longleftrightarrow> l = [] \<and> s = []" for l s
    by (induction l s rule: lines_from.induct) auto
  then show ?thesis by (simp add: text_lines_def)
qed

lemma sanity_pattern_all:
  assumes "\<And>l. matches [] l"
  shows "grep_E matches sanity_pattern ls \<longleftrightarrow> ls \<noteq> []"
  using sanity_pattern_branch assms by (cases ls) (auto simp: grep_E_def list_ex_iff)

text \<open>The history when the archive of the installer has been unpacked for the check.\<close>

definition unpacked :: "shell \<Rightarrow> build \<Rightarrow> history \<Rightarrow> history" where
  "unpacked sh b h =
     h @ [Run [''command'', ''-v'', ''pigz''],
       Run [if e_run (sh_env sh) h [''command'', ''-v'', ''pigz''] = Exited 0 then ''pigz'' else ''gzip'', ''-dc'',
         b_out_dir b @ ''/initramfs-installer.gz'']]"

section \<open>Properties\<close>


text \<open>A project with two kernels on a host that has everything.\<close>

definition iso_shell :: shell where
  "iso_shell =
     \<lparr>sh_env = (listing_env []) \<lparr>
        e_lstat := \<lambda>h p. Inr \<lparr>st_kind = S_REG, st_mode = 420\<rparr>,
        e_opendir := \<lambda>h p. Some [''.'', ''..'', ''vmlinuz-6.10'', ''adavalinux-bios.iso'', ''vmlinuz-6.9''],
        e_capture := \<lambda>h argv. Ran (''ELF 64-bit LSB pie executable, x86-64'' @ [LF]) (Exited 0)\<rparr>,
      sh_test = \<lambda>h c p. True\<rparr>"

definition iso_example :: iso_config where
  "iso_example = \<lparr>i_sysroot = ''/s'', i_grub_pc = [], i_grub_efi = [], i_memtest_bios = ''/boot/mt86+ia32'', i_memtest_uefi = ''/boot/mt86+x64''\<rparr>"


text \<open>
  C31. The check of the archives before the media are made accepts every archive for the installer that has any
  entry, whatever its name is, as the pattern that \<^verbatim>\<open>grep\<close> is given has an empty branch; and it starts no command that
  reads the other archive. It only relies on an empty branch matching every line.
\<close>

theorem sanity_check_accepts_any_entry:
  assumes "\<And>l. matches [] l"
  shows "after (check_images sh matches b) h = unpacked sh b h @ [Run [''cpio'', ''-it'']] \<and>
    (result (check_images sh matches b) h = Inr () \<longleftrightarrow>
     output_of (e_capture (sh_env sh) (unpacked sh b h) [''cpio'', ''-it'']) \<noteq> [])"
  using sanity_pattern_all [of matches] assms by (simp add: check_images_def text_lines_empty unpacked_def)

theorem sanity_check_accepts_any_entry_witness:
  "(\<forall>l. prefix [] l) \<and> result (check_images iso_shell prefix example_build) [] = Inr ()"
  using sanity_check_accepts_any_entry [of prefix iso_shell example_build "[]"] by (simp add: iso_shell_def output_of_def)

end
