(* ===== verification/BootChain.thy ===== *)
theory BootChain
  imports InstallerRun BootMenu
begin

text \<open>
  What a successful installation leaves for the boot loader: the defaults of GRUB on the new root file
  system. The programs that the installer starts are taken not to change this file.
\<close>

abbreviation GRUB_DEFAULTS :: string where "GRUB_DEFAULTS \<equiv> ROOT_MNT @ ''/etc/default/grub''"

lemma keeps_defaults [simp]:
  "quiet (keeps_file path)" "keeps_file path (Run argv)" "keeps_file path (Progress p l)" "keeps_file path (Log l)"
  by (simp_all add: quiet_def keeps_file_def)

lemma boot_parts_keep:
  "emits (keeps_file path) (generate_grub_config env)" "emits (keeps_file path) (install_bootloader env cfg efi)"
  "emits (keeps_file path) (finish_installation env)"
  unfolding generate_grub_config_def install_bootloader_def install_bootloader_efi_def install_bootloader_bios_def
    resolve_grub_platform_dir_def finish_installation_def
  by (intro emits_intros quiet_intros emits_step emits_grub_dir_at; simp)+

lemma and_then_True:
  "result (and_then m k) h \<longleftrightarrow> result m h \<and> result k (after m h)"
  "result m h \<Longrightarrow> after (and_then m k) h = after k (after m h)"
  by (simp_all add: and_then_def)

lemma write_default_grub_file_written:
  assumes "result (write_default_grub_file env cfg root_arg) h"
  shows "installer_build_default_grub_config (Some root_arg) (c_acpi_mode cfg) 1024
    = Some (written GRUB_DEFAULTS c (after (write_default_grub_file env cfg root_arg) h))"
proof (cases "installer_build_default_grub_config (Some root_arg) (c_acpi_mode cfg) 1024")
  case None
  with assms show ?thesis by (simp add: write_default_grub_file_def with_some_def)
next
  case (Some t)
  let ?made = "shell_checked env (''mkdir -p '' @ ROOT_MNT @ ''/etc/default'')"
  have ok: "result (and_then ?made (installer_write_file env GRUB_DEFAULTS t)) h"
    using assms Some by (auto simp: write_default_grub_file_def with_some_def split: if_splits)
  then have "after (write_default_grub_file env cfg root_arg) h = after ?made h @ [WriteFile GRUB_DEFAULTS t]"
    using Some by (simp add: write_default_grub_file_def with_some_def and_then_True installer_write_file_def)
  with Some show ?thesis by simp
qed

lemma write_boot_config_written:
  assumes "result (write_boot_config env cfg part) h"
  shows "\<exists>r. installer_build_root_arg (Some part) 192 = Some r \<and>
    installer_build_default_grub_config (Some r) (c_acpi_mode cfg) 1024
      = Some (written GRUB_DEFAULTS c (after (write_boot_config env cfg part) h))"
proof -
  let ?dir = "run_checked env [''mkdir'', ''-p'', ROOT_MNT @ ''/boot/grub2'']"
  obtain r where r: "installer_build_root_arg (Some part) 192 = Some r"
    using assms by (auto simp: write_boot_config_def and_then_True fail_with_def split: option.splits)
  then obtain h1 where h1: "result (write_default_grub_file env cfg r) h1"
      and "after (write_boot_config env cfg part) h = after (generate_grub_config env) (after (write_default_grub_file env cfg r) h1)"
    using assms by (auto simp: write_boot_config_def and_then_True)
  with r write_default_grub_file_written [OF h1, of c] show ?thesis by (simp add: written_keeps boot_parts_keep)
qed

lemma install_system_written:
  assumes "result (install_system env cfg part efi) h"
  shows "\<exists>r. installer_build_root_arg (Some part) 192 = Some r \<and>
    installer_build_default_grub_config (Some r) (c_acpi_mode cfg) 1024
      = Some (written GRUB_DEFAULTS c (after (install_system env cfg part efi) h))"
proof -
  obtain h1 where h1: "result (write_boot_config env cfg part) h1"
      and "after (install_system env cfg part efi) h
        = after (finish_installation env) (after (install_bootloader env cfg efi) (after (write_boot_config env cfg part) h1))"
    using assms by (auto simp: install_system_def and_then_True)
  with write_boot_config_written [OF h1, of c] show ?thesis by (simp add: written_keeps boot_parts_keep)
qed

lemma installation_written:
  assumes "result (installer_run_install env cfg) h" and "c_action cfg = INSTALLER_ACTION_INSTALL"
  shows "\<exists>part r. target_part cfg = Some part \<and> installer_build_root_arg (Some part) 192 = Some r \<and>
    installer_build_default_grub_config (Some r) (c_acpi_mode cfg) 1024
      = Some (written GRUB_DEFAULTS c (after (installer_run_install env cfg) h))"
proof -
  obtain part efi h1 where part: "target_part cfg = Some part" and h1: "result (install_system env cfg part efi) h1"
      and "after (installer_run_install env cfg) h = after (install_system env cfg part efi) h1"
    using assms
    by (auto simp: installer_run_install_def erase_and_install_def and_then_True with_some_def split: if_splits option.splits)
  with part install_system_written [OF h1, of c] show ?thesis by simp
qed

section \<open>A complete installation\<close>

text \<open>A machine on which every program and every call is successful.\<close>

definition working_env :: env where
  "working_env = (listing_env []) \<lparr>
     e_open := \<lambda>h p. Some [], e_access := \<lambda>h p m. True, e_stat := \<lambda>h p. Inr \<lparr>st_kind = S_BLK, st_mode = 0\<rparr>,
     e_glob := \<lambda>h p. [''/mnt/install/boot/vmlinuz-6.10''],
     e_capture := \<lambda>h argv. Ran ''hash'' (Exited 0)\<rparr>"

definition example_config :: InstallerConfig where
  "example_config =
     \<lparr>c_install_media = ''/dev/sr0'', c_disk = ''/dev/sda'', c_action = INSTALLER_ACTION_INSTALL,
      c_boot_mode = INSTALLER_BOOT_BIOS, c_acpi_mode = INSTALLER_ACPI_ON, c_part_size = [], c_username = ''u'',
      c_password = ''p'', c_root_password = ''r'', c_hostname = ''h''\<rparr>"

lemma working_env_simps [simp]:
  "e_open working_env h p = Some []" "e_access working_env h p m" "e_stat working_env h p = Inr \<lparr>st_kind = S_BLK, st_mode = 0\<rparr>"
  "e_glob working_env h p = [''/mnt/install/boot/vmlinuz-6.10'']" "e_capture working_env h argv = Ran ''hash'' (Exited 0)"
  "e_exec working_env h argv = Ran [] (Exited 0)" "e_call working_env h e = None" "e_getenv working_env n = None"
  by (simp_all add: working_env_def listing_env_def)

lemma working_commands [simp]:
  "argv \<noteq> [] \<Longrightarrow> result (installer_run_command working_env argv) h = 0"
  "argv \<noteq> [] \<Longrightarrow> result (run_checked working_env argv) h"
  "result (shell_checked working_env c) h"
  "result (run_built working_env (Some c)) h"
  by (simp_all add: installer_run_command_def run_checked_def shell_checked_def run_built_def checked_def
      installer_run_shell_def with_some_def Let_def)

lemma working_write [simp]: "result (installer_write_file working_env p c) h" "result (installer_is_block_device working_env p) h"
  by (simp_all add: installer_write_file_def installer_is_block_device_def)

lemma example_config_simps [simp]:
  "c_install_media example_config = ''/dev/sr0''" "c_disk example_config = ''/dev/sda''"
  "c_action example_config = INSTALLER_ACTION_INSTALL" "c_boot_mode example_config = INSTALLER_BOOT_BIOS"
  "c_part_size example_config = []" "c_username example_config = ''u''" "c_hostname example_config = ''h''"
  "c_acpi_mode example_config = INSTALLER_ACPI_ON"
  by (simp_all add: example_config_def)

lemma example_disks:
  "installer_supported_disk (Some ''/dev/sda'')" "\<not> installer_supported_disk (Some ''/dev/sr0'')"
  "parent_disk (Some ''/dev/sr0'') 64 = None" "mount_table [] = []"
  by code_simp+

lemma working_prepare: "result (prepare_devices working_env example_config) h"
  by (simp add: prepare_devices_def example_disks)

lemma working_media: "result (mount_media working_env example_config) h = Some ''/dev/sr0''"
  by (simp add: mount_media_def detect_media_def selected_media_def example_disks try_mount_install_media_def trunc_def)

lemma working_erase: "result (erase_allowed working_env example_config ''/dev/sr0'') h"
  by (simp add: erase_allowed_def example_disks mount_dev_at_def)

lemma working_tools: "result (install_tools working_env example_config) h"
  by (simp add: install_tools_def install_grub_pkg_def grub_packages_def and_then_True installer_build_syspckg_install_argv_def)

lemma example_fdisk: "\<exists>c. fdisk_command example_config = Some c"
  by (simp add: fdisk_command_def installer_build_fdisk_script_def fits_def last_sector_def quoted_def)

lemma working_partition: "result (partition_disk working_env example_config ''/dev/sda1'' []) h"
  using example_fdisk by (auto simp: partition_disk_def and_then_True wait_for_partitions_def numeral_eq_Suc)

lemma working_format: "result (format_partitions working_env example_config ''/dev/sda1'' []) h"
  by (simp add: format_partitions_def and_then_True)

lemma eval_replicate: "replicate (numeral k) x = x # replicate (pred_numeral k) x"
  by (simp add: numeral_eq_Suc)

lemma example_commands:
  "\<exists>c. installer_build_syspckg_state_cleanup_command (Some ROOT_MNT) 1024 = Some c"
  "\<exists>c. installer_build_shutdown_links_command (Some ROOT_MNT) 1024 = Some c"
  "\<exists>c. installer_build_copy_grub_mkconfig_command (Some ROOT_MNT) 1024 = Some c"
  "\<exists>c. installer_build_disable_standard_grub_generators_command (Some ROOT_MNT) 1024 = Some c"
  "\<exists>c. installer_build_prepare_grub_chroot_command (Some ROOT_MNT) 1024 = Some c"
  "\<exists>c. installer_build_grub_mkconfig_command (Some ROOT_MNT) 1024 = Some c"
  "\<exists>c. installer_build_grub_compat_config_command (Some ROOT_MNT) 1024 = Some c"
  by (simp_all add: installer_build_syspckg_state_cleanup_command_def installer_build_shutdown_links_command_def
      installer_build_copy_grub_mkconfig_command_def installer_build_disable_standard_grub_generators_command_def
      installer_build_prepare_grub_chroot_command_def installer_build_grub_mkconfig_command_def
      installer_build_grub_compat_config_command_def root_command_def fits_def eval_replicate)

lemma working_built [simp]: "\<exists>c. cmd = Some c \<Longrightarrow> result (run_built working_env cmd) h"
  by auto

lemma working_extract: "result (extract_root working_env ''/dev/sda1'') h"
  by (simp add: extract_root_def and_then_True copy_memtest_def example_commands)

lemma working_packages: "result (install_target_packages working_env example_config) h"
  by (simp add: install_target_packages_def and_then_True sync_target_resolver_def grub_packages_def install_grub_pkg_def
      installer_build_syspckg_root_install_argv_def example_commands)

lemma working_upsert: "name \<noteq> [] \<Longrightarrow> CHR '':'' \<notin> set name \<Longrightarrow> length path < 2000 \<Longrightarrow> result (upsert_or_log working_env what path name record) h"
  by (simp add: upsert_or_log_def upsert_colon_record_def with_some_def fits_def and_then_True)

lemma chomp_hash: "chomp ''hash'' = ''hash''"
  by code_simp

lemma working_accounts: "result (create_accounts working_env example_config) h"
  by (simp add: create_accounts_def write_user_files_def hash_password_def captured_by_def capture_command_def chomp_hash
      installer_command_exists_def and_then_True write_home_def write_records_def write_host_files_def working_upsert Let_def)

lemma working_kernel: "result (copy_kernel working_env) h"
  by (simp add: copy_kernel_def find_kernel_def find_first_glob_def bind_some_def)

lemma working_boot_config: "result (write_boot_config working_env example_config ''/dev/sda1'') h"
  by (simp add: write_boot_config_def and_then_True write_default_grub_file_def generate_grub_config_def with_some_def
     installer_build_root_arg_def installer_build_default_grub_config_def fits_def example_commands)

lemma working_bootloader: "result (install_bootloader working_env example_config efi) h"
  by (simp add: install_bootloader_def install_bootloader_bios_def resolve_grub_platform_dir_def grub_bases_def grub_dir_at_def fits_def with_some_def and_then_True)

lemma working_installation: "result (installer_run_install working_env example_config) h"
proof -
  have "target_part example_config = Some ''/dev/sda1''" "efi_part example_config = Some []"
    by (simp_all add: target_part_def efi_part_def installer_partition_path_def, code_simp)
  then show ?thesis
    by (simp add: installer_run_install_def erase_and_install_def install_system_def and_then_True with_some_def
        working_prepare working_media working_erase working_tools working_partition working_format working_extract
        working_packages working_accounts working_kernel working_boot_config working_bootloader finish_installation_def)
qed

section \<open>A complete start\<close>

text \<open>The kernel is started with the first entry of the menu, and all that the RAM disk tries works.\<close>

abbreviation FIRST_ENTRY :: menu_entry where "FIRST_ENTRY \<equiv> hd (fst (snd example_menu))"

definition booted_shell :: shell where
  "booted_shell =
     \<lparr>sh_env = (listing_env []) \<lparr>
        e_open := \<lambda>h p. if p = ''/proc/cmdline''
          then Some (''BOOT_IMAGE=/boot/vmlinuz-6.10'' @ '' '' @ me_args FIRST_ENTRY) else None\<rparr>,
      sh_test = \<lambda>h c p. True\<rparr>"

lemma booted_shell_simps [simp]:
  "e_run (sh_env booted_shell) h argv = Exited 0" "sh_test booted_shell h c p"
  "e_open (sh_env booted_shell) h ''/proc/cmdline'' = Some (''BOOT_IMAGE=/boot/vmlinuz-6.10'' @ '' '' @ me_args FIRST_ENTRY)"
  by (simp_all add: booted_shell_def listing_env_def)

lemma booted_steps:
  "result (mount_essential_fs booted_shell) h" "result (wait_for_root booted_shell dev) h"
  "result (move_mounts_to_newroot booted_shell) h"
  by (simp_all add: mount_essential_fs_def mount_dev_def ensure_node_def or_else_def and_then_def
      wait_for_root_def move_mounts_to_newroot_def wait_loop_result exI [of _ 0])

lemma booted_words:
  "words (''BOOT_IMAGE=/boot/vmlinuz-6.10'' @ '' '' @ me_args FIRST_ENTRY)
   = [''BOOT_IMAGE=/boot/vmlinuz-6.10''] @ words (me_args FIRST_ENTRY)"
proof -
  have "words ''BOOT_IMAGE=/boot/vmlinuz-6.10'' = [''BOOT_IMAGE=/boot/vmlinuz-6.10'']" by code_simp
  then show ?thesis
    by (simp only: append_Cons [of "CHR '' ''"] append_Nil words_blank append_Cons [of "''BOOT_IMAGE=/boot/vmlinuz-6.10''"])
qed

lemma first_entry_listed: "FIRST_ENTRY \<in> set (fst (snd example_menu) @ snd (snd example_menu))"
  using menu_entries_Some(2) [OF example_menu_made] by (cases "fst (snd example_menu)") (auto simp: top_entries_def)

lemma example_target: "target_part example_config = Some ''/dev/sda1''"
  by (simp add: target_part_def installer_partition_path_def) code_simp

lemma example_defaults:
  "menu_defaults installed_shell [] = Some (written GRUB_DEFAULTS c (after (installer_run_install working_env example_config) h))"
proof -
  have "menu_defaults installed_shell [] = Some example_grub"
    by (simp add: menu_defaults_def readable_def installed_shell_def boot_prefix_def listing_env_def)
  moreover have "installer_build_default_grub_config (Some ''root=/dev/sda1'') INSTALLER_ACPI_ON 1024
      = Some (written GRUB_DEFAULTS c (after (installer_run_install working_env example_config) h))"
    using installation_written [OF working_installation, of c h]
    by (auto simp: example_target installer_build_root_arg_def fits_def)
  ultimately show ?thesis by (simp add: example_grub_def)
qed

end
