(* ===== verification/KernelUpdate.thy ===== *)
theory KernelUpdate
  imports Boot BootMenu
begin

text \<open>
  What the kernel update of the old package manager (\<^verbatim>\<open>write_default_grub\<close> of \<^verbatim>\<open>tools/syspckg-old/main.c\<close>) makes of
  the defaults of GRUB that the installer has written.
\<close>

section \<open>The root argument is found again\<close>

abbreviation GRUB_KEY :: string where "GRUB_KEY \<equiv> ''GRUB_CMDLINE_LINUX='' @ [DQ]"

definition plain_device :: "string \<Rightarrow> bool" where
  "plain_device dev \<longleftrightarrow> list_all (\<lambda>c. \<not> root_arg_end c \<and> c \<noteq> NUL) dev"

lemma plain_device_chars:
  assumes "plain_device dev"
  shows "LF \<notin> set dev" "DQ \<notin> set dev" "NUL \<notin> set dev" "list_all (\<lambda>c. \<not> is_ifs c) dev"
proof -
  have "root_arg_end LF" "root_arg_end DQ" "root_arg_end HT" "root_arg_end (CHR '' '')" by code_simp+
  moreover from this have "root_arg_end c" if "is_ifs c" for c using that by (auto simp: is_ifs_def)
  ultimately show "LF \<notin> set dev" "DQ \<notin> set dev" "NUL \<notin> set dev" "list_all (\<lambda>c. \<not> is_ifs c) dev"
    using assms by (auto simp: plain_device_def list_all_iff)
qed

lemma root_arg_in_line:
  assumes "plain_device dev"
  shows "root_arg_lines ((GRUB_KEY @ (''root='' @ dev) @ '' '' @ rest) # ls) k = fits k (''root='' @ dev)"
proof -
  have "strstr (GRUB_KEY @ (''root='' @ dev) @ '' '' @ rest) ''root='' = Some 20" by simp
  moreover have "takeWhile (\<lambda>c. \<not> root_arg_end c) ((''root='' @ dev) @ '' '' @ rest) = ''root='' @ dev"
  proof (rule trans [OF takeWhile_append2])
    show "\<not> root_arg_end c" if "c \<in> set (''root='' @ dev)" for c
    proof -
      have "list_all (\<lambda>c. \<not> root_arg_end c) ''root=''" by code_simp
      then show ?thesis using that assms by (auto simp: plain_device_def list_all_iff)
    qed
    show "(''root='' @ dev) @ takeWhile (\<lambda>c. \<not> root_arg_end c) ('' '' @ rest) = ''root='' @ dev"
      by (simp add: root_arg_end_def isspace_def)
  qed
  ultimately show ?thesis by (simp add: Let_def)
qed

lemma other_lines_no_root:
  "root_arg_lines (map (\<lambda>l. l @ [LF]) [''GRUB_TIMEOUT=10'', ''GRUB_TIMEOUT_STYLE=menu'', ''GRUB_DEFAULT=0'',
     ''GRUB_TERMINAL_INPUT=console'', ''GRUB_TERMINAL_OUTPUT=gfxterm'', ''GRUB_GFXMODE=1024x768x32,1024x768,800x600,auto'',
     ''GRUB_GFXPAYLOAD_LINUX=keep''] @ ls) k = root_arg_lines ls k"
  by simp

lemma root_arg_read_back:
  assumes "installer_build_default_grub_config (Some (''root='' @ dev)) acpi_mode n = Some text"
    and "plain_device dev" and "length dev < 250"
  shows "root_arg_lines (fgets_lines 2047 text) 256 = Some (''root='' @ dev)"
proof -
  have "length (installer_args acpi_mode) < 200" "LF \<notin> set (installer_args acpi_mode)" "NUL \<notin> set (installer_args acpi_mode)"
    by (simp_all add: installer_args_def)
  then have lines: "fgets_lines 2047 text = map (\<lambda>l. l @ [LF])
    ([''GRUB_TIMEOUT=10'', ''GRUB_TIMEOUT_STYLE=menu'', ''GRUB_DEFAULT=0'', ''GRUB_TERMINAL_INPUT=console'',
     ''GRUB_TERMINAL_OUTPUT=gfxterm'', ''GRUB_GFXMODE=1024x768x32,1024x768,800x600,auto'', ''GRUB_GFXPAYLOAD_LINUX=keep''] @
     [''GRUB_CMDLINE_LINUX='' @ [DQ] @ (''root='' @ dev) @ '' '' @ installer_args acpi_mode @ [DQ],
     ''GRUB_CMDLINE_LINUX_DEFAULT='' @ [DQ] @ ''quiet'' @ [DQ]])"
    unfolding config_lines [OF assms(1)] using assms(3) plain_device_chars [OF assms(2)]
    by (subst fgets_lines_concat) auto
  show ?thesis
    unfolding lines map_append other_lines_no_root
    using root_arg_in_line [OF assms(2), of "installer_args acpi_mode @ [DQ] @ [LF]"] assms(3)
    by (simp add: fits_def del: root_arg_lines.simps)
qed

section \<open>The command line that is written\<close>

lemma default_grub_words:
  assumes "word_ok r" "DQ \<notin> set r"
  shows "words (kernel_cmdline (Some (default_grub_text r))) = r # words (installer_args INSTALLER_ACPI_ON) @ [''quiet'']"
proof -
  let ?args = "installer_args INSTALLER_ACPI_ON"
  have made: "default_grub_text r = concat (map (\<lambda>l. l @ [LF])
      [''GRUB_TIMEOUT=10'', ''GRUB_DEFAULT=0'', ''GRUB_CMDLINE_LINUX='' @ [DQ] @ r @ '' '' @ ?args @ [DQ],
       ''GRUB_CMDLINE_LINUX_DEFAULT='' @ [DQ] @ ''quiet'' @ [DQ]])"
    by (simp add: default_grub_text_def installer_args_def)
  have r: "LF \<notin> set r" using assms(1) by (auto simp: word_ok_def list_all_iff is_ifs_def)
  have args: "LF \<notin> set ?args" "DQ \<notin> set ?args" by (simp_all add: installer_args_def)
  have undq: "DQ \<notin> set x \<Longrightarrow> filter (\<lambda>c. c \<noteq> DQ) x = x" for x
    by (induction x) auto
  have "first_value [''GRUB_CMDLINE_LINUX=''] (default_grub_text r) = r @ '' '' @ ?args"
    unfolding made using r args assms(2) by (subst first_value_lines) (auto simp: undq)
  moreover have "first_value [''GRUB_CMDLINE_LINUX_DEFAULT=''] (default_grub_text r) = ''quiet''"
    unfolding made using r args by (subst first_value_lines) auto
  moreover have "word_ok ''quiet''" by code_simp
  ultimately show ?thesis
    using assms(1) by (simp add: kernel_cmdline_def words_unwords words_ok words_word)
qed

definition acpi_words :: "string list" where
  "acpi_words = [''acpi=off'', ''noapic'', ''nolapic'', ''irqpoll'', ''pci=nomsi'']"

lemma installer_args_words:
  "words (installer_args INSTALLER_ACPI_OFF) = words (installer_args INSTALLER_ACPI_ON) @ acpi_words"
  "filter (\<lambda>w. w \<notin> set acpi_words) (words (installer_args INSTALLER_ACPI_ON)) = words (installer_args INSTALLER_ACPI_ON)"
  by code_simp+

lemma update_words:
  assumes "word_ok r" "DQ \<notin> set r" "prefix ''root='' r"
    and "installer_build_default_grub_config (Some r) acpi_mode n = Some text"
  shows "words (kernel_cmdline (Some (default_grub_text r)))
    = filter (\<lambda>w. w \<notin> set acpi_words) (words (kernel_cmdline (Some text)))"
proof -
  have "LF \<notin> set r" using assms(1) by (auto simp: word_ok_def list_all_iff is_ifs_def)
  then have "words (kernel_cmdline (Some text)) = r # words (installer_args acpi_mode) @ [''quiet'']"
    using config_words [OF assms(4)] assms(1,2) by (simp add: words_word)
  moreover have "r \<notin> set acpi_words" using assms(3) by (auto simp: acpi_words_def)
  moreover have "filter (\<lambda>w. w \<notin> set acpi_words) (words (installer_args acpi_mode)) = words (installer_args INSTALLER_ACPI_ON)"
    using installer_args_words by (cases acpi_mode) simp_all
  moreover have "''quiet'' \<notin> set acpi_words" by (simp add: acpi_words_def)
  ultimately show ?thesis by (simp add: default_grub_words [OF assms(1,2)])
qed

lemma write_default_grub_fills:
  assumes "result (write_default_grub env root) h" and "e_open env h (root @ ''/etc/default/grub'') = Some text"
    and "root_arg_lines (fgets_lines 2047 text) 256 = Some r"
  shows "\<exists>h' tmp. after (write_default_grub env root) h = h' @ [Fill tmp (default_grub_text r), Fchmod tmp 0x1A4,
    CloseFile tmp, Rename tmp (root @ ''/etc/default/grub'')]"
proof -
  let ?path = "root @ ''/etc/default/grub''"
  have found: "result (find_root_arg env ?path cfg) h = Some r" "after (find_root_arg env ?path cfg) h = h" for cfg
    using assms(2,3) by (simp_all add: find_root_arg_def root_arg_from_file_def)
  have tmp: "after (install_tmp env t c m d) k = k @ [Fill t c, Fchmod t m, CloseFile t, Rename t d]"
    if "result (install_tmp env t c m d) k" for t c m d k
    using that by (auto simp: install_tmp_def and_then_def split: if_splits)
  show ?thesis
    using assms(1) unfolding write_default_grub_def
    by (auto simp: with_some_def fits_def found and_then_def tmp split: if_splits option.splits)
qed

section \<open>Properties\<close>

text \<open>
  C16. A kernel update keeps the root of an installed system. When the update rewrites the defaults of GRUB that the
  installer wrote for a device, the new file names the same device, and the command line of the boot menu
  has the words it had before, in their order, except those that switch off ACPI, which are lost.
\<close>

theorem kernel_update_keeps_root:
  assumes "installer_build_root_arg (Some dev) n = Some r"
    and "installer_build_default_grub_config (Some r) acpi_mode m = Some text"
    and "plain_device dev" and "length dev < 250"
    and "e_open env h (root @ ''/etc/default/grub'') = Some text" and "result (write_default_grub env root) h"
  shows "(\<exists>h' tmp. after (write_default_grub env root) h = h' @ [Fill tmp (default_grub_text r), Fchmod tmp 0x1A4,
      CloseFile tmp, Rename tmp (root @ ''/etc/default/grub'')]) \<and>
    words (kernel_cmdline (Some (default_grub_text r)))
      = filter (\<lambda>w. w \<notin> set acpi_words) (words (kernel_cmdline (Some text)))"
proof -
  have r: "r = ''root='' @ dev"
    using assms(1) by (auto simp: installer_build_root_arg_def fits_def split: if_splits)
  have "root_arg_lines (fgets_lines 2047 text) 256 = Some r"
    unfolding r by (rule root_arg_read_back [OF _ assms(3,4)]) (use assms(2) r in simp)
  moreover have "word_ok r" "DQ \<notin> set r" "prefix ''root='' r"
    using plain_device_chars [OF assms(3)] by (auto simp: r word_ok_def is_ifs_def)
  ultimately show ?thesis
    using write_default_grub_fills [OF assms(6,5)] update_words [OF _ _ _ assms(2)] by blast
qed

text \<open>A system that was installed with ACPI off.\<close>

definition acpi_off_grub :: string where
  "acpi_off_grub =
     (case installer_build_default_grub_config (Some ''root=/dev/sda1'') INSTALLER_ACPI_OFF 1024 of None \<Rightarrow> [] | Some t \<Rightarrow> t)"

definition updated_env :: env where
  "updated_env = (listing_env []) \<lparr>e_open := \<lambda>h p. Some acpi_off_grub, e_mkstemp := \<lambda>h t. Some ''/etc/default/grub.tmp''\<rparr>"

lemma all_io_ok: "(\<And>x h. result (f x) h) \<Longrightarrow> result (all_io f xs) h"
  by (induction xs arbitrary: h) (simp_all add: and_then_def)

theorem kernel_update_keeps_root_witness:
  "installer_build_root_arg (Some ''/dev/sda1'') 192 = Some ''root=/dev/sda1'' \<and> result (write_default_grub updated_env []) [] \<and>
   words (kernel_cmdline (Some (default_grub_text ''root=/dev/sda1'')))
     = filter (\<lambda>w. w \<notin> set acpi_words) (words (kernel_cmdline (Some acpi_off_grub)))"
proof -
  have root_arg: "installer_build_root_arg (Some ''/dev/sda1'') 192 = Some ''root=/dev/sda1''"
    by (simp add: installer_build_root_arg_def fits_def)
  have config: "installer_build_default_grub_config (Some ''root=/dev/sda1'') INSTALLER_ACPI_OFF 1024 = Some acpi_off_grub"
    by (simp add: acpi_off_grub_def installer_build_default_grub_config_def fits_def)
  have dev: "plain_device ''/dev/sda1''" "length ''/dev/sda1'' < 250" by code_simp simp
  have opened: "e_open updated_env [] ([] @ ''/etc/default/grub'') = Some acpi_off_grub"
    by (simp add: updated_env_def)
  have "root_arg_lines (fgets_lines 2047 acpi_off_grub) 256 = Some ''root=/dev/sda1''"
    using root_arg_read_back [of "''/dev/sda1''"] config dev by simp
  then have ok: "result (write_default_grub updated_env []) []"
    by (simp add: write_default_grub_def with_some_def fits_def find_root_arg_def root_arg_from_file_def and_then_def
        default_grub_text_def updated_env_def listing_env_def install_tmp_def ensure_parent_dir_def ensure_dir_recursive_def
        Let_def all_io_ok mkdir_ok_def)
  from kernel_update_keeps_root [OF root_arg config dev opened ok] root_arg ok show ?thesis by blast
qed

end
