(* ===== verification/PackageCalls.thy ===== *)
theory PackageCalls
  imports InstallerRun Syspckg
begin

text \<open>
  How the installer (\<^verbatim>\<open>tools/installer/install.c\<close>) and the package manager (\<^verbatim>\<open>tools/syspckg/main.cpp\<close>) fit together: what the
  command line of every call means to the program that is called.
\<close>

section \<open>The calls of the package manager\<close>

text \<open>The arguments of a call, on the running system or inside the new root.\<close>

definition syspckg_args :: "event \<Rightarrow> string list option" where
  "syspckg_args e =
     (case e of
        Run argv \<Rightarrow>
          if take 1 argv = [''syspckg''] then Some (drop 1 argv)
          else if take 1 argv = [''chroot''] \<and> take 1 (drop 2 argv) = [''/usr/bin/syspckg''] then Some (drop 3 argv)
          else None
      | _ \<Rightarrow> None)"

definition unattended :: "string \<Rightarrow> string list \<Rightarrow> SourceMode \<Rightarrow> Options" where
  "unattended command args source =
     \<lparr>op_command = command, op_args = args, op_source = source, op_assume_yes = True\<rparr>"

definition installer_packages :: "string list" where
  "installer_packages = [''grub2-efi-x64'', ''grub2-efi-x64-modules'', ''grub2-pc'', ''e2fsprogs'']"

text \<open>What a call is taken for.\<close>

definition understood :: "InstallerAction \<Rightarrow> event \<Rightarrow> bool" where
  "understood action e \<longleftrightarrow>
     (case syspckg_args e of
        None \<Rightarrow> True
      | Some args \<Rightarrow>
          if action = INSTALLER_ACTION_UPDATE
          then dnf_parse_options args
            = Inr (unattended ''update'' [''--all'', ''--root'', ROOT_MNT, ''--allow-root''] AUTO)
          else \<exists>pkg \<in> set installer_packages. dnf_parse_options args = Inr (unattended ''install'' [pkg] FEDORA))"

section \<open>Lemmas\<close>

lemma understood_other [simp]:
  "quiet (understood a)" "understood a (Progress percent l)" "understood a (Usleep n)" "understood a (WriteFile p c)"
  "understood a (Fill p c)" "understood a (Rename p q)" "understood a (Unlink p)" "understood a (Log l)"
  by (simp_all add: quiet_def understood_def syspckg_args_def)

lemma understood_programs [simp]:
  "prog \<noteq> ''syspckg'' \<Longrightarrow> prog \<noteq> ''chroot'' \<Longrightarrow> understood a (Run (prog # args))"
  by (simp add: understood_def syspckg_args_def)

lemma install_calls_parsed:
  assumes "pkg \<in> set installer_packages" and "a \<noteq> INSTALLER_ACTION_UPDATE"
  shows "understood a (Run (installer_build_syspckg_install_argv pkg))"
    and "understood a (Run (installer_build_syspckg_root_install_argv pkg root))"
proof -
  have "list_all (\<lambda>p. dnf_parse_options [''install'', p, ''--source'', ''fedora'', ''-y'']
      = Inr (unattended ''install'' [p] FEDORA)) installer_packages"
    by code_simp
  then have "dnf_parse_options [''install'', pkg, ''--source'', ''fedora'', ''-y''] = Inr (unattended ''install'' [pkg] FEDORA)"
    using assms(1) by (simp add: list_all_iff)
  then have parsed: "\<exists>p \<in> set installer_packages. dnf_parse_options [''install'', pkg, ''--source'', ''fedora'', ''-y'']
      = Inr (unattended ''install'' [p] FEDORA)"
    using assms(1) by blast
  have "syspckg_args (Run (installer_build_syspckg_install_argv pkg)) = Some [''install'', pkg, ''--source'', ''fedora'', ''-y'']"
      "syspckg_args (Run (installer_build_syspckg_root_install_argv pkg root))
        = Some [''install'', pkg, ''--source'', ''fedora'', ''-y'']"
    by (simp_all add: syspckg_args_def installer_build_syspckg_install_argv_def
        installer_build_syspckg_root_install_argv_def)
  with parsed assms(2) show "understood a (Run (installer_build_syspckg_install_argv pkg))"
      "understood a (Run (installer_build_syspckg_root_install_argv pkg root))"
    by (simp_all add: understood_def)
qed

lemma update_call_parsed:
  "understood INSTALLER_ACTION_UPDATE
     (Run [''syspckg'', ''update'', ''--all'', ''--root'', ROOT_MNT, ''--allow-root'', ''-y''])"
proof -
  have "dnf_parse_options [''update'', ''--all'', ''--root'', ROOT_MNT, ''--allow-root'', ''-y'']
      = Inr (unattended ''update'' [''--all'', ''--root'', ROOT_MNT, ''--allow-root''] AUTO)"
    by code_simp
  then show ?thesis by (simp add: understood_def syspckg_args_def)
qed

lemma may_run_understood:
  "''syspckg'' \<notin> set progs \<Longrightarrow> ''chroot'' \<notin> set progs \<Longrightarrow> may_run progs (understood a)"
  unfolding may_run_def by (metis understood_programs)

lemma emits_understood_pkg:
  assumes "pkg \<in> set installer_packages" and "a \<noteq> INSTALLER_ACTION_UPDATE"
  shows "emits (understood a) (install_grub_pkg env pkg root)"
  unfolding install_grub_pkg_def Let_def
  by (intro emits_intros quiet_intros) (auto simp: install_calls_parsed [OF assms] split: option.splits if_splits)

lemma emits_understood_tools:
  "a \<noteq> INSTALLER_ACTION_UPDATE \<Longrightarrow> emits (understood a) (install_tools env cfg)"
  "a \<noteq> INSTALLER_ACTION_UPDATE \<Longrightarrow> emits (understood a) (install_target_packages env cfg)"
proof -
  assume a: "a \<noteq> INSTALLER_ACTION_UPDATE"
  have pkgs: "emits (understood a) (all_io (\<lambda>pkg. install_grub_pkg env pkg root) (grub_packages cfg))" for root
    by (auto simp: grub_packages_def installer_packages_def intro!: emits_intros emits_understood_pkg a)
  show "emits (understood a) (install_tools env cfg)"
    unfolding install_tools_def
    by (intro emits_intros quiet_intros emits_step pkgs emits_understood_pkg a) (simp_all add: installer_packages_def)
  show "emits (understood a) (install_target_packages env cfg)"
    unfolding install_target_packages_def sync_target_resolver_def Let_def
    by (intro emits_intros quiet_intros emits_step emits_installer_write_file pkgs) simp_all
qed

lemma emits_understood_wait: "emits (understood a) (wait_for_partitions env part efi)"
  unfolding wait_for_partitions_def by (rule wait_attempts_emits) (simp_all add: may_run_understood)

lemma emits_understood_disk:
  "emits (understood a) (prepare_devices env cfg)" "emits (understood a) (mount_media env cfg)"
  "emits (understood a) (erase_allowed env cfg dev)" "emits (understood a) (partition_disk env cfg part efi)"
  "emits (understood a) (format_partitions env cfg part efi)" "emits (understood a) (finish_format env)"
proof -
  show "emits (understood a) (prepare_devices env cfg)" "emits (understood a) (mount_media env cfg)"
      "emits (understood a) (erase_allowed env cfg dev)"
    by (intro emits_prepare_devices emits_mount_media emits_erase_allowed may_run_understood; simp)+
  show "emits (understood a) (partition_disk env cfg part efi)" "emits (understood a) (format_partitions env cfg part efi)"
      "emits (understood a) (finish_format env)"
    unfolding partition_disk_def format_partitions_def finish_format_def
    by (intro emits_intros quiet_intros emits_step emits_understood_wait; simp)+
qed

lemma emits_understood_root: "emits (understood a) (extract_root env part)"
  unfolding extract_root_def copy_memtest_def by (intro emits_intros quiet_intros emits_step; simp)

lemma emits_understood_accounts: "emits (understood a) (create_accounts env cfg)"
  unfolding create_accounts_def write_user_files_def write_home_def write_records_def write_host_files_def
    upsert_or_log_def upsert_colon_record_def hash_password_def Let_def
  by (intro emits_intros quiet_intros emits_step emits_installer_write_file emits_captured_by; simp)

lemma emits_understood_boot:
  "emits (understood a) (copy_kernel env)" "emits (understood a) (write_boot_config env cfg part)"
  "emits (understood a) (install_bootloader env cfg efi)" "emits (understood a) (finish_installation env)"
  unfolding copy_kernel_def write_boot_config_def write_default_grub_file_def generate_grub_config_def
    install_bootloader_def install_bootloader_efi_def install_bootloader_bios_def
    resolve_grub_platform_dir_def finish_installation_def
  by (intro emits_intros quiet_intros emits_step emits_installer_write_file emits_find_kernel emits_grub_dir_at; simp)+

lemma emits_understood_update:
  "emits (understood INSTALLER_ACTION_UPDATE) (update_system env part)"
  unfolding update_system_def
  by (intro emits_intros quiet_intros emits_understood_wait emits_step) (simp_all add: update_call_parsed)

section \<open>Properties\<close>


end
