(* ===== verification/Spec2Isabelle.thy ===== *)
theory Spec2Isabelle
  imports Prelude Versions PkgNames InstallOrder InstallerHelpers World Metadata Resolve
    Archive FileOps Boot Transaction Cli InstallerSys InstallerRun Wizard Progress
    Throwing Activity Console Bootstrap Syspckg SyspckgRun
    Shell Initramfs Dhcp BootMenu ManPage Sysroot KernelBuild IsoBuild BootChain KernelUpdate PackageCalls
begin

text \<open>
  A verification development of AdavaLinux: the installer, the two package managers, the scripts that
  build, start and connect the system, and how these parts work together.

  \<^bold>\<open>The program and its parts.\<close>
  The build (\<^verbatim>\<open>Makefile\<close>, \<^verbatim>\<open>tools/syspckg/bootstrap-libdnf5-sysroot.sh\<close>) makes the kernel, BusyBox and the images. The live system
  (\<^verbatim>\<open>filesforlinux/rootfs/init\<close>, \<^verbatim>\<open>etc/init.d/rcS\<close>, the script of \<^verbatim>\<open>udhcpc\<close>) starts the installer
  (\<^verbatim>\<open>tools/installer\<close>), which asks for a configuration, erases a disk, unpacks the system, calls the package
  manager and writes the defaults of GRUB. The generator \<^verbatim>\<open>etc/grub.d/10_adavalinux\<close> makes the boot menu from them, and the
  initial RAM disk (\<^verbatim>\<open>initramfs-disk/init\<close>) finds the root file system from the command line of an
  entry. Packages are managed by \<^verbatim>\<open>tools/syspckg/main.cpp\<close>, a front end of libdnf5 and RPM, and were managed by
  \<^verbatim>\<open>tools/syspckg-old/main.c\<close>.

  \<^bold>\<open>How the code is modelled.\<close>
  Strings of C are lists of characters without NUL; a buffer of a given size is a \<^const>\<open>fits\<close> or
  \<^const>\<open>trunc\<close> at the same place and with the same size. A function with effects is a value of the state
  monad over the history of all calls that can change something (\<^verbatim>\<open>World\<close>); the system is the parameter \<open>env\<close>,
  about which nothing is assumed. A C function that returns an error code yields a \<^typ>\<open>bool\<close> or an option,
  a C++ function that throws yields a sum (\<^verbatim>\<open>Throwing\<close>), a script that runs with \<^verbatim>\<open>set -e\<close> likewise. A script is
  a sequence of commands and tests of the same environment (\<^verbatim>\<open>Shell\<close>). What a theorem says of
  every call of a run is stated with \<^const>\<open>emits\<close>, or with \<^const>\<open>emits_at\<close> where the condition depends on what
  has happened before the call.

  \<^bold>\<open>The theories, with the sources they model.\<close>

  \<^item> \<^verbatim>\<open>Prelude\<close>, \<^verbatim>\<open>World\<close>, \<^verbatim>\<open>Throwing\<close>, \<^verbatim>\<open>Shell\<close>: the shared library. Character classes, \<^verbatim>\<open>string.h\<close> and \<^verbatim>\<open>stdio.h\<close>; the
    environment, the history and the rules for traces; exceptions; words, lines and commands of a shell, and the content of a
    file by the writes of a history.

  \<^item> \<^verbatim>\<open>Versions\<close>, \<^verbatim>\<open>PkgNames\<close>, \<^verbatim>\<open>InstallOrder\<close>, \<^verbatim>\<open>Metadata\<close>, \<^verbatim>\<open>Resolve\<close>, \<^verbatim>\<open>Archive\<close>, \<^verbatim>\<open>FileOps\<close>, \<^verbatim>\<open>Boot\<close>,
    \<^verbatim>\<open>Transaction\<close>, \<^verbatim>\<open>Cli\<close>: \<^verbatim>\<open>tools/syspckg-old/main.c\<close>, from the comparison of versions to \<^verbatim>\<open>main\<close>. Shown: the comparison is the order of
    a key, and every search with it finds a newest candidate (locale \<^verbatim>\<open>version_order\<close>); the order of an
    installation has dependencies first, and hooks run in it; phase 1 ends and collects a closed set of plans; copies
    and removals stay below their root; manifests are read back as they were written; the command
    line refuses what it must.

  \<^item> \<^verbatim>\<open>InstallerHelpers\<close> (\<^verbatim>\<open>helpers.c\<close>), \<^verbatim>\<open>InstallerSys\<close> (\<^verbatim>\<open>sys.c\<close>), \<^verbatim>\<open>InstallerRun\<close> (\<^verbatim>\<open>install.c\<close>), \<^verbatim>\<open>Wizard\<close> and
    \<^verbatim>\<open>Progress\<close> (\<^verbatim>\<open>ui.c\<close>, \<^verbatim>\<open>main.c\<close>): the installer. A dialog is a function of the keys to come, the wizard a state machine.
    Shown: nothing is erased before the target is known to be neither the media nor the running
    system, and nothing at all happens without the phrase of confirmation; a configuration that is collected is complete, and
    Escape leads out; the percentages tell the truth.

  \<^item> \<^verbatim>\<open>Console\<close>, \<^verbatim>\<open>Activity\<close>, \<^verbatim>\<open>Bootstrap\<close>, \<^verbatim>\<open>Syspckg\<close>, \<^verbatim>\<open>SyspckgRun\<close>: \<^verbatim>\<open>tools/syspckg/main.cpp\<close>. The threads of the display hold
    a mutex for each operation, so a run is a sequence of operations. libdnf5 and librpm are the record
    \<^verbatim>\<open>dnf\<close>, a parameter. Shown: RPM is started only for a resolved and confirmed transaction with all packages
    there; the identity of the system, the macros and the flags are put back on every way out that the code provides for;
    the move below \<^verbatim>\<open>/usr\<close> loses no file; log lines stay whole between drawings of the status line.

  \<^item> \<^verbatim>\<open>Initramfs\<close> (\<^verbatim>\<open>initramfs-disk/init\<close>, \<^verbatim>\<open>rootfs/init\<close>, \<^verbatim>\<open>rcS\<close>), \<^verbatim>\<open>Dhcp\<close> (\<^verbatim>\<open>udhcpc/default.script\<close>), \<^verbatim>\<open>BootMenu\<close> (\<^verbatim>\<open>10_adavalinux\<close>),
    \<^verbatim>\<open>ManPage\<close> (\<^verbatim>\<open>usr/bin/man\<close>): the scripts of the system. Shown: the RAM disk leaves for the real root only when it is mounted and
    complete, and waits for its device a bounded time; a lease gives the resolver configuration that is promised;
    the menu boots the newest kernel, by the contract of \<^verbatim>\<open>sort -Vr\<close> (locale \<^verbatim>\<open>version_sort\<close>, interpreted on the sort and the comparison
    of the package manager).

  \<^item> \<^verbatim>\<open>Sysroot\<close> (\<^verbatim>\<open>bootstrap-libdnf5-sysroot.sh\<close>), \<^verbatim>\<open>KernelBuild\<close> (targets \<^verbatim>\<open>kernel\<close> and \<^verbatim>\<open>busybox\<close> of the \<^verbatim>\<open>Makefile\<close>) and
    \<^verbatim>\<open>IsoBuild\<close> (targets \<^verbatim>\<open>tools\<close> and \<^verbatim>\<open>iso\<close>, and the menu \<^verbatim>\<open>iso/boot/grub/grub.cfg\<close>): the build. Shown: a
    sysroot that is reported as ready is complete; the kernel that is copied was configured with every line of the fragment; the
    media have the newest kernel, the archives of the trees just filled, and a menu that loads them by their names
    (commands that were successful in an order are the predicate \<^verbatim>\<open>performed\<close>); the check of the archives, as
    \<^verbatim>\<open>make\<close> hands it to the shell, accepts every archive with an entry and reads only one of the two.

  \<^item> \<^verbatim>\<open>BootChain\<close> and this theory: the installer, the menu and the RAM disk together. A run of the whole installer on a
    machine where everything works is carried out, and the system it installs is started. \<^verbatim>\<open>KernelUpdate\<close>: the installer, the kernel
    update of the old package manager and the menu together. The update keeps the root and loses the choice of ACPI. \<^verbatim>\<open>PackageCalls\<close>:
    the installer and the command line of the package manager together. The calls of an installation mean what they should, the
    call of an update does not.

  \<^bold>\<open>Bounds and fuel.\<close>
  The walk over a tree in \<^verbatim>\<open>FileOps\<close> has \<open>PATH_MAX + 1\<close> units: each level makes the path longer, and longer paths are
  refused by the code itself. The move of a tree in \<^verbatim>\<open>Bootstrap\<close> has \<open>4096\<close>: where paths of this length are refused by the
  system, a larger bound gives the same. Phase 1 of an installation ends for a finite set of
  names when the fuel is more than their number and the length of the first queue together. Dialogs are recursive in the list of the keys. The retries of \<^verbatim>\<open>rcS\<close> in the
  background have no bound in the script; \<^const>\<open>dhcp_retry\<close> has fuel, and is successful with enough of it
  just when some attempt is. All other loops are over lists, or have the count of the source.

  \<^bold>\<open>Not modelled.\<close>
  Drawing with ncurses: windows, colours and the cursor, which do not influence what is done. Messages on the terminal, banners, usage texts and the
  formatting of elapsed times. The inside of libdnf5, librpm, GRUB, BusyBox and the kernel, which are
  not in the repository: their answers are parameters. Signals, and the memory of the C programs: allocation that fails and
  pointers that dangle are findings of reading the code, not theorems. In the \<^verbatim>\<open>Makefile\<close> the targets \<^verbatim>\<open>run-*\<close>, which
  call an emulator with fixed arguments, and those without logic of their own (\<^verbatim>\<open>clean\<close>, \<^verbatim>\<open>help\<close>, \<^verbatim>\<open>xfce\<close>); the other make files; the tests, which
  search the sources for strings; and the files of glibc below \<^verbatim>\<open>filesforlinux/rootfs\<close>: headers, locales, character maps and
  tools that are shipped unchanged.
\<close>

section \<open>From the installer to the running system\<close>

text \<open>
  C2. A system that has been installed starts from its own root file system. Let a new installation be
  successful, let the generator of the boot menu read the defaults of GRUB that the installer wrote, and let any
  entry of its menu be started, with a kernel command line that has the words of the entry after words
  that say nothing about the root. Then the initial RAM disk goes on with the partition that was
  installed and with ext4, and it hands over to the real root just when the device appears, its mount
  is successful, \<^verbatim>\<open>/sbin/init\<close> is on it and the three moves succeed.
\<close>

theorem installation_boots:
  assumes installed: "result (installer_run_install env cfg) h" "c_action cfg = INSTALLER_ACTION_INSTALL"
    and part: "target_part cfg = Some part" "word_ok part" "DQ \<notin> set part"
    and defaults: "menu_defaults menu_sh menu_h = Some (written GRUB_DEFAULTS c (after (installer_run_install env cfg) h))"
    and menu: "result (menu_entries menu_sh sort_Vr) menu_h = Some (version, upper, lower)"
    and entry: "e \<in> set (upper @ lower)"
    and fs: "result (mount_essential_fs sh) k"
    and kernel: "e_open (sh_env sh) (after (mount_essential_fs sh) k) ''/proc/cmdline'' = Some cmdline"
      "words cmdline = loader @ words (me_args e)" "filter root_word loader = []"
  defines "h0 \<equiv> after (mount_essential_fs sh) k"
  defines "h1 \<equiv> after (wait_for_root sh part) h0"
  defines "h2 \<equiv> h1 @ [Run [''mkdir'', ''-p'', ''/newroot'']]"
  defines "h3 \<equiv> h2 @ [Run [''mount'', ''-t'', ''ext4'', part, ''/newroot'']]"
  shows "after (initramfs_init sh) k = after (hand_over sh ''ext4'' part) h0 \<and>
    (result (initramfs_init sh) k = SwitchRoot \<longleftrightarrow>
       result (wait_for_root sh part) h0
       \<and> e_run (sh_env sh) h2 [''mount'', ''-t'', ''ext4'', part, ''/newroot''] = Exited 0
       \<and> sh_test sh h3 (CHR ''x'') ''/newroot/sbin/init'' \<and> result (move_mounts_to_newroot sh) h3)"
proof -
  obtain r where r: "installer_build_root_arg (Some part) 192 = Some r"
      and config: "installer_build_default_grub_config (Some r) (c_acpi_mode cfg) 1024
        = Some (written GRUB_DEFAULTS c (after (installer_run_install env cfg) h))"
    using installation_written [OF installed, of c] part(1) by auto
  show ?thesis
    unfolding h0_def h1_def h2_def h3_def by (rule menu_entry_boots [OF r config part(2,3) defaults menu entry fs kernel])
qed

theorem installation_boots_witness:
  "result (installer_run_install working_env example_config) [] \<and> result (initramfs_init booted_shell) [] = SwitchRoot"
proof -
  have "word_ok ''/dev/sda1''" by code_simp
  then show ?thesis
    using installation_boots [OF working_installation _ example_target _ _ example_defaults example_menu_made first_entry_listed
        booted_steps(1) booted_shell_simps(3) booted_words, of "[]"] working_installation booted_steps
    by (simp add: root_word_def)
qed

end
